(* ===== verification/Utp_Prelude.thy ===== *)
theory Utp_Prelude
  imports Main "HOL-Library.Word"
begin

text \<open>
  Shared vocabulary of the driver model: bytes, the outcome of a C++ expression
  (a value, an exception, or undefined behaviour), unsigned \<open>size_t\<close> subtraction,
  network byte order, and the generic list lemmas the components use.
\<close>

section \<open>Lemma collections\<close>

named_theorems frame_simps "what an operation leaves unchanged in the state"
named_theorems op_defs "definitions of straight-line operations"

section \<open>Bytes and sizes\<close>

type_synonym byte = "8 word"
type_synonym u32 = "32 word"

text \<open>\<open>size_t\<close> subtraction: the operands are naturals below \<open>2^64\<close> and the result wraps.\<close>

definition size_sub :: "nat \<Rightarrow> nat \<Rightarrow> nat" where
  "size_sub a b = (if b \<le> a then a - b else 2 ^ 64 + a - b)"

lemma size_sub_le [simp]: "b \<le> a \<Longrightarrow> size_sub a b = a - b"
  by (simp add: size_sub_def)

section \<open>Network byte order\<close>

text \<open>
  \<open>ntohs\<close> and \<open>ntohl\<close> of an integer read from memory give the big-endian value of
  the bytes there, whatever the byte order of the machine; \<open>htons\<close> and \<open>htonl\<close>
  followed by a store write the big-endian bytes.
\<close>

definition be16 :: "byte \<Rightarrow> byte \<Rightarrow> nat" where
  "be16 a b = unat a * 256 + unat b"

definition be32 :: "byte \<Rightarrow> byte \<Rightarrow> byte \<Rightarrow> byte \<Rightarrow> nat" where
  "be32 a b c d = unat a * 16777216 + unat b * 65536 + unat c * 256 + unat d"

definition bytes16 :: "nat \<Rightarrow> byte list" where
  "bytes16 n = [of_nat (n div 256), of_nat n]"

definition bytes32 :: "nat \<Rightarrow> byte list" where
  "bytes32 n = [of_nat (n div 16777216), of_nat (n div 65536), of_nat (n div 256), of_nat n]"

lemma unat_byte_of_nat: "unat (of_nat n :: byte) = n mod 256"
  by (simp add: unat_of_nat)

lemma unat_byte_less [simp]: "unat (b :: byte) < 256"
  using unsigned_less [of b] by simp

lemma be16_less: "be16 a b < 65536"
  unfolding be16_def using unat_byte_less [of a] unat_byte_less [of b] by linarith

lemma be32_less: "be32 a b c d < 4294967296"
  unfolding be32_def
  using unat_byte_less [of a] unat_byte_less [of b] unat_byte_less [of c] unat_byte_less [of d]
  by linarith

lemma length_bytes16 [simp]: "length (bytes16 n) = 2"
  by (simp add: bytes16_def)

lemma length_bytes32 [simp]: "length (bytes32 n) = 4"
  by (simp add: bytes32_def)

lemma be16_bytes16:
  "n < 65536 \<Longrightarrow> be16 (of_nat (n div 256)) (of_nat n) = n"
  by (simp add: be16_def unat_byte_of_nat)

lemma be32_bytes32:
  assumes "n < 4294967296"
  shows "be32 (of_nat (n div 16777216)) (of_nat (n div 65536)) (of_nat (n div 256)) (of_nat n) = n"
proof -
  have hi: "n div 16777216 mod 256 = n div 16777216"
    using assms by (intro mod_less) simp
  have d1: "n div 65536 = n div 256 div 256" and d2: "n div 16777216 = n div 256 div 256 div 256"
    by (simp_all add: div_mult2_eq [symmetric])
  have "n div 256 * 256 + n mod 256 = n"
    and "n div 256 div 256 * 256 + n div 256 mod 256 = n div 256"
    and "n div 256 div 256 div 256 * 256 + n div 256 div 256 mod 256 = n div 256 div 256"
    by simp_all
  then show ?thesis
    unfolding be32_def unat_byte_of_nat hi unfolding d1 d2 by linarith
qed

section \<open>Outcomes of C++ code\<close>

text \<open>
  The exceptions the driver throws, and the three ways an expression can end. \<open>Undef\<close> is
  undefined behaviour: a read or write outside an object, \<open>front\<close> of an empty
  container, a null pointer followed.
\<close>

datatype exn =
    EiError
  | BadSockAddr
  | SocketFailure int
  | InvalidArgument string
  | BadAlloc

datatype 'a cpp = Ret 'a | Throw exn | Undef

fun cpp_bind :: "'a cpp \<Rightarrow> ('a \<Rightarrow> 'b cpp) \<Rightarrow> 'b cpp" where
  "cpp_bind (Ret x) f = f x"
| "cpp_bind (Throw e) f = Throw e"
| "cpp_bind Undef f = Undef"

lemma cpp_bind_eq_Ret:
  "cpp_bind m f = Ret y \<longleftrightarrow> (\<exists>x. m = Ret x \<and> f x = Ret y)"
  by (cases m) auto

lemma cpp_bind_assoc: "cpp_bind (cpp_bind m f) g = cpp_bind m (\<lambda>x. cpp_bind (f x) g)"
  by (cases m) auto

section \<open>Lists\<close>

lemma sum_list_pos_Nil:
  "(\<forall>n \<in> set ns. 0 < n) \<Longrightarrow> sum_list ns = 0 \<longleftrightarrow> ns = ([] :: nat list)"
  by (cases ns) auto

lemma take_drop_split: "n \<le> m \<Longrightarrow> take m xs = take n xs @ take (m - n) (drop n xs)"
  by (metis le_add_diff_inverse take_add)

lemma drop_append_le: "n \<le> length xs \<Longrightarrow> drop n (xs @ ys) = drop n xs @ ys"
  by simp

lemma take_append_le: "n \<le> length xs \<Longrightarrow> take n (xs @ ys) = take n xs"
  by simp

end
