(* ===== verification/Std_Map.thy ===== *)
theory Std_Map
  imports Utp_Prelude
begin

text \<open>
  \<open>std::map\<close> as the driver uses it: an association list sorted by key. Unlike an update,
  \<open>insert\<close> keeps the value of a key that is already present. The interface the rest of
  the driver relies on is the locale \<open>finite_table\<close>.
\<close>

section \<open>The interface\<close>

locale finite_table =
  fixes invar :: "'m \<Rightarrow> bool"
    and find :: "'m \<Rightarrow> 'k \<Rightarrow> 'v option"
    and ins :: "'k \<Rightarrow> 'v \<Rightarrow> 'm \<Rightarrow> 'm"
    and erase :: "'k \<Rightarrow> 'm \<Rightarrow> 'm"
    and empty :: "'m"
  assumes invar_empty: "invar empty"
    and find_empty: "find empty k = None"
    and invar_ins: "invar m \<Longrightarrow> invar (ins k v m)"
    and find_ins: "invar m \<Longrightarrow>
      find (ins k v m) = (if find m k = None then (find m)(k := Some v) else find m)"
    and invar_erase: "invar m \<Longrightarrow> invar (erase k m)"
    and find_erase: "invar m \<Longrightarrow> find (erase k m) = (find m)(k := None)"
begin

lemma find_ins_same: "invar m \<Longrightarrow> find m k = None \<Longrightarrow> find (ins k v m) k = Some v"
  by (simp add: find_ins)

lemma ins_keeps: "invar m \<Longrightarrow> find m k = Some w \<Longrightarrow> find (ins k v m) = find m"
  by (simp add: find_ins)

lemma find_ins_other: "invar m \<Longrightarrow> k' \<noteq> k \<Longrightarrow> find (ins k v m) k' = find m k'"
  by (simp add: find_ins)

lemma find_ins_SomeD:
  "invar m \<Longrightarrow> find (ins k v m) k' = Some w \<Longrightarrow> find m k' = Some w \<or> k' = k \<and> w = v"
  by (auto simp: find_ins split: if_splits)

lemma erase_ins_new:
  "invar m \<Longrightarrow> find m k = None \<Longrightarrow> find (erase k (ins k v m)) = find m"
  by (auto simp: find_erase find_ins invar_ins)

lemma find_erase_SomeD:
  "invar m \<Longrightarrow> find (erase k m) k' = Some w \<Longrightarrow> k' \<noteq> k \<and> find m k' = Some w"
  by (auto simp: find_erase split: if_splits)

end

section \<open>The implementation\<close>

type_synonym ('k, 'v) std_map = "('k \<times> 'v) list"

definition smap_inv :: "('k::linorder, 'v) std_map \<Rightarrow> bool" where
  "smap_inv m \<longleftrightarrow> sorted (map fst m) \<and> distinct (map fst m)"

definition smap_find :: "('k::linorder, 'v) std_map \<Rightarrow> 'k \<Rightarrow> 'v option" where
  "smap_find m k = map_of m k"

fun smap_insert :: "'k::linorder \<Rightarrow> 'v \<Rightarrow> ('k, 'v) std_map \<Rightarrow> ('k, 'v) std_map" where
  "smap_insert k v [] = [(k, v)]"
| "smap_insert k v ((k', v') # m) =
     (if k < k' then (k, v) # (k', v') # m
      else if k = k' then (k', v') # m
      else (k', v') # smap_insert k v m)"

definition smap_erase :: "'k::linorder \<Rightarrow> ('k, 'v) std_map \<Rightarrow> ('k, 'v) std_map" where
  "smap_erase k m = filter (\<lambda>e. fst e \<noteq> k) m"

lemma set_smap_insert: "fst ` set (smap_insert k v m) = insert k (fst ` set m)"
  by (induction k v m rule: smap_insert.induct) auto

lemma smap_inv_insert: "smap_inv m \<Longrightarrow> smap_inv (smap_insert k v m)"
proof (induction k v m rule: smap_insert.induct)
  case (2 k v k' v' m)
  have keys: "set (map fst (smap_insert k v m)) = insert k (set (map fst m))"
    using set_smap_insert [of k v m] by simp
  have "smap_inv m" using 2(2) by (simp add: smap_inv_def)
  then have IH: "\<not> k < k' \<Longrightarrow> k \<noteq> k' \<Longrightarrow> smap_inv (smap_insert k v m)"
    using 2(1) by blast
  show ?case
  proof (cases "k < k'")
    case True
    then show ?thesis using 2(2) by (force simp: smap_inv_def)
  next
    case False
    then show ?thesis using 2(2) IH keys by (auto simp: smap_inv_def)
  qed
qed (simp add: smap_inv_def)

lemma smap_find_insert:
  "smap_inv m \<Longrightarrow> smap_find (smap_insert k v m) =
    (if smap_find m k = None then (smap_find m)(k := Some v) else smap_find m)"
proof (induction k v m rule: smap_insert.induct)
  case (2 k v k' v' m)
  have inv: "smap_inv m" using 2(2) by (simp add: smap_inv_def)
  show ?case
  proof (cases "k < k'")
    case True
    then have "k \<notin> fst ` set ((k', v') # m)"
      using 2(2) by (force simp: smap_inv_def)
    then show ?thesis using True
      by (auto simp: smap_find_def fun_eq_iff map_of_eq_None_iff)
  next
    case False
    then show ?thesis using 2(1) inv by (auto simp: smap_find_def fun_eq_iff)
  qed
qed (auto simp: smap_find_def fun_eq_iff)

lemma smap_inv_erase: "smap_inv m \<Longrightarrow> smap_inv (smap_erase k m)"
  by (simp add: smap_inv_def smap_erase_def distinct_map_filter sorted_filter)

lemma smap_find_erase: "smap_find (smap_erase k m) = (smap_find m)(k := None)"
  by (induction m) (auto simp: smap_find_def smap_erase_def fun_eq_iff)

interpretation smap: finite_table
  "smap_inv :: ('k::linorder, 'v) std_map \<Rightarrow> bool" smap_find smap_insert smap_erase "[]"
  by unfold_locales
    (simp_all add: smap_inv_insert smap_find_insert smap_inv_erase smap_find_erase,
     simp_all add: smap_inv_def smap_find_def)

text \<open>Erasing every entry that satisfies a predicate, as a loop over the iterators does.\<close>

lemma smap_inv_filter: "smap_inv m \<Longrightarrow> smap_inv (filter P m)"
  by (simp add: smap_inv_def distinct_map_filter sorted_filter)

lemma smap_find_in_set: "smap_inv m \<Longrightarrow> smap_find m k = Some v \<longleftrightarrow> (k, v) \<in> set m"
  by (simp add: smap_find_def smap_inv_def)

lemma smap_find_filter:
  "smap_inv m \<Longrightarrow> smap_find (filter P m) k = Some v \<longleftrightarrow> smap_find m k = Some v \<and> P (k, v)"
  by (simp add: smap_find_in_set smap_inv_filter) 

end
