(* ===== verification/Erl_Driver.thy ===== *)
theory Erl_Driver
  imports Std_Map
begin

text \<open>
  What surrounds the driver: the Erlang runtime's driver interface (\<open>erl_driver.h\<close>),
  libutp and the operating system. None of that code is in the repository, so its behaviour
  is a parameter: a record of functions for the port's I/O queue, allocation, monitors and
  error names, and lists of answers for system calls and libutp calls. Every call the driver
  makes is appended, in order, to a log, so that theorems can speak about the messages sent,
  the binaries freed and the mutexes held.
\<close>

section \<open>Identifiers\<close>

type_synonym pid = nat
type_synonym handler_id = nat
type_synonym monitor = nat
type_synonym utp_socket = nat

text \<open>
  An \<open>ErlDrvTermData\<close> that names a process: \<open>driver_term_nil\<close>, the number 0 that
  \<open>reset_waiting_recv\<close> stores, or a process.
\<close>

datatype caller = NilTerm | ZeroTerm | Proc pid

text \<open>
  An \<open>ErlDrvBinary\<close>: the address and the bytes (\<open>orig_size\<close> is their number). The
  reference count is kept by the runtime; here it is read off the log.
\<close>

record drv_binary =
  bin_id :: nat
  orig_bytes :: "byte list"

abbreviation orig_size :: "drv_binary \<Rightarrow> nat" where
  "orig_size b \<equiv> length (orig_bytes b)"

section \<open>Term specifications\<close>

text \<open>
  The elements of the arrays given to \<open>driver_send_term\<close> and \<open>driver_output_term\<close>; each
  constructor stands for the words from its tag to the next tag.
\<close>

datatype term_spec =
    T_ATOM string
  | T_PORT nat
  | T_UINT nat
  | T_EXT2TERM "byte list option"
  | T_STRING "byte list" nat
  | T_BUF2BINARY "byte list" nat
  | T_LIST nat
  | T_TUPLE nat

fun spec_words :: "term_spec \<Rightarrow> nat" where
  "spec_words (T_EXT2TERM _) = 3"
| "spec_words (T_STRING _ _) = 3"
| "spec_words (T_BUF2BINARY _ _) = 3"
| "spec_words _ = 2"

definition term_words :: "term_spec list \<Rightarrow> nat" where
  "term_words ts = sum_list (map spec_words ts)"

lemma term_words_append [simp]: "term_words (xs @ ys) = term_words xs + term_words ys"
  by (simp add: term_words_def)

lemma term_words_Nil [simp]: "term_words [] = 0"
  by (simp add: term_words_def)

lemma term_words_Cons [simp]: "term_words (t # ts) = spec_words t + term_words ts"
  by (simp add: term_words_def)

text \<open>
  The meaning of a specification, as \<open>erl_driver\<close> documents it: a stack machine. A tuple of
  \<open>n\<close> pops \<open>n\<close> terms; a list of \<open>n\<close> pops a tail and then \<open>n - 1\<close> elements; a
  string pushes a list of characters. It is specification only: the driver never runs it.
\<close>

datatype eterm =
    EAtom string
  | EPort nat
  | EInt nat
  | EExt "byte list"
  | EBin "byte list"
  | EList "eterm list" "eterm option"
  | ETuple "eterm list"

fun eval_spec :: "term_spec list \<Rightarrow> eterm list \<Rightarrow> eterm list option" where
  "eval_spec [] st = Some st"
| "eval_spec (T_ATOM a # ts) st = eval_spec ts (EAtom a # st)"
| "eval_spec (T_PORT p # ts) st = eval_spec ts (EPort p # st)"
| "eval_spec (T_UINT n # ts) st = eval_spec ts (EInt n # st)"
| "eval_spec (T_EXT2TERM b # ts) st =
     (case b of None \<Rightarrow> None | Some bs \<Rightarrow> eval_spec ts (EExt bs # st))"
| "eval_spec (T_STRING bs n # ts) st =
     eval_spec ts (EList (map (\<lambda>b. EInt (unat b)) (take n bs)) None # st)"
| "eval_spec (T_BUF2BINARY bs n # ts) st = eval_spec ts (EBin (take n bs) # st)"
| "eval_spec (T_LIST n # ts) st =
     (if n = 0 \<or> length st < n then None
      else eval_spec ts (EList (rev (take (n - 1) (tl st))) (Some (hd st)) # drop n st))"
| "eval_spec (T_TUPLE n # ts) st =
     (if length st < n then None
      else eval_spec ts (ETuple (rev (take n st)) # drop n st))"

definition spec_term :: "term_spec list \<Rightarrow> eterm option" where
  "spec_term ts = (case eval_spec ts [] of Some [t] \<Rightarrow> Some t | _ \<Rightarrow> None)"

lemma eval_spec_append:
  "eval_spec (xs @ ys) st = (case eval_spec xs st of None \<Rightarrow> None | Some st' \<Rightarrow> eval_spec ys st')"
  by (induction xs st rule: eval_spec.induct) (auto split: option.splits)

lemma eval_spec_uints:
  "eval_spec (map T_UINT ns) st = Some (rev (map EInt ns) @ st)"
  by (induction ns arbitrary: st) auto

section \<open>The calls the driver makes\<close>

text \<open>\<open>DataIn\<close> is no call: it notes the data that libutp hands to the driver.\<close>

datatype utp_call =
    UTP_Create
  | UTP_SetCallbacks utp_socket
  | UTP_SetSockopt utp_socket nat int
  | UTP_Connect utp_socket
  | UTP_Write utp_socket nat
  | UTP_Close utp_socket
  | UTP_RBDrained utp_socket
  | UTP_GetPeerName utp_socket
  | UTP_IsIncomingUTP "byte list"
  | UTP_CheckTimeouts

datatype mutex = UtpMutex | MapMutex | QueueMutex

datatype action =
    Lock mutex
  | Unlock mutex
  | CreateMutex mutex
  | DestroyMutex mutex
  | AllocBinary nat
  | IncRefc nat
  | FreeBinary nat
  | SendTerm nat caller "term_spec list"
  | OutputTerm nat "term_spec list"
  | UtpCall utp_call
  | SetPortBinary nat
  | Select int bool
  | SetTimer nat
  | CancelTimer
  | MonitorProcess pid monitor
  | DemonitorProcess monitor
  | FailureEof nat
  | CreatePort caller
  | SendTo int int
  | CloseFd int
  | DataIn "byte list"
  | Delete handler_id

text \<open>What has gone wrong so far: each is undefined behaviour, or a loop that has not ended.\<close>

datatype fault =
    NullDeref
  | OutOfBounds
  | EmptyFront
  | UseAfterFree
  | DoubleFree
  | NullAlloc
  | StillLooping
  | UncaughtException

section \<open>The driver interface as a parameter\<close>

text \<open>
  \<open>'q\<close> is the runtime's representation of a port's I/O queue. \<open>alloc_ok k n\<close> says whether
  the \<open>k\<close>-th allocation (of \<open>n\<close> bytes) succeeds; \<open>monitor_process k p\<close> is the monitor
  that the \<open>k\<close>-th call creates for process \<open>p\<close>, if it can.
\<close>

record 'q drv_api =
  drv_enq :: "'q \<Rightarrow> byte list \<Rightarrow> 'q"
  drv_deq :: "'q \<Rightarrow> nat \<Rightarrow> 'q"
  drv_sizeq :: "'q \<Rightarrow> nat"
  drv_peekq :: "'q \<Rightarrow> byte list list"
  alloc_ok :: "nat \<Rightarrow> nat \<Rightarrow> bool"
  monitor_process :: "nat \<Rightarrow> pid \<Rightarrow> monitor option"
  errno_id :: "int \<Rightarrow> string"

text \<open>
  The documented behaviour of the I/O queue, over the bytes that \<open>driver_peekq\<close> shows: bytes
  leave in the order they came. Nothing is promised for dequeuing more than is queued.
\<close>

definition queue_bytes :: "'q drv_api \<Rightarrow> 'q \<Rightarrow> byte list" where
  "queue_bytes D q = concat (drv_peekq D q)"

definition ioq_laws :: "'q drv_api \<Rightarrow> bool" where
  "ioq_laws D \<longleftrightarrow>
     (\<forall>q. drv_sizeq D q = length (queue_bytes D q)) \<and>
     (\<forall>q bs. queue_bytes D (drv_enq D q bs) = queue_bytes D q @ bs) \<and>
     (\<forall>q n. n \<le> length (queue_bytes D q) \<longrightarrow>
        queue_bytes D (drv_deq D q n) = drop n (queue_bytes D q))"

lemma ioq_sizeq: "ioq_laws D \<Longrightarrow> drv_sizeq D q = length (queue_bytes D q)"
  by (simp add: ioq_laws_def)

lemma ioq_enq: "ioq_laws D \<Longrightarrow> queue_bytes D (drv_enq D q bs) = queue_bytes D q @ bs"
  by (simp add: ioq_laws_def)

lemma ioq_deq:
  "ioq_laws D \<Longrightarrow> n \<le> length (queue_bytes D q) \<Longrightarrow>
   queue_bytes D (drv_deq D q n) = drop n (queue_bytes D q)"
  by (simp add: ioq_laws_def)

lemmas ioq_simps = ioq_sizeq ioq_enq ioq_deq

definition allocs_ok :: "'q drv_api \<Rightarrow> bool" where
  "allocs_ok D \<longleftrightarrow> (\<forall>k n. alloc_ok D k n)"

text \<open>
  An instance for the witnesses: a queue of the chunks that were enqueued, all allocations and
  monitors succeeding.
\<close>

fun deq_chunks :: "byte list list \<Rightarrow> nat \<Rightarrow> byte list list" where
  "deq_chunks [] n = []"
| "deq_chunks (c # cs) n =
     (if n < length c then drop n c # cs else deq_chunks cs (n - length c))"

definition chunk_api :: "byte list list drv_api" where
  "chunk_api =
     \<lparr>drv_enq = (\<lambda>q bs. if bs = [] then q else q @ [bs]),
      drv_deq = deq_chunks,
      drv_sizeq = (\<lambda>q. length (concat q)),
      drv_peekq = (\<lambda>q. q),
      alloc_ok = (\<lambda>_ _. True),
      monitor_process = (\<lambda>k p. Some k),
      errno_id = (\<lambda>e. if e = 107 then ''enotconn'' else if e = 110 then ''etimedout''
                      else if e = 22 then ''einval'' else ''unknown'')\<rparr>"

lemma concat_deq_chunks: "concat (deq_chunks q n) = drop n (concat q)"
  by (induction q n rule: deq_chunks.induct) (auto simp: not_less)

lemma chunk_api_laws [simp]: "ioq_laws chunk_api"
  by (simp add: ioq_laws_def queue_bytes_def chunk_api_def concat_deq_chunks)

lemma chunk_api_allocs [simp]: "allocs_ok chunk_api"
  by (simp add: allocs_ok_def chunk_api_def)

section \<open>Error numbers and constants\<close>

text \<open>The Linux values of the constants of \<open>errno.h\<close> and \<open>socket.h\<close> that the source names.\<close>

definition EINTR :: int where "EINTR = 4"
definition EAGAIN :: int where "EAGAIN = 11"
definition EWOULDBLOCK :: int where "EWOULDBLOCK = 11"
definition ENOMEM :: int where "ENOMEM = 12"
definition EINVAL :: int where "EINVAL = 22"
definition ECONNRESET :: int where "ECONNRESET = 104"
definition ENOTCONN :: int where "ENOTCONN = 107"
definition ETIMEDOUT :: int where "ETIMEDOUT = 110"
definition SO_SNDBUF :: nat where "SO_SNDBUF = 7"
definition SO_RCVBUF :: nat where "SO_RCVBUF = 8"

text \<open>The states of \<open>libutp/utp.h\<close>.\<close>

definition UTP_STATE_CONNECT :: int where "UTP_STATE_CONNECT = 1"
definition UTP_STATE_WRITABLE :: int where "UTP_STATE_WRITABLE = 2"
definition UTP_STATE_EOF :: int where "UTP_STATE_EOF = 3"
definition UTP_STATE_DESTROYING :: int where "UTP_STATE_DESTROYING = 4"

lemmas errno_defs = EINTR_def EAGAIN_def EWOULDBLOCK_def ENOMEM_def EINVAL_def ECONNRESET_def
  ENOTCONN_def ETIMEDOUT_def

lemmas utp_state_defs = UTP_STATE_CONNECT_def UTP_STATE_WRITABLE_def UTP_STATE_EOF_def
  UTP_STATE_DESTROYING_def

end
