(* ===== verification/Driver_Env.thy ===== *)
theory Driver_Env
  imports Erl_Driver
begin

text \<open>
  The state that all handlers share: the log of calls, the runtime's counters, who is calling,
  and the \<open>MainHandler\<close> singleton with its tables. Then binaries: allocation, and the
  reference count that the log determines.
\<close>

section \<open>The shared state\<close>

text \<open>
  The fields of the \<open>MainHandler\<close> that its static functions use (class \<open>MainHandler\<close>):
  its port, the map from sockets to handlers, and the two monitor maps.
\<close>

record main_handler =
  mh_id :: handler_id
  mh_port :: nat
  fdmap :: "(int, handler_id) std_map"
  mon_map :: "(monitor, handler_id) std_map"
  proc_mon_map :: "(pid, monitor) std_map"

record env =
  log :: "action list"
  n_allocs :: nat
  n_monitors :: nat
  cur_caller :: pid
  connected_pid :: "nat \<Rightarrow> pid"
  main :: "main_handler option"

definition env_log :: "action \<Rightarrow> env \<Rightarrow> env" where
  "env_log a w = w\<lparr>log := log w @ [a]\<rparr>"

lemma env_log_simps [simp]:
  "log (env_log a w) = log w @ [a]"
  "n_allocs (env_log a w) = n_allocs w"
  "n_monitors (env_log a w) = n_monitors w"
  "cur_caller (env_log a w) = cur_caller w"
  "connected_pid (env_log a w) = connected_pid w"
  "main (env_log a w) = main w"
  by (simp_all add: env_log_def)

section \<open>Binaries\<close>

text \<open>
  \<open>driver_alloc_binary(n)\<close>: a new binary of \<open>n\<close> bytes, or null. Its bytes are not
  initialised by the runtime; the code always fills them before it reads them, and the model
  starts with zeros.
\<close>

definition alloc_binary :: "'q drv_api \<Rightarrow> nat \<Rightarrow> env \<Rightarrow> drv_binary option \<times> env" where
  "alloc_binary D n w =
     (let i = n_allocs w; w' = w\<lparr>n_allocs := Suc i\<rparr>
      in if alloc_ok D i n
         then (Some \<lparr>bin_id = i, orig_bytes = replicate n 0\<rparr>, env_log (AllocBinary i) w')
         else (None, w'))"

definition inc_refc :: "drv_binary \<Rightarrow> env \<Rightarrow> env" where
  "inc_refc b = env_log (IncRefc (bin_id b))"

definition free_binary :: "drv_binary \<Rightarrow> env \<Rightarrow> env" where
  "free_binary b = env_log (FreeBinary (bin_id b))"

text \<open>The references to a binary that the log leaves outstanding.\<close>

fun refc :: "nat \<Rightarrow> action list \<Rightarrow> int" where
  "refc i [] = 0"
| "refc i (AllocBinary j # as) = (if i = j then 1 else 0) + refc i as"
| "refc i (IncRefc j # as) = (if i = j then 1 else 0) + refc i as"
| "refc i (FreeBinary j # as) = (if i = j then -1 else 0) + refc i as"
| "refc i (_ # as) = refc i as"

lemma refc_append [simp]: "refc i (xs @ ys) = refc i xs + refc i ys"
  by (induction i xs rule: refc.induct) auto

lemma alloc_binary_Some:
  "allocs_ok D \<Longrightarrow> alloc_binary D n w =
    (Some \<lparr>bin_id = n_allocs w, orig_bytes = replicate n 0\<rparr>,
     env_log (AllocBinary (n_allocs w)) (w\<lparr>n_allocs := Suc (n_allocs w)\<rparr>))"
  by (simp add: alloc_binary_def allocs_ok_def Let_def)

lemma inc_refc_simps [simp]:
  "log (inc_refc b w) = log w @ [IncRefc (bin_id b)]"
  "n_allocs (inc_refc b w) = n_allocs w"
  "cur_caller (inc_refc b w) = cur_caller w"
  "main (inc_refc b w) = main w"
  by (simp_all add: inc_refc_def)

lemma free_binary_simps [simp]:
  "log (free_binary b w) = log w @ [FreeBinary (bin_id b)]"
  "n_allocs (free_binary b w) = n_allocs w"
  "cur_caller (free_binary b w) = cur_caller w"
  "main (free_binary b w) = main w"
  by (simp_all add: free_binary_def)

text \<open>A starting state for the witnesses.\<close>

definition env0 :: env where
  "env0 = \<lparr>log = [], n_allocs = 0, n_monitors = 0, cur_caller = 1,
           connected_pid = (\<lambda>_. 1), main = None\<rparr>"

end
