(* ===== verification/Coder.thy ===== *)
theory Coder
  imports Driver_Env
begin

text \<open>
  \<open>coder.cc\<close>: thin wrappers over Erlang's \<open>ei\<close> library that turn its return codes into
  \<open>EiError\<close> exceptions. The library is not in the repository: the record \<open>ei_lib\<close> holds
  its functions as parameters. An encoder operation appends to a buffer; a decoder operation
  reads at an index and moves it. Doubles and the opaque structs of \<open>ei.h\<close> (pids, ports,
  references, funs) are carried as numbers.
\<close>

section \<open>The ei library\<close>

text \<open>\<open>ei_x_buff\<close>: allocated memory and the number of bytes written to it.\<close>

record x_buff =
  buff :: "byte list"
  xindex :: nat

text \<open>One constructor per \<open>ei_x_encode_*\<close> or \<open>ei_x_append*\<close> function, with its arguments.\<close>

datatype ei_call =
    X_TUPLE_HEADER int
  | X_LIST_HEADER int
  | X_EMPTY_LIST
  | X_ATOM string
  | X_ATOM_LEN string int
  | X_STRING string
  | X_STRING_LEN string int
  | X_LONG int
  | X_ULONG nat
  | X_LONGLONG int
  | X_ULONGLONG nat
  | X_DOUBLE nat
  | X_BOOLEAN int
  | X_CHAR byte
  | X_BINARY "byte list" int
  | X_PID nat
  | X_FUN nat
  | X_PORT nat
  | X_REF nat
  | X_APPEND x_buff
  | X_APPEND_BUF "byte list" int

type_synonym 'a ei_decode = "byte list \<Rightarrow> nat \<Rightarrow> int \<times> nat \<times> 'a"

text \<open>
  Each decode function gets the buffer and the index and gives the return code, the new index
  and the decoded value; \<open>ei_get_type\<close> gives a type code and a size.
\<close>

record ei_lib =
  ei_x_new_with_version :: "int \<times> x_buff"
  ei_x_call :: "ei_call \<Rightarrow> x_buff \<Rightarrow> int \<times> x_buff"
  ei_decode_version :: "int ei_decode"
  ei_decode_tuple_header :: "int ei_decode"
  ei_decode_list_header :: "int ei_decode"
  ei_decode_atom :: "string ei_decode"
  ei_decode_string :: "string ei_decode"
  ei_decode_long :: "int ei_decode"
  ei_decode_ulong :: "nat ei_decode"
  ei_decode_longlong :: "int ei_decode"
  ei_decode_ulonglong :: "nat ei_decode"
  ei_decode_double :: "nat ei_decode"
  ei_decode_boolean :: "int ei_decode"
  ei_decode_char :: "byte ei_decode"
  ei_decode_binary :: "(byte list) ei_decode"
  ei_decode_pid :: "nat ei_decode"
  ei_decode_fun :: "nat ei_decode"
  ei_decode_port :: "nat ei_decode"
  ei_decode_ref :: "nat ei_decode"
  ei_skip_term :: "unit ei_decode"
  ei_get_type :: "(int \<times> nat) ei_decode"

text \<open>\<open>ERL_BINARY_EXT\<close> of \<open>ei.h\<close>, and \<open>MAXATOMLEN\<close>.\<close>

definition ERL_BINARY_EXT :: int where "ERL_BINARY_EXT = 109"
definition MAXATOMLEN :: nat where "MAXATOMLEN = 256"

section \<open>EiEncoder\<close>

type_synonym encoder = x_buff

definition EiEncoder :: "ei_lib \<Rightarrow> encoder cpp" where
  "EiEncoder ei = (case ei_x_new_with_version ei of (rc, x) \<Rightarrow> if rc \<noteq> 0 then Throw EiError else Ret x)"

text \<open>What every operation does: call the library, and throw when it reports an error.\<close>

definition ei_checked :: "ei_lib \<Rightarrow> ei_call \<Rightarrow> encoder \<Rightarrow> encoder cpp" where
  "ei_checked ei c enc = (case ei_x_call ei c enc of (rc, enc') \<Rightarrow> if rc \<noteq> 0 then Throw EiError else Ret enc')"

definition enc_tuple_header :: "ei_lib \<Rightarrow> int \<Rightarrow> encoder \<Rightarrow> encoder cpp" where
  "enc_tuple_header ei arity = ei_checked ei (X_TUPLE_HEADER arity)"

definition enc_list_header :: "ei_lib \<Rightarrow> int \<Rightarrow> encoder \<Rightarrow> encoder cpp" where
  "enc_list_header ei arity = ei_checked ei (X_LIST_HEADER arity)"

definition enc_empty_list :: "ei_lib \<Rightarrow> encoder \<Rightarrow> encoder cpp" where
  "enc_empty_list ei = ei_checked ei X_EMPTY_LIST"

definition enc_atom :: "ei_lib \<Rightarrow> string \<Rightarrow> encoder \<Rightarrow> encoder cpp" where
  "enc_atom ei a = ei_checked ei (X_ATOM a)"

definition enc_atom_len :: "ei_lib \<Rightarrow> string \<Rightarrow> int \<Rightarrow> encoder \<Rightarrow> encoder cpp" where
  "enc_atom_len ei a n = ei_checked ei (X_ATOM_LEN a n)"

definition enc_string :: "ei_lib \<Rightarrow> string \<Rightarrow> encoder \<Rightarrow> encoder cpp" where
  "enc_string ei s = ei_checked ei (X_STRING s)"

definition enc_string_len :: "ei_lib \<Rightarrow> string \<Rightarrow> int \<Rightarrow> encoder \<Rightarrow> encoder cpp" where
  "enc_string_len ei s n = ei_checked ei (X_STRING_LEN s n)"

text \<open>
  The overloads for \<open>std::string\<close> pass the C string of their argument, which ends at its first
  null character unless a length is given.
\<close>

definition c_string :: "string \<Rightarrow> string" where
  "c_string s = takeWhile (\<lambda>c. c \<noteq> CHR 0x00) s"

definition enc_atom_std :: "ei_lib \<Rightarrow> string \<Rightarrow> encoder \<Rightarrow> encoder cpp" where
  "enc_atom_std ei a = ei_checked ei (X_ATOM (c_string a))"

definition enc_atom_std_len :: "ei_lib \<Rightarrow> string \<Rightarrow> int \<Rightarrow> encoder \<Rightarrow> encoder cpp" where
  "enc_atom_std_len ei a n = ei_checked ei (X_ATOM_LEN a n)"

definition enc_string_std :: "ei_lib \<Rightarrow> string \<Rightarrow> encoder \<Rightarrow> encoder cpp" where
  "enc_string_std ei s = ei_checked ei (X_STRING (c_string s))"

definition enc_string_std_len :: "ei_lib \<Rightarrow> string \<Rightarrow> int \<Rightarrow> encoder \<Rightarrow> encoder cpp" where
  "enc_string_std_len ei s n = ei_checked ei (X_STRING_LEN s n)"

definition enc_longval :: "ei_lib \<Rightarrow> int \<Rightarrow> encoder \<Rightarrow> encoder cpp" where
  "enc_longval ei v = ei_checked ei (X_LONG v)"

definition enc_ulongval :: "ei_lib \<Rightarrow> nat \<Rightarrow> encoder \<Rightarrow> encoder cpp" where
  "enc_ulongval ei v = ei_checked ei (X_ULONG v)"

definition enc_longlongval :: "ei_lib \<Rightarrow> int \<Rightarrow> encoder \<Rightarrow> encoder cpp" where
  "enc_longlongval ei v = ei_checked ei (X_LONGLONG v)"

definition enc_ulonglongval :: "ei_lib \<Rightarrow> nat \<Rightarrow> encoder \<Rightarrow> encoder cpp" where
  "enc_ulonglongval ei v = ei_checked ei (X_ULONGLONG v)"

definition enc_doubleval :: "ei_lib \<Rightarrow> nat \<Rightarrow> encoder \<Rightarrow> encoder cpp" where
  "enc_doubleval ei v = ei_checked ei (X_DOUBLE v)"

definition enc_boolval :: "ei_lib \<Rightarrow> bool \<Rightarrow> encoder \<Rightarrow> encoder cpp" where
  "enc_boolval ei v = ei_checked ei (X_BOOLEAN (if v then 1 else 0))"

definition enc_charval :: "ei_lib \<Rightarrow> byte \<Rightarrow> encoder \<Rightarrow> encoder cpp" where
  "enc_charval ei v = ei_checked ei (X_CHAR v)"

definition enc_binary :: "ei_lib \<Rightarrow> byte list \<Rightarrow> int \<Rightarrow> encoder \<Rightarrow> encoder cpp" where
  "enc_binary ei b n = ei_checked ei (X_BINARY b n)"

definition enc_pid :: "ei_lib \<Rightarrow> nat \<Rightarrow> encoder \<Rightarrow> encoder cpp" where
  "enc_pid ei p = ei_checked ei (X_PID p)"

definition enc_fun :: "ei_lib \<Rightarrow> nat \<Rightarrow> encoder \<Rightarrow> encoder cpp" where
  "enc_fun ei f = ei_checked ei (X_FUN f)"

definition enc_port :: "ei_lib \<Rightarrow> nat \<Rightarrow> encoder \<Rightarrow> encoder cpp" where
  "enc_port ei p = ei_checked ei (X_PORT p)"

definition enc_ref :: "ei_lib \<Rightarrow> nat \<Rightarrow> encoder \<Rightarrow> encoder cpp" where
  "enc_ref ei r = ei_checked ei (X_REF r)"

definition enc_append :: "ei_lib \<Rightarrow> encoder \<Rightarrow> encoder \<Rightarrow> encoder cpp" where
  "enc_append ei e = ei_checked ei (X_APPEND e)"

definition enc_append_buf :: "ei_lib \<Rightarrow> byte list \<Rightarrow> int \<Rightarrow> encoder \<Rightarrow> encoder cpp" where
  "enc_append_buf ei b n = ei_checked ei (X_APPEND_BUF b n)"

text \<open>\<open>buffer\<close>: the memory, and the length it reports.\<close>

definition enc_buffer :: "encoder \<Rightarrow> byte list \<times> nat" where
  "enc_buffer enc = (buff enc, xindex enc + 1)"

text \<open>
  Where a control call leaves its result: in the buffer the runtime passed (\<open>*rbuf\<close>, of
  \<open>rlen\<close> bytes), or in a new binary that the runtime will free.
\<close>

datatype reply = InPlace "byte list" | NewBinary drv_binary

fun reply_bytes :: "reply \<Rightarrow> byte list" where
  "reply_bytes (InPlace bs) = bs"
| "reply_bytes (NewBinary b) = orig_bytes b"

text \<open>\<open>memcpy\<close> of \<open>n\<close> bytes from the encoder's memory.\<close>

definition enc_memcpy :: "encoder \<Rightarrow> nat \<Rightarrow> byte list cpp" where
  "enc_memcpy enc n = (if n \<le> length (buff enc) then Ret (take n (buff enc)) else Undef)"

definition copy_to_binary :: "'q drv_api \<Rightarrow> encoder \<Rightarrow> nat \<Rightarrow> env \<Rightarrow> reply cpp \<times> env" where
  "copy_to_binary D enc rlen w =
     (let size = xindex enc + 1 in
      if size > rlen then
        (case alloc_binary D size w of
           (None, w') \<Rightarrow> (Throw BadAlloc, w')
         | (Some b, w') \<Rightarrow>
             (cpp_bind (enc_memcpy enc size) (\<lambda>bs. Ret (NewBinary (b\<lparr>orig_bytes := bs\<rparr>))), w'))
      else (cpp_bind (enc_memcpy enc size) (\<lambda>bs. Ret (InPlace bs)), w))"

text \<open>
  A chain \<open>encoder.f(x).g(y)\<dots>\<close>, and the shape all control operations share: construct an
  encoder, run a chain, copy the result out.
\<close>

fun enc_chain :: "(encoder \<Rightarrow> encoder cpp) list \<Rightarrow> encoder \<Rightarrow> encoder cpp" where
  "enc_chain [] enc = Ret enc"
| "enc_chain (m # ms) enc = cpp_bind (m enc) (enc_chain ms)"

definition encode_reply ::
  "'q drv_api \<Rightarrow> ei_lib \<Rightarrow> nat \<Rightarrow> (encoder \<Rightarrow> encoder cpp) list \<Rightarrow> env \<Rightarrow> reply cpp \<times> env" where
  "encode_reply D ei rlen ms w =
     (case cpp_bind (EiEncoder ei) (enc_chain ms) of
        Ret enc \<Rightarrow> copy_to_binary D enc rlen w
      | Throw e \<Rightarrow> (Throw e, w)
      | Undef \<Rightarrow> (Undef, w))"

section \<open>EiDecoder\<close>

text \<open>The length is stored; no operation reads it.\<close>

record decoder =
  dbuf :: "byte list"
  dlen :: nat
  dindex :: nat

definition dec_checked :: "'a ei_decode \<Rightarrow> decoder \<Rightarrow> ('a \<times> decoder) cpp" where
  "dec_checked f d =
     (case f (dbuf d) (dindex d) of
        (rc, i, v) \<Rightarrow> if rc \<noteq> 0 then Throw EiError else Ret (v, d\<lparr>dindex := i\<rparr>))"

definition EiDecoder :: "ei_lib \<Rightarrow> byte list \<Rightarrow> nat \<Rightarrow> decoder cpp" where
  "EiDecoder ei bf ln =
     cpp_bind (dec_checked (ei_decode_version ei) \<lparr>dbuf = bf, dlen = ln, dindex = 0\<rparr>)
       (\<lambda>(vsn, d). Ret d)"

definition dec_tuple_header :: "ei_lib \<Rightarrow> decoder \<Rightarrow> (int \<times> decoder) cpp" where
  "dec_tuple_header ei = dec_checked (ei_decode_tuple_header ei)"

definition dec_list_header :: "ei_lib \<Rightarrow> decoder \<Rightarrow> (int \<times> decoder) cpp" where
  "dec_list_header ei = dec_checked (ei_decode_list_header ei)"

definition dec_atom :: "ei_lib \<Rightarrow> decoder \<Rightarrow> (string \<times> decoder) cpp" where
  "dec_atom ei = dec_checked (ei_decode_atom ei)"

text \<open>
  The \<open>std::string\<close> variants decode into a local array (longer results overflow it) and assign
  the C string in it, which ends at the first null character.
\<close>

definition dec_into_array :: "nat \<Rightarrow> string ei_decode \<Rightarrow> decoder \<Rightarrow> (string \<times> decoder) cpp" where
  "dec_into_array n f d =
     cpp_bind (dec_checked f d)
       (\<lambda>(s, d'). if length s + 1 \<le> n then Ret (c_string s, d') else Undef)"

definition dec_atom_std :: "ei_lib \<Rightarrow> decoder \<Rightarrow> (string \<times> decoder) cpp" where
  "dec_atom_std ei = dec_into_array MAXATOMLEN (ei_decode_atom ei)"

definition dec_string :: "ei_lib \<Rightarrow> decoder \<Rightarrow> (string \<times> decoder) cpp" where
  "dec_string ei = dec_checked (ei_decode_string ei)"

definition dec_string_std :: "ei_lib \<Rightarrow> decoder \<Rightarrow> (string \<times> decoder) cpp" where
  "dec_string_std ei = dec_into_array 8192 (ei_decode_string ei)"

definition dec_longval :: "ei_lib \<Rightarrow> decoder \<Rightarrow> (int \<times> decoder) cpp" where
  "dec_longval ei = dec_checked (ei_decode_long ei)"

definition dec_ulongval :: "ei_lib \<Rightarrow> decoder \<Rightarrow> (nat \<times> decoder) cpp" where
  "dec_ulongval ei = dec_checked (ei_decode_ulong ei)"

definition dec_longlongval :: "ei_lib \<Rightarrow> decoder \<Rightarrow> (int \<times> decoder) cpp" where
  "dec_longlongval ei = dec_checked (ei_decode_longlong ei)"

definition dec_ulonglongval :: "ei_lib \<Rightarrow> decoder \<Rightarrow> (nat \<times> decoder) cpp" where
  "dec_ulonglongval ei = dec_checked (ei_decode_ulonglong ei)"

definition dec_doubleval :: "ei_lib \<Rightarrow> decoder \<Rightarrow> (nat \<times> decoder) cpp" where
  "dec_doubleval ei = dec_checked (ei_decode_double ei)"

definition dec_boolval :: "ei_lib \<Rightarrow> decoder \<Rightarrow> (bool \<times> decoder) cpp" where
  "dec_boolval ei d = cpp_bind (dec_checked (ei_decode_boolean ei) d) (\<lambda>(v, d'). Ret (v = 1, d'))"

definition dec_charval :: "ei_lib \<Rightarrow> decoder \<Rightarrow> (byte \<times> decoder) cpp" where
  "dec_charval ei = dec_checked (ei_decode_char ei)"

definition dec_binary :: "ei_lib \<Rightarrow> decoder \<Rightarrow> (byte list \<times> decoder) cpp" where
  "dec_binary ei = dec_checked (ei_decode_binary ei)"

definition dec_pid :: "ei_lib \<Rightarrow> decoder \<Rightarrow> (nat \<times> decoder) cpp" where
  "dec_pid ei = dec_checked (ei_decode_pid ei)"

text \<open>A decoded fun is freed by the destructor of \<open>EiFun\<close> exactly when it was allocated.\<close>

record EiFun =
  erl_fun :: nat
  allocated :: bool

definition EiFun_new :: "nat \<Rightarrow> EiFun" where
  "EiFun_new f = \<lparr>erl_fun = f, allocated = False\<rparr>"

definition EiFun_frees :: "EiFun \<Rightarrow> bool" where
  "EiFun_frees f = allocated f"

definition dec_fun :: "ei_lib \<Rightarrow> EiFun \<Rightarrow> decoder \<Rightarrow> (EiFun \<times> decoder) cpp" where
  "dec_fun ei f d =
     cpp_bind (dec_checked (ei_decode_fun ei) d)
       (\<lambda>(v, d'). Ret (f\<lparr>erl_fun := v, allocated := True\<rparr>, d'))"

definition dec_port :: "ei_lib \<Rightarrow> decoder \<Rightarrow> (nat \<times> decoder) cpp" where
  "dec_port ei = dec_checked (ei_decode_port ei)"

definition dec_ref :: "ei_lib \<Rightarrow> decoder \<Rightarrow> (nat \<times> decoder) cpp" where
  "dec_ref ei = dec_checked (ei_decode_ref ei)"

definition dec_skip :: "ei_lib \<Rightarrow> decoder \<Rightarrow> (unit \<times> decoder) cpp" where
  "dec_skip ei = dec_checked (ei_skip_term ei)"

definition dec_type :: "ei_lib \<Rightarrow> decoder \<Rightarrow> ((int \<times> nat) \<times> decoder) cpp" where
  "dec_type ei = dec_checked (ei_get_type ei)"

section \<open>Facts\<close>

lemmas enc_defs = enc_tuple_header_def enc_list_header_def enc_empty_list_def enc_atom_def
  enc_atom_len_def enc_string_def enc_string_len_def enc_longval_def enc_ulongval_def
  enc_longlongval_def enc_ulonglongval_def enc_doubleval_def enc_boolval_def enc_charval_def
  enc_binary_def enc_pid_def enc_fun_def enc_port_def enc_ref_def enc_append_def enc_append_buf_def

text \<open>The library calls of a chain, run until one reports an error.\<close>

fun ei_run :: "ei_lib \<Rightarrow> ei_call list \<Rightarrow> x_buff \<Rightarrow> x_buff option" where
  "ei_run ei [] x = Some x"
| "ei_run ei (c # cs) x = (case ei_x_call ei c x of (rc, x') \<Rightarrow> if rc \<noteq> 0 then None else ei_run ei cs x')"

lemma enc_chain_run:
  "enc_chain (map (ei_checked ei) cs) x =
    (case ei_run ei cs x of None \<Rightarrow> Throw EiError | Some x' \<Rightarrow> Ret x')"
  by (induction cs arbitrary: x) (auto simp: ei_checked_def split: prod.splits)

lemma ei_checked_not_Undef [simp]: "ei_checked ei c x \<noteq> Undef"
  by (simp add: ei_checked_def split: prod.splits)

text \<open>
  A reply is encoded all or nothing. When the library refuses the new buffer or any call of
  the chain, the outcome is \<open>EiError\<close>, nothing after the refused call runs and nothing is copied
  out; otherwise the outcome is that of copying the finished buffer.
\<close>

lemma encode_reply_all_or_nothing:
  "encode_reply D ei rlen (map (ei_checked ei) cs) w =
     (case ei_x_new_with_version ei of (rc, x) \<Rightarrow>
        if rc \<noteq> 0 then (Throw EiError, w)
        else case ei_run ei cs x of
               None \<Rightarrow> (Throw EiError, w)
             | Some x' \<Rightarrow> copy_to_binary D x' rlen w)"
  by (simp add: encode_reply_def EiEncoder_def enc_chain_run split: prod.splits option.splits)

text \<open>
  C32: the reply is one byte longer than what was encoded. \<open>copy_to_binary\<close> copies
  \<open>index + 1\<close> bytes, that is the encoded bytes and the one after them: in place when that many
  fit in the caller's buffer, else into a new binary of that size. When the encoded bytes fill
  the memory exactly, the copy reads past its end.
\<close>

theorem copy_to_binary_size:
  assumes "allocs_ok D" and "xindex x \<le> length (buff x)"
  shows "(if xindex x = length (buff x) then fst (copy_to_binary D x rlen w) = Undef
     else \<exists>r. fst (copy_to_binary D x rlen w) = Ret r \<and>
       reply_bytes r = take (xindex x) (buff x) @ [buff x ! xindex x] \<and>
       ((\<exists>bs. r = InPlace bs) \<longleftrightarrow> xindex x + 1 \<le> rlen))"
proof (cases "xindex x = length (buff x)")
  case True
  then show ?thesis
    using assms by (simp add: copy_to_binary_def alloc_binary_Some enc_memcpy_def Let_def)
next
  case False
  with assms have lt: "xindex x < length (buff x)" by simp
  then have "take (Suc (xindex x)) (buff x) = take (xindex x) (buff x) @ [buff x ! xindex x]"
    by (rule take_Suc_conv_app_nth)
  with lt assms show ?thesis
    by (auto simp: copy_to_binary_def alloc_binary_Some enc_memcpy_def Let_def)
qed

theorem copy_to_binary_size_witness:
  "\<exists>r. fst (copy_to_binary chunk_api \<lparr>buff = [131, 106, 0], xindex = 2\<rparr> 64 env0) = Ret r \<and>
    reply_bytes r = [131, 106, 0]"
  using copy_to_binary_size [OF chunk_api_allocs, of "\<lparr>buff = [131, 106, 0], xindex = 2\<rparr>" 64 env0]
  by simp blast

section \<open>An instance for the witnesses\<close>

text \<open>
  A small library that follows the external term format for what the driver sends and parses:
  tuple and list headers, atoms, strings, small integers and binaries.
\<close>

definition put_bytes :: "byte list \<Rightarrow> x_buff \<Rightarrow> int \<times> x_buff" where
  "put_bytes bs x =
     (0, \<lparr>buff = take (xindex x) (buff x) @ bs @ [0], xindex = xindex x + length bs\<rparr>)"

definition string_bytes :: "string \<Rightarrow> byte list" where
  "string_bytes s = map (\<lambda>c. of_nat (of_char c)) s"

fun sample_x_call :: "ei_call \<Rightarrow> x_buff \<Rightarrow> int \<times> x_buff" where
  "sample_x_call (X_TUPLE_HEADER n) x = put_bytes [104, of_int n] x"
| "sample_x_call (X_LIST_HEADER n) x = put_bytes (108 # bytes32 (nat n)) x"
| "sample_x_call X_EMPTY_LIST x = put_bytes [106] x"
| "sample_x_call (X_ATOM a) x = put_bytes (100 # bytes16 (length a) @ string_bytes a) x"
| "sample_x_call (X_STRING a) x = put_bytes (107 # bytes16 (length a) @ string_bytes a) x"
| "sample_x_call (X_ULONG n) x = put_bytes [97, of_nat n] x"
| "sample_x_call (X_LONG n) x = put_bytes [97, of_int n] x"
| "sample_x_call (X_BINARY b n) x = put_bytes (109 # bytes32 (nat n) @ take (nat n) b) x"
| "sample_x_call _ x = (-1, x)"

definition tagged :: "byte \<Rightarrow> (byte list \<Rightarrow> nat \<times> 'a) \<Rightarrow> 'a \<Rightarrow> 'a ei_decode" where
  "tagged t f d bs i =
     (case drop i bs of [] \<Rightarrow> (-1, i, d)
      | b # r \<Rightarrow> if b = t then (case f r of (n, v) \<Rightarrow> (0, i + 1 + n, v)) else (-1, i, d))"

definition get32 :: "byte list \<Rightarrow> nat" where
  "get32 r = (case r of a # b # c # d # _ \<Rightarrow> be32 a b c d | _ \<Rightarrow> 0)"

definition sample_ei :: ei_lib where
  "sample_ei =
     \<lparr>ei_x_new_with_version = (0, \<lparr>buff = [131, 0], xindex = 1\<rparr>),
      ei_x_call = sample_x_call,
      ei_decode_version = tagged 131 (\<lambda>r. (0, 131)) 0,
      ei_decode_tuple_header = tagged 104 (\<lambda>r. (1, int (unat (hd r)))) 0,
      ei_decode_list_header = tagged 108 (\<lambda>r. (4, int (get32 r))) 0,
      ei_decode_atom = tagged 100 (\<lambda>r. (2, [])) [],
      ei_decode_string = tagged 107 (\<lambda>r. (2 + unat (hd (tl r)),
         map (\<lambda>b. char_of (unat b)) (take (unat (hd (tl r))) (drop 2 r)))) [],
      ei_decode_long = tagged 97 (\<lambda>r. (1, int (unat (hd r)))) 0,
      ei_decode_ulong = tagged 97 (\<lambda>r. (1, unat (hd r))) 0,
      ei_decode_longlong = tagged 97 (\<lambda>r. (1, int (unat (hd r)))) 0,
      ei_decode_ulonglong = tagged 97 (\<lambda>r. (1, unat (hd r))) 0,
      ei_decode_double = tagged 70 (\<lambda>r. (8, 0)) 0,
      ei_decode_boolean = tagged 100 (\<lambda>r. (2, 0)) 0,
      ei_decode_char = tagged 97 (\<lambda>r. (1, hd r)) 0,
      ei_decode_binary = tagged 109 (\<lambda>r. (4 + get32 r, take (get32 r) (drop 4 r))) [],
      ei_decode_pid = tagged 103 (\<lambda>r. (0, 0)) 0,
      ei_decode_fun = tagged 117 (\<lambda>r. (0, 0)) 0,
      ei_decode_port = tagged 102 (\<lambda>r. (0, 0)) 0,
      ei_decode_ref = tagged 114 (\<lambda>r. (0, 0)) 0,
      ei_skip_term = tagged 106 (\<lambda>r. (0, ())) (),
      ei_get_type = (\<lambda>bs i. case drop i bs of [] \<Rightarrow> (-1, i, 0, 0)
         | b # r \<Rightarrow> (0, i, int (unat b), if b = 109 then get32 r else 0))\<rparr>"

text \<open>\<open>term_to_binary\<close> of a binary, as this instance reads it.\<close>

definition binary_term :: "byte list \<Rightarrow> byte list" where
  "binary_term bs = 131 # 109 # bytes32 (length bs) @ bs"

end
