(* ===== verification/Drv_Types.thy ===== *)
theory Drv_Types
  imports Coder
begin

text \<open>
  \<open>drv_types.cc\<close>: the smart pointer \<open>Binary\<close> over reference-counted driver binaries. An
  object is its pointer (\<open>None\<close> for null); the operations also act on the shared state, where
  the calls that change reference counts are logged. The main result is that any use of the
  class keeps each binary's count equal to the number of objects that hold it.
\<close>

section \<open>The class\<close>

type_synonym binary = "drv_binary option"

definition binary_new :: binary where
  "binary_new = None"

definition binary_copy :: "binary \<Rightarrow> env \<Rightarrow> binary \<times> env" where
  "binary_copy b w = (case b of Some x \<Rightarrow> (Some x, inc_refc x w) | None \<Rightarrow> (None, w))"

definition binary_adopt :: "drv_binary option \<Rightarrow> binary" where
  "binary_adopt b = b"

definition binary_reset :: "drv_binary option \<Rightarrow> binary \<Rightarrow> env \<Rightarrow> binary \<times> env" where
  "binary_reset b this w = (b, case this of None \<Rightarrow> w | Some x \<Rightarrow> free_binary x w)"

definition binary_destroy :: "binary \<Rightarrow> env \<Rightarrow> env" where
  "binary_destroy this w = snd (binary_reset None this w)"

text \<open>\<open>same\<close> is the test \<open>&b == this\<close>.\<close>

definition binary_assign :: "bool \<Rightarrow> binary \<Rightarrow> binary \<Rightarrow> env \<Rightarrow> binary \<times> env" where
  "binary_assign same b this w =
     (if same then (this, w)
      else (case binary_reset None this w of
              (this', w') \<Rightarrow> (case b of Some x \<Rightarrow> (Some x, inc_refc x w') | None \<Rightarrow> (this', w'))))"

definition binary_alloc :: "'q drv_api \<Rightarrow> nat \<Rightarrow> binary \<Rightarrow> env \<Rightarrow> binary \<times> env" where
  "binary_alloc D sz this w = alloc_binary D sz (snd (binary_reset None this w))"

definition binary_swap :: "binary \<Rightarrow> binary \<Rightarrow> binary \<times> binary" where
  "binary_swap b this = (this, b)"

text \<open>
  \<open>decode\<close>: allocate, then let the library write the decoded bytes into the new binary. A
  failed allocation is a null pointer followed; more bytes than were allocated overflow it.
\<close>

definition binary_decode ::
  "'q drv_api \<Rightarrow> ei_lib \<Rightarrow> decoder \<Rightarrow> nat \<Rightarrow> binary \<Rightarrow> env \<Rightarrow>
   (nat \<times> decoder) cpp \<times> binary \<times> env" where
  "binary_decode D ei d sz this w =
     (case binary_alloc D sz this w of
        (None, w') \<Rightarrow> (Undef, None, w')
      | (Some x, w') \<Rightarrow>
          (case dec_binary ei d of
             Ret (bs, d') \<Rightarrow>
               if length bs \<le> sz
               then (Ret (length bs, d'),
                     Some (x\<lparr>orig_bytes := bs @ drop (length bs) (orig_bytes x)\<rparr>), w')
               else (Undef, Some x, w')
           | Throw e \<Rightarrow> (Throw e, Some x, w')
           | Undef \<Rightarrow> (Undef, Some x, w')))"

definition binary_data :: "binary \<Rightarrow> byte list option" where
  "binary_data b = (case b of Some x \<Rightarrow> Some (orig_bytes x) | None \<Rightarrow> None)"

definition binary_size :: "binary \<Rightarrow> nat" where
  "binary_size b = (case b of Some x \<Rightarrow> orig_size x | None \<Rightarrow> 0)"

definition binary_eq :: "binary \<Rightarrow> binary \<Rightarrow> bool" where
  "binary_eq this b =
     (case b of
        None \<Rightarrow> this = None
      | Some y \<Rightarrow>
          (case this of
             None \<Rightarrow> False
           | Some x \<Rightarrow> if orig_size y \<noteq> orig_size x then False
                       else take (orig_size x) (orig_bytes y) = take (orig_size x) (orig_bytes x)))"

definition binary_term_data :: "binary \<Rightarrow> byte list option" where
  "binary_term_data b = (case b of Some x \<Rightarrow> Some (orig_bytes x) | None \<Rightarrow> None)"

definition binary_bool :: "binary \<Rightarrow> bool" where
  "binary_bool b = (b \<noteq> None)"

lemma binary_bool_simps [simp]: "\<not> binary_bool None" "binary_bool (Some x)"
  by (simp_all add: binary_bool_def)

text \<open>
  Two \<open>Binary\<close> objects compare equal exactly when both are null or both hold the same
  bytes, wherever these are stored.
\<close>

theorem binary_eq_bytes: "binary_eq a b \<longleftrightarrow> binary_data a = binary_data b"
  by (auto simp: binary_eq_def binary_data_def split: option.splits)

section \<open>Reference counts\<close>

text \<open>A program over a list of \<open>Binary\<close> objects, addressed by position.\<close>

datatype binary_op =
    B_New
  | B_Copy nat
  | B_Assign nat nat
  | B_Alloc nat nat
  | B_Reset nat
  | B_Swap nat nat
  | B_Destroy nat

text \<open>\<open>B_Destroy\<close> removes the last object, as leaving its scope does, if it has that position.\<close>

fun binary_step :: "'q drv_api \<Rightarrow> binary_op \<Rightarrow> binary list \<times> env \<Rightarrow> binary list \<times> env" where
  "binary_step D B_New (os, w) = (os @ [binary_new], w)"
| "binary_step D (B_Copy j) (os, w) =
     (if j < length os then (case binary_copy (os ! j) w of (b, w') \<Rightarrow> (os @ [b], w')) else (os, w))"
| "binary_step D (B_Assign i j) (os, w) =
     (if i < length os \<and> j < length os
      then (case binary_assign (i = j) (os ! j) (os ! i) w of (b, w') \<Rightarrow> (os[i := b], w'))
      else (os, w))"
| "binary_step D (B_Alloc i n) (os, w) =
     (if i < length os
      then (case binary_alloc D n (os ! i) w of (b, w') \<Rightarrow> (os[i := b], w')) else (os, w))"
| "binary_step D (B_Reset i) (os, w) =
     (if i < length os
      then (case binary_reset None (os ! i) w of (b, w') \<Rightarrow> (os[i := b], w')) else (os, w))"
| "binary_step D (B_Swap i j) (os, w) =
     (if i < length os \<and> j < length os
      then (case binary_swap (os ! j) (os ! i) of (a, b) \<Rightarrow> (os[j := a, i := b], w)) else (os, w))"
| "binary_step D (B_Destroy i) (os, w) =
     (if Suc i = length os then (take i os, binary_destroy (os ! i) w) else (os, w))"

definition holds :: "nat \<Rightarrow> binary \<Rightarrow> int" where
  "holds k b = (case b of Some x \<Rightarrow> if bin_id x = k then 1 else 0 | None \<Rightarrow> 0)"

definition holders :: "nat \<Rightarrow> binary list \<Rightarrow> int" where
  "holders k os = sum_list (map (holds k) os)"

definition refs_ok :: "binary list \<times> env \<Rightarrow> bool" where
  "refs_ok s \<longleftrightarrow> (\<forall>k. refc k (log (snd s)) = holders k (fst s))"

lemma holders_append [simp]: "holders k (xs @ ys) = holders k xs + holders k ys"
  by (simp add: holders_def)

lemma holders_Nil [simp]: "holders k [] = 0"
  by (simp add: holders_def)

lemma holders_Cons [simp]: "holders k (b # os) = holds k b + holders k os"
  by (simp add: holders_def)

lemma holds_None [simp]: "holds k None = 0"
  by (simp add: holds_def)

lemma holders_update:
  "i < length os \<Longrightarrow> holders k (os[i := b]) = holders k os - holds k (os ! i) + holds k b"
proof (induction os arbitrary: i)
  case (Cons a os)
  then show ?case by (cases i) auto
qed simp

lemma refc_binary_reset:
  "refc k (log (snd (binary_reset b this w))) = refc k (log w) - holds k this"
  by (auto simp: binary_reset_def holds_def split: option.splits)

lemma fst_binary_reset [simp]: "fst (binary_reset b this w) = b"
  by (simp add: binary_reset_def)

lemma refc_binary_copy:
  "refc k (log (snd (binary_copy b w))) = refc k (log w) + holds k b"
  by (auto simp: binary_copy_def holds_def split: option.splits)

lemma fst_binary_copy [simp]: "fst (binary_copy b w) = b"
  by (simp add: binary_copy_def split: option.splits)

lemma refc_binary_destroy: "refc k (log (binary_destroy b w)) = refc k (log w) - holds k b"
  by (simp add: binary_destroy_def refc_binary_reset)

lemma refc_binary_alloc:
  "refc k (log (snd (binary_alloc D n this w))) =
     refc k (log w) - holds k this + holds k (fst (binary_alloc D n this w))"
  using refc_binary_reset [of k None this w]
  by (simp add: binary_alloc_def alloc_binary_def Let_def holds_def)

lemma refc_binary_assign:
  "refc k (log (snd (binary_assign same b this w))) =
     refc k (log w) - holds k this + holds k (fst (binary_assign same b this w))"
  using refc_binary_reset [of k None this w]
  by (auto simp: binary_assign_def binary_reset_def holds_def split: option.splits)

text \<open>Each operation keeps the counts right.\<close>

lemma binary_step_refs_ok: "refs_ok s \<Longrightarrow> refs_ok (binary_step D opn s)"
proof (cases s)
  case (Pair os w)
  assume "refs_ok s"
  then have refs: "refc k (log w) = holders k os" for k by (simp add: Pair refs_ok_def)
  have split_last: "holders k os = holders k (take i os) + holds k (os ! i)" if "Suc i = length os" for k i
    using that holders_append [of k "take i os" "drop i os"] Cons_nth_drop_Suc [of i os]
    by (simp del: holders_append) (metis add.right_neutral append_take_drop_id drop_all
        holders_Cons holders_Nil holders_append order_refl that)
  show ?thesis
  proof (cases opn)
    case (B_Swap i j)
    then show ?thesis
      by (auto simp: Pair refs_ok_def refs binary_swap_def holders_update nth_list_update)
  qed (use refs split_last in \<open>auto simp: Pair refs_ok_def binary_new_def split_beta holders_update
      refc_binary_reset refc_binary_copy refc_binary_alloc refc_binary_assign refc_binary_destroy\<close>)
qed

text \<open>
  C31: no program over \<open>Binary\<close> objects leaks a binary or frees one twice. After any sequence of
  constructions, copies, assignments (also to itself), allocations, resets, swaps and
  destructions, the references each binary has outstanding are exactly the objects that hold it;
  in particular, once every object is gone no binary is left.
\<close>

theorem binary_references:
  assumes "log w = []"
  shows "refc k (log (snd (fold (binary_step D) ops ([], w)))) =
    holders k (fst (fold (binary_step D) ops ([], w)))"
proof -
  have "refs_ok (fold (binary_step D) ops s)" if "refs_ok s" for s
    using that by (induction ops arbitrary: s) (simp_all add: binary_step_refs_ok)
  then have "refs_ok (fold (binary_step D) ops ([], w))"
    using assms by (simp add: refs_ok_def)
  then show ?thesis by (simp add: refs_ok_def)
qed

theorem binary_references_witness:
  "refc 0 (log (snd (fold (binary_step chunk_api) [B_New, B_Alloc 0 4, B_Copy 0, B_Assign 1 0] ([], env0)))) =
   holders 0 (fst (fold (binary_step chunk_api) [B_New, B_Alloc 0 4, B_Copy 0, B_Assign 1 0] ([], env0)))"
  using binary_references [of env0 0 chunk_api "[B_New, B_Alloc 0 4, B_Copy 0, B_Assign 1 0]"]
  by (simp add: env0_def)

section \<open>The argument of a control call\<close>

text \<open>
  Most control operations parse their argument in the same way: construct a decoder, check that
  a binary comes next, decode it into a \<open>Binary\<close>; \<open>EiError\<close> is caught and answered with
  \<open>ERL_DRV_ERROR_BADARG\<close>.
\<close>

datatype parse = ParseOk | ParseBadArg | ParseUndef

text \<open>From the type check on; the decoder is where the operation has read to.\<close>

definition parse_binary_at ::
  "'q drv_api \<Rightarrow> ei_lib \<Rightarrow> decoder cpp \<Rightarrow> binary \<Rightarrow> env \<Rightarrow> parse \<times> binary \<times> env" where
  "parse_binary_at D ei dec this w =
     (case cpp_bind dec (dec_type ei) of
        Throw _ \<Rightarrow> (ParseBadArg, this, w)
      | Undef \<Rightarrow> (ParseUndef, this, w)
      | Ret ((t, n), d) \<Rightarrow>
          if t \<noteq> ERL_BINARY_EXT then (ParseBadArg, this, w)
          else (case binary_decode D ei d n this w of
                  (Ret _, b, w') \<Rightarrow> (ParseOk, b, w')
                | (Throw _, b, w') \<Rightarrow> (ParseBadArg, b, w')
                | (Undef, b, w') \<Rightarrow> (ParseUndef, b, w')))"

definition parse_binary ::
  "'q drv_api \<Rightarrow> ei_lib \<Rightarrow> byte list \<Rightarrow> binary \<Rightarrow> env \<Rightarrow> parse \<times> binary \<times> env" where
  "parse_binary D ei buf this w = parse_binary_at D ei (EiDecoder ei buf (length buf)) this w"

text \<open>What parsing does to the shared state: it allocates and frees, and nothing else.\<close>

definition only_binaries :: "env \<Rightarrow> env \<Rightarrow> bool" where
  "only_binaries w w' \<longleftrightarrow> (\<exists>as. log w' = log w @ as \<and>
     (\<forall>a \<in> set as. \<exists>i. a = AllocBinary i \<or> a = IncRefc i \<or> a = FreeBinary i)) \<and>
     cur_caller w' = cur_caller w \<and> connected_pid w' = connected_pid w \<and> main w' = main w \<and>
     n_monitors w' = n_monitors w"

lemma only_binaries_refl [simp]: "only_binaries w w"
  by (simp add: only_binaries_def)

lemma only_binaries_reset: "only_binaries w (snd (binary_reset b this w))"
  by (auto simp: only_binaries_def binary_reset_def free_binary_def split: option.splits)

lemma only_binaries_alloc: "only_binaries w (snd (binary_alloc D n this w))"
  by (auto simp: only_binaries_def binary_alloc_def alloc_binary_def binary_reset_def
      free_binary_def Let_def env_log_def split: option.splits)

lemma only_binaries_decode: "only_binaries w (snd (snd (binary_decode D ei d n this w)))"
  using only_binaries_alloc [of w D n this]
  by (auto simp: binary_decode_def split: prod.splits option.splits cpp.splits)

lemma only_binaries_parse: "only_binaries w (snd (snd (parse_binary_at D ei dec this w)))"
  using only_binaries_decode [of w D ei _ _ this]
  by (auto simp: parse_binary_at_def split: cpp.splits prod.splits) (metis snd_conv)+

end
