(* ===== verification/Utils.thy ===== *)
theory Utils
  imports Drv_Types
begin

text \<open>
  \<open>utils.cc\<close>: encoding a reply that is an atom or an error, with a prepared
  \<open>{error, enomem}\<close> binary for the case that encoding itself fails, and the message for a
  socket that is not connected. \<open>platform\<close> collects everything the driver is linked with.
\<close>

section \<open>The platform\<close>

text \<open>
  Name resolution of the C library: \<open>getaddrinfo\<close> (return code and the bytes of \<open>ai_addr\<close>)
  and \<open>getnameinfo\<close> (return code and host name, given the address, its length and the room).
  \<open>enomem_error\<close> is the static \<open>NoMemError\<close> object.
\<close>

record net_api =
  getaddrinfo :: "string \<Rightarrow> int \<times> byte list"
  getnameinfo :: "byte list \<Rightarrow> nat \<Rightarrow> nat \<Rightarrow> int \<times> string"

record 'q platform =
  api :: "'q drv_api"
  ei :: ei_lib
  net :: net_api
  enomem_error :: binary

section \<open>Results of control calls\<close>

text \<open>
  What \<open>control\<close> returns: a reply and its size, one of the two error codes of the driver
  interface, or 0.
\<close>

datatype ctl = CtlReply reply | CtlBadArg | CtlGeneral | CtlZero

fun ctl_of :: "reply cpp \<Rightarrow> ctl cpp" where
  "ctl_of (Ret r) = Ret (CtlReply r)"
| "ctl_of (Throw e) = Throw e"
| "ctl_of Undef = Undef"

section \<open>Encoding replies\<close>

text \<open>
  The \<open>catch\<close> of \<open>encode_atom\<close> and \<open>encode_error\<close>: copy the prepared binary into the
  caller's buffer. Its size is not compared with \<open>rlen\<close>.
\<close>

definition enomem_reply :: "'q platform \<Rightarrow> nat \<Rightarrow> reply cpp" where
  "enomem_reply P rlen =
     (case enomem_error P of
        None \<Rightarrow> Undef
      | Some b \<Rightarrow> if orig_size b \<le> rlen then Ret (InPlace (orig_bytes b)) else Undef)"

definition encode_caught ::
  "'q platform \<Rightarrow> nat \<Rightarrow> (encoder \<Rightarrow> encoder cpp) list \<Rightarrow> env \<Rightarrow> ctl cpp \<times> env" where
  "encode_caught P rlen ms w =
     (case EiEncoder (ei P) of
        Throw e \<Rightarrow> (Throw e, w)
      | Undef \<Rightarrow> (Undef, w)
      | Ret enc0 \<Rightarrow>
          (case enc_chain ms enc0 of
             Throw _ \<Rightarrow> (ctl_of (enomem_reply P rlen), w)
           | Undef \<Rightarrow> (Undef, w)
           | Ret enc \<Rightarrow>
               (case copy_to_binary (api P) enc rlen w of
                  (Throw _, w') \<Rightarrow> (ctl_of (enomem_reply P rlen), w')
                | (r, w') \<Rightarrow> (ctl_of r, w'))))"

definition encode_atom :: "'q platform \<Rightarrow> nat \<Rightarrow> string \<Rightarrow> env \<Rightarrow> ctl cpp \<times> env" where
  "encode_atom P rlen a w = encode_caught P rlen [enc_atom (ei P) a] w"

definition encode_error :: "'q platform \<Rightarrow> nat \<Rightarrow> string \<Rightarrow> env \<Rightarrow> ctl cpp \<times> env" where
  "encode_error P rlen err w =
     encode_caught P rlen
       [enc_tuple_header (ei P) 2, enc_atom (ei P) ''error'', enc_atom (ei P) err] w"

definition encode_errno :: "'q platform \<Rightarrow> nat \<Rightarrow> int \<Rightarrow> env \<Rightarrow> ctl cpp \<times> env" where
  "encode_errno P rlen err w = encode_error P rlen (errno_id (api P) err) w"

text \<open>The other control operations encode without a \<open>try\<close>: an exception leaves them.\<close>

definition encode_plain ::
  "'q platform \<Rightarrow> nat \<Rightarrow> (encoder \<Rightarrow> encoder cpp) list \<Rightarrow> env \<Rightarrow> ctl cpp \<times> env" where
  "encode_plain P rlen ms w =
     (case encode_reply (api P) (ei P) rlen ms w of (r, w') \<Rightarrow> (ctl_of r, w'))"

text \<open>
  \<open>NoMemError\<close>: the constructor encodes \<open>{error, enomem}\<close> into a new binary (the buffer it
  passes has length 0), before \<open>enomem_error\<close> exists; the destructor frees it.
\<close>

definition NoMemError :: "'q platform \<Rightarrow> env \<Rightarrow> binary \<times> env" where
  "NoMemError P w =
     (case encode_errno (P\<lparr>enomem_error := None\<rparr>) 0 ENOMEM w of
        (Ret (CtlReply (NewBinary b)), w') \<Rightarrow> (Some b, w')
      | (_, w') \<Rightarrow> (None, w'))"

definition NoMemError_destroy :: "binary \<Rightarrow> env \<Rightarrow> env" where
  "NoMemError_destroy bin w = (case bin of None \<Rightarrow> w | Some b \<Rightarrow> free_binary b w)"

definition nomem_buffer :: "binary \<Rightarrow> byte list cpp" where
  "nomem_buffer bin = (case bin of None \<Rightarrow> Undef | Some b \<Rightarrow> Ret (orig_bytes b))"

definition nomem_size :: "binary \<Rightarrow> nat cpp" where
  "nomem_size bin = (case bin of None \<Rightarrow> Undef | Some b \<Rightarrow> Ret (orig_size b))"

section \<open>Messages\<close>

definition not_connected_term :: "'q platform \<Rightarrow> nat \<Rightarrow> term_spec list" where
  "not_connected_term P port =
     [T_ATOM ''utp_reply'', T_PORT port, T_ATOM ''error'', T_ATOM (errno_id (api P) ENOTCONN),
      T_TUPLE 2, T_TUPLE 3]"

definition send_not_connected :: "'q platform \<Rightarrow> nat \<Rightarrow> env \<Rightarrow> env" where
  "send_not_connected P port w =
     env_log (SendTerm port (Proc (cur_caller w)) (not_connected_term P port)) w"

section \<open>Facts\<close>

text \<open>Encoding a reply allocates at most one binary and does nothing else to the shared state.\<close>

lemma copy_to_binary_env:
  "only_binaries w (snd (copy_to_binary D x rlen w))"
  by (auto simp: only_binaries_def copy_to_binary_def alloc_binary_def Let_def env_log_def
      split: option.splits)

lemma encode_plain_env: "only_binaries w (snd (encode_plain P rlen ms w))"
  using copy_to_binary_env [of w "api P" _ rlen]
  by (auto simp: encode_plain_def encode_reply_def split: prod.splits cpp.splits) (metis snd_conv)

lemma encode_caught_env: "only_binaries w (snd (encode_caught P rlen ms w))"
  using copy_to_binary_env [of w "api P" _ rlen]
  by (auto simp: encode_caught_def split: prod.splits cpp.splits) (metis snd_conv)+

lemma encode_error_env: "only_binaries w (snd (encode_error P rlen err w))"
  by (simp add: encode_error_def encode_caught_env)

lemma encode_atom_env: "only_binaries w (snd (encode_atom P rlen a w))"
  by (simp add: encode_atom_def encode_caught_env)

text \<open>
  When the library encodes and allocation succeeds, a reply is the encoding of its chain; when it
  does not, \<open>encode_error\<close> and \<open>encode_atom\<close> still answer, with the prepared binary, provided
  that the caller's buffer can hold it.
\<close>

lemma encode_caught_total:
  assumes "EiEncoder (ei P) = Ret x0" and "ms = map (ei_checked (ei P)) cs"
    and "enomem_error P = Some b" and "orig_size b \<le> rlen"
    and "\<And>x. ei_run (ei P) cs x0 = Some x \<Longrightarrow> xindex x < length (buff x)"
  shows "\<exists>r. fst (encode_caught P rlen ms w) = Ret (CtlReply r)"
  using assms
  by (auto simp: encode_caught_def enc_chain_run enomem_reply_def copy_to_binary_def enc_memcpy_def
      Let_def split: option.splits prod.splits)

text \<open>An instance for the witnesses.\<close>

definition sample_platform :: "byte list list platform" where
  "sample_platform =
     \<lparr>api = chunk_api, ei = sample_ei,
      net = \<lparr>getaddrinfo = (\<lambda>s. if s = ''::'' then (0, 10 # replicate 27 0)
                                 else (0, [2, 0, 0, 0, 127, 0, 0, 1] @ replicate 8 0)),
             getnameinfo = (\<lambda>a n m. (0, ''127.0.0.1''))\<rparr>,
      enomem_error = None\<rparr>"

lemma sample_platform_simps [simp]:
  "api sample_platform = chunk_api" "ei sample_platform = sample_ei"
  by (simp_all add: sample_platform_def)

end
