(* ===== verification/Sock_Addr.thy ===== *)
theory Sock_Addr
  imports Utils
begin

text \<open>
  \<open>SockAddr\<close> (\<open>socket_handler.cc\<close>, from line 609): socket addresses as the bytes of a
  \<open>sockaddr_storage\<close> and a length. The layout is that of Linux: the family in the first two
  bytes (least significant first), the port in the next two (network order), then an IPv4 address
  at 4 or an IPv6 address at 8.
\<close>

section \<open>Memory\<close>

definition STORAGE_SIZE :: nat where "STORAGE_SIZE = 128"
definition SOCKADDR_IN_SIZE :: nat where "SOCKADDR_IN_SIZE = 16"
definition INET6_ADDRSTRLEN :: nat where "INET6_ADDRSTRLEN = 46"
definition AF_INET :: nat where "AF_INET = 2"
definition AF_INET6 :: nat where "AF_INET6 = 10"

lemmas addr_consts = STORAGE_SIZE_def SOCKADDR_IN_SIZE_def INET6_ADDRSTRLEN_def AF_INET_def
  AF_INET6_def

definition put :: "nat \<Rightarrow> byte list \<Rightarrow> byte list \<Rightarrow> byte list" where
  "put off bs mem = take off mem @ bs @ drop (off + length bs) mem"

lemma length_put [simp]: "off + length bs \<le> length mem \<Longrightarrow> length (put off bs mem) = length mem"
  by (simp add: put_def)

lemma put_nth:
  "off + length bs \<le> length mem \<Longrightarrow> i < length mem \<Longrightarrow>
    put off bs mem ! i = (if off \<le> i \<and> i < off + length bs then bs ! (i - off) else mem ! i)"
  by (auto simp: put_def nth_append min_def)

record SockAddr =
  addr :: "byte list"
  slen :: nat

definition addr_family :: "byte list \<Rightarrow> nat" where
  "addr_family m = unat (m ! 0) + 256 * unat (m ! 1)"

definition family_bytes :: "nat \<Rightarrow> byte list" where
  "family_bytes f = [of_nat f, of_nat (f div 256)]"

section \<open>Operations\<close>

definition SockAddr_new :: SockAddr where
  "SockAddr_new = \<lparr>addr = replicate STORAGE_SIZE 0, slen = STORAGE_SIZE\<rparr>"

text \<open>The constructor from a \<open>sockaddr\<close> copies \<open>slen\<close> bytes; what lies behind is \<open>old\<close>.\<close>

definition SockAddr_of_sockaddr :: "byte list \<Rightarrow> byte list \<Rightarrow> nat \<Rightarrow> SockAddr cpp" where
  "SockAddr_of_sockaddr old sa sl =
     (if sl \<le> STORAGE_SIZE \<and> sl \<le> length sa
      then Ret \<lparr>addr = put 0 (take sl sa) old, slen = sl\<rparr> else Undef)"

definition sa_family_of :: "SockAddr \<Rightarrow> nat" where
  "sa_family_of a = addr_family (addr a)"

definition from_addrport :: "net_api \<Rightarrow> string \<Rightarrow> nat \<Rightarrow> SockAddr cpp" where
  "from_addrport N addrstr port =
     (case getaddrinfo N addrstr of
        (rc, ai) \<Rightarrow>
          if rc \<noteq> 0 then Throw BadSockAddr
          else if STORAGE_SIZE < length ai then Undef
          else (let sa = put 0 ai (replicate STORAGE_SIZE 0) in
                if addr_family sa = AF_INET \<or> addr_family sa = AF_INET6
                then Ret \<lparr>addr = put 2 (bytes16 port) sa, slen = length ai\<rparr>
                else Throw BadSockAddr))"

definition from_addrport_in :: "byte list \<Rightarrow> nat \<Rightarrow> SockAddr" where
  "from_addrport_in inaddr port =
     \<lparr>addr = put 2 (bytes16 port) (put 4 (take 4 inaddr)
        (put 0 (family_bytes AF_INET) (replicate STORAGE_SIZE 0))),
      slen = SOCKADDR_IN_SIZE\<rparr>"

text \<open>The length stored for an IPv6 address is that of an IPv4 address, as in the source.\<close>

definition from_addrport_in6 :: "byte list \<Rightarrow> nat \<Rightarrow> SockAddr" where
  "from_addrport_in6 inaddr6 port =
     \<lparr>addr = put 2 (bytes16 port) (put 8 (take 16 inaddr6)
        (put 0 (family_bytes AF_INET6) (replicate STORAGE_SIZE 0))),
      slen = SOCKADDR_IN_SIZE\<rparr>"

definition SockAddr_str :: "net_api \<Rightarrow> string \<Rightarrow> nat \<Rightarrow> SockAddr cpp" where
  "SockAddr_str N addrstr port = from_addrport N addrstr port"

definition SockAddr_in :: "byte list \<Rightarrow> nat \<Rightarrow> SockAddr" where
  "SockAddr_in inaddr port = from_addrport_in inaddr port"

definition SockAddr_in6 :: "byte list \<Rightarrow> nat \<Rightarrow> SockAddr" where
  "SockAddr_in6 inaddr6 port = from_addrport_in6 inaddr6 port"

definition addr_port :: "byte list \<Rightarrow> nat" where
  "addr_port m = be16 (m ! 2) (m ! 3)"

definition to_addrport :: "net_api \<Rightarrow> nat \<Rightarrow> SockAddr \<Rightarrow> (string \<times> nat) cpp" where
  "to_addrport N addrlen a =
     (case getnameinfo N (addr a) (slen a) addrlen of
        (rc, host) \<Rightarrow>
          if rc \<noteq> 0 then Throw BadSockAddr
          else if addr_family (addr a) = AF_INET then Ret (host, addr_port (addr a))
          else if addr_family (addr a) = AF_INET6 then Ret (host, addr_port (addr a))
          else Throw BadSockAddr)"

text \<open>\<open>encode\<close> catches only \<open>BadSockAddr\<close>; \<open>err\<close> is the value of \<open>errno\<close>.\<close>

definition SockAddr_encode ::
  "'q platform \<Rightarrow> nat \<Rightarrow> int \<Rightarrow> SockAddr \<Rightarrow> env \<Rightarrow> ctl cpp \<times> env" where
  "SockAddr_encode P rlen err a w =
     (case to_addrport (net P) INET6_ADDRSTRLEN a of
        Throw _ \<Rightarrow> encode_errno P rlen err w
      | Undef \<Rightarrow> (Undef, w)
      | Ret (host, port) \<Rightarrow>
          encode_plain P rlen
            [enc_tuple_header (ei P) 2, enc_atom (ei P) ''ok'',
             enc_tuple_header (ei P) 2, enc_string (ei P) host, enc_ulongval (ei P) port] w)"

text \<open>\<open>memcmp\<close>, as "less than zero": lexicographic on unsigned bytes.\<close>

fun bytes_less :: "byte list \<Rightarrow> byte list \<Rightarrow> bool" where
  "bytes_less (x # xs) (y # ys) = (x < y \<or> (x = y \<and> bytes_less xs ys))"
| "bytes_less _ _ = False"

definition SockAddr_less :: "SockAddr \<Rightarrow> SockAddr \<Rightarrow> bool" where
  "SockAddr_less a b =
     (if addr_family (addr a) = addr_family (addr b)
      then bytes_less (take (slen a) (addr a)) (take (slen a) (addr b))
      else addr_family (addr a) < addr_family (addr b))"

definition SockAddr_eq :: "SockAddr \<Rightarrow> SockAddr \<Rightarrow> bool" where
  "SockAddr_eq a b = (\<not> (SockAddr_less a b \<or> SockAddr_less b a))"

section \<open>The order\<close>

lemma bytes_less_irrefl [simp]: "\<not> bytes_less xs xs"
  by (induction xs) auto

lemma bytes_less_trans:
  "length xs = length ys \<Longrightarrow> length ys = length zs \<Longrightarrow>
    bytes_less xs ys \<Longrightarrow> bytes_less ys zs \<Longrightarrow> bytes_less xs zs"
proof (induction xs ys arbitrary: zs rule: bytes_less.induct)
  case (1 x xs y ys)
  then show ?case by (cases zs) (auto intro: less_trans)
qed auto

lemma bytes_less_linear:
  "length xs = length ys \<Longrightarrow> bytes_less xs ys \<or> xs = ys \<or> bytes_less ys xs"
  by (induction xs ys rule: bytes_less.induct) (auto simp: neq_iff)

text \<open>A well-formed address: a whole \<open>sockaddr_storage\<close>, and a length within it.\<close>

definition addr_ok :: "SockAddr \<Rightarrow> bool" where
  "addr_ok a \<longleftrightarrow> length (addr a) = STORAGE_SIZE \<and> slen a \<le> STORAGE_SIZE"

text \<open>The bytes that comparisons look at.\<close>

definition addr_key :: "SockAddr \<Rightarrow> byte list" where
  "addr_key a = take (slen a) (addr a)"

text \<open>
  Two addresses can be compared when those of one family have one length. The system's addresses
  have the length of their family (\<open>native\<close>), so they can; IPv6 addresses from \<open>in6_addr\<close> have the
  length of an IPv4 address and can be compared with one another, but not with other IPv6
  addresses.
\<close>

definition comparable :: "SockAddr \<Rightarrow> SockAddr \<Rightarrow> bool" where
  "comparable a b \<longleftrightarrow> (addr_family (addr a) = addr_family (addr b) \<longrightarrow> slen a = slen b)"

definition native :: "SockAddr \<Rightarrow> bool" where
  "native a \<longleftrightarrow> addr_family (addr a) = AF_INET \<and> slen a = SOCKADDR_IN_SIZE \<or>
     addr_family (addr a) = AF_INET6 \<and> slen a = 28"

lemma native_comparable: "native a \<Longrightarrow> native b \<Longrightarrow> comparable a b"
  by (auto simp: native_def comparable_def addr_consts)

lemma addr_family_put:
  assumes "2 \<le> off" "off + length bs \<le> length mem"
  shows "addr_family (put off bs mem) = addr_family mem"
proof -
  have "0 < length mem" "1 < length mem" using assms by linarith+
  then show ?thesis
    using put_nth [OF assms(2), of 0] put_nth [OF assms(2), of 1] assms(1) by (simp add: addr_family_def)
qed

lemma native_from_addrport_in: "native (from_addrport_in x p)"
proof -
  let ?m = "put 0 (family_bytes AF_INET) (replicate STORAGE_SIZE 0)"
  have m: "length ?m = 128" "addr_family ?m = AF_INET"
    by (simp_all add: addr_family_def put_def family_bytes_def addr_consts)
  have "addr_family (put 2 (bytes16 p) (put 4 (take 4 x) ?m)) = AF_INET"
    using m by (simp add: addr_family_put bytes16_def)
  then show ?thesis by (simp add: native_def from_addrport_in_def)
qed

text \<open>
  C33: on addresses of which those of one family have one length, IPv4 and IPv6 mixed, \<open>operator<\<close>
  is a strict order, total up to the bytes within that length: it is irreflexive and transitive,
  and \<open>operator==\<close>, which is defined from it, holds exactly when the family and those bytes agree.
  So these addresses can be the keys of ordered containers.
\<close>

theorem SockAddr_order:
  assumes "addr_ok a" "addr_ok b" "addr_ok c" and "comparable a b" "comparable b c" "comparable a c"
  shows "\<not> SockAddr_less a a \<and>
    (SockAddr_less a b \<longrightarrow> \<not> SockAddr_less b a) \<and>
    (SockAddr_less a b \<and> SockAddr_less b c \<longrightarrow> SockAddr_less a c) \<and>
    (SockAddr_eq a b \<longleftrightarrow>
      addr_family (addr a) = addr_family (addr b) \<and> addr_key a = addr_key b)"
proof (intro conjI impI)
  let ?f = "\<lambda>x. addr_family (addr x)"
  have len: "?f x = ?f y \<Longrightarrow> length (addr_key x) = length (addr_key y)"
    if "addr_ok x" "addr_ok y" "comparable x y" for x y
    using that by (simp add: addr_ok_def comparable_def addr_key_def)
  have less: "SockAddr_less x y \<longleftrightarrow>
      (if ?f x = ?f y then bytes_less (addr_key x) (addr_key y) else ?f x < ?f y)"
    if "comparable x y" for x y
    using that by (simp add: SockAddr_less_def comparable_def addr_key_def)
  have sym: "comparable b a" using assms(4) by (simp add: comparable_def)
  note l = less [OF assms(4)] less [OF sym] less [OF assms(5)] less [OF assms(6)]
  note n = len [OF assms(1,2,4)] len [OF assms(2,3,5)]
  show irr: "\<not> SockAddr_less a a" by (simp add: SockAddr_less_def)
  show "\<not> SockAddr_less b a" if "SockAddr_less a b"
    using that bytes_less_trans [of "addr_key a" "addr_key b" "addr_key a"] n(1)
    by (auto simp: l split: if_splits)
  show "SockAddr_less a c" if "SockAddr_less a b \<and> SockAddr_less b c"
    using that bytes_less_trans [of "addr_key a" "addr_key b" "addr_key c"] n
    by (auto simp: l split: if_splits)
  show "SockAddr_eq a b \<longleftrightarrow> ?f a = ?f b \<and> addr_key a = addr_key b"
    using bytes_less_linear [of "addr_key a" "addr_key b"] n(1)
    by (auto simp: SockAddr_eq_def l)
qed

text \<open>Two IPv4 addresses and an IPv6 address.\<close>

theorem SockAddr_order_witness:
  "SockAddr_less (from_addrport_in [127, 0, 0, 1] 80) \<lparr>addr = 10 # replicate 127 0, slen = 28\<rparr>"
proof -
  let ?a = "from_addrport_in [127, 0, 0, 1] 80" and ?b = "from_addrport_in [127, 0, 0, 2] 80"
  let ?c = "\<lparr>addr = 10 # replicate 127 0, slen = 28\<rparr> :: SockAddr"
  have n: "native ?a" "native ?b" "native ?c"
    by (simp_all add: native_from_addrport_in) (simp add: native_def addr_family_def addr_consts)
  have "addr_ok ?a" "addr_ok ?b" "addr_ok ?c"
    by (simp_all add: addr_ok_def from_addrport_in_def put_def bytes16_def family_bytes_def addr_consts)
  moreover have "SockAddr_less ?a ?b" "SockAddr_less ?b ?c" by code_simp+
  ultimately show ?thesis
    using SockAddr_order [of ?a ?b ?c] n native_comparable by blast
qed

text \<open>
  C34: the IPv6 constructor stores the length of an IPv4 address, so two IPv6 addresses with the
  same port and the same first eight bytes compare equal, and neither is less than the other,
  whatever their last eight bytes are.
\<close>

theorem in6_addresses_conflated:
  assumes "length x = 16" "length y = 16" and "take 8 x = take 8 y"
  shows "SockAddr_eq (from_addrport_in6 x port) (from_addrport_in6 y port)"
proof -
  have fam: "length (family_bytes AF_INET6) = 2" by (simp add: family_bytes_def)
  have "take 16 (addr (from_addrport_in6 z port)) =
      family_bytes AF_INET6 @ bytes16 port @ replicate 4 0 @ take 8 z" if "length z = 16" for z
    using that fam by (simp add: from_addrport_in6_def put_def STORAGE_SIZE_def)
  moreover have "addr_family (addr (from_addrport_in6 z port)) = AF_INET6" for z
    by (simp add: from_addrport_in6_def put_def bytes16_def family_bytes_def addr_consts
        addr_family_def)
  ultimately show ?thesis
    using assms by (simp add: SockAddr_eq_def SockAddr_less_def)
      (simp add: from_addrport_in6_def SOCKADDR_IN_SIZE_def)
qed

theorem in6_addresses_conflated_witness:
  "SockAddr_eq (from_addrport_in6 (replicate 16 0) 80) (from_addrport_in6 (replicate 15 0 @ [1]) 80) \<and>
   replicate 16 (0 :: byte) \<noteq> replicate 15 0 @ [1]"
  using in6_addresses_conflated [of "replicate 16 0" "replicate 15 0 @ [1]" 80]
  by (simp add: numeral_eq_Suc)

section \<open>Ports\<close>

text \<open>
  An address made from a numeric host string and a port gives that port back: whatever
  address \<open>getaddrinfo\<close> returns (of a whole \<open>sockaddr\<close>, at most as long as the storage),
  \<open>to_addrport\<close> of the result reports the port that was put in.
\<close>

lemma port_roundtrip:
  assumes "from_addrport N s p = Ret a" and "p < 65536"
    and "to_addrport N n a = Ret (host, q)"
  shows "q = p"
proof -
  obtain ai where a: "addr a = put 2 (bytes16 p) (put 0 ai (replicate STORAGE_SIZE 0))"
    and len: "length ai \<le> STORAGE_SIZE"
    using assms(1) by (auto simp: from_addrport_def Let_def split: prod.splits if_splits)
  have "addr a ! 2 = of_nat (p div 256)" "addr a ! 3 = of_nat p"
    using len unfolding a by (simp_all add: put_nth bytes16_def STORAGE_SIZE_def)
  then have "addr_port (addr a) = p"
    using assms(2) by (simp add: addr_port_def be16_bytes16)
  then show ?thesis
    using assms(3) by (auto simp: to_addrport_def split: prod.splits if_splits)
qed

end
