(* ===== verification/Handler.thy ===== *)
theory Handler
  imports Utils
begin

text \<open>
  \<open>handler.h\<close> and \<open>handler.cc\<close>: the base class of all handlers. C++ inheritance is record
  extension: the socket handlers extend \<open>handler\<close>, and functions on \<open>handler_scheme\<close> are the
  methods they inherit. Beside the class's own field (the port) the record carries the handler's
  surroundings: the shared state, the I/O queue the runtime keeps for its port, the faults so
  far, and whether the object has been deleted.
\<close>

section \<open>Commands and delivery modes\<close>

text \<open>Command numbers are decoded where the code switches on them.\<close>

datatype command =
    UTP_LISTEN
  | UTP_ACCEPT
  | UTP_CANCEL_ACCEPT
  | UTP_CONNECT_START
  | UTP_CONNECT_VALIDATE
  | UTP_CLOSE
  | UTP_SOCKNAME
  | UTP_PEERNAME
  | UTP_SETOPTS
  | UTP_GETOPTS
  | UTP_CANCEL_SEND
  | UTP_RECV
  | UTP_CANCEL_RECV
  | UTP_OTHER nat

definition command_of :: "nat \<Rightarrow> command" where
  "command_of n =
     (if n = 1 then UTP_LISTEN else if n = 2 then UTP_ACCEPT
      else if n = 3 then UTP_CANCEL_ACCEPT else if n = 4 then UTP_CONNECT_START
      else if n = 5 then UTP_CONNECT_VALIDATE else if n = 6 then UTP_CLOSE
      else if n = 7 then UTP_SOCKNAME else if n = 8 then UTP_PEERNAME
      else if n = 9 then UTP_SETOPTS else if n = 10 then UTP_GETOPTS
      else if n = 11 then UTP_CANCEL_SEND else if n = 12 then UTP_RECV
      else if n = 13 then UTP_CANCEL_RECV else UTP_OTHER n)"

datatype delivery_mode = DATA_LIST | DATA_BINARY

section \<open>The class\<close>

record 'q handler =
  hid :: handler_id
  port :: nat
  ioq :: 'q
  henv :: env
  faults :: "fault list"
  deleted :: bool

definition emit :: "action \<Rightarrow> ('q, 'a) handler_scheme \<Rightarrow> ('q, 'a) handler_scheme" where
  "emit a h = h\<lparr>henv := env_log a (henv h)\<rparr>"

definition on_env :: "(env \<Rightarrow> env) \<Rightarrow> ('q, 'a) handler_scheme \<Rightarrow> ('q, 'a) handler_scheme" where
  "on_env f h = h\<lparr>henv := f (henv h)\<rparr>"

definition fault :: "fault \<Rightarrow> ('q, 'a) handler_scheme \<Rightarrow> ('q, 'a) handler_scheme" where
  "fault x h = h\<lparr>faults := faults h @ [x]\<rparr>"

text \<open>\<open>delete this\<close>: a second deletion is a fault of its own.\<close>

definition delete_this :: "('q, 'a) handler_scheme \<Rightarrow> ('q, 'a) handler_scheme" where
  "delete_this h =
     (if deleted h then fault DoubleFree h else emit (Delete (hid h)) (h\<lparr>deleted := True\<rparr>))"

lemma emit_simps [simp]:
  "hid (emit a h) = hid h" "port (emit a h) = port h" "ioq (emit a h) = ioq h"
  "faults (emit a h) = faults h" "deleted (emit a h) = deleted h"
  "henv (emit a h) = env_log a (henv h)"
  by (simp_all add: emit_def)

lemma on_env_simps [simp]:
  "hid (on_env f h) = hid h" "port (on_env f h) = port h" "ioq (on_env f h) = ioq h"
  "faults (on_env f h) = faults h" "deleted (on_env f h) = deleted h"
  "henv (on_env f h) = f (henv h)"
  by (simp_all add: on_env_def)

lemma fault_simps [simp]:
  "hid (fault x h) = hid h" "port (fault x h) = port h" "ioq (fault x h) = ioq h"
  "faults (fault x h) = faults h @ [x]" "deleted (fault x h) = deleted h"
  "henv (fault x h) = henv h"
  by (simp_all add: fault_def)

abbreviation hlog :: "('q, 'a) handler_scheme \<Rightarrow> action list" where
  "hlog h \<equiv> log (henv h)"

abbreviation hcaller :: "('q, 'a) handler_scheme \<Rightarrow> caller" where
  "hcaller h \<equiv> Proc (cur_caller (henv h))"

section \<open>Methods\<close>

definition Handler_set_port :: "nat \<Rightarrow> ('q, 'a) handler_scheme \<Rightarrow> ('q, 'a) handler_scheme" where
  "Handler_set_port p h =
     (let h1 = h\<lparr>port := p\<rparr> in if p \<noteq> 0 then emit (SetPortBinary p) h1 else h1)"

text \<open>The default reaction to the exit of a monitored process.\<close>

definition Handler_process_exited :: "pid \<Rightarrow> ('q, 'a) handler_scheme \<Rightarrow> ('q, 'a) handler_scheme" where
  "Handler_process_exited proc h =
     (let connected = connected_pid (henv h) (port h)
      in if proc = connected then emit (FailureEof (port h)) h else h)"

definition Handler_destroy :: "('q, 'a) handler_scheme \<Rightarrow> ('q, 'a) handler_scheme" where
  "Handler_destroy h = h\<lparr>port := 0\<rparr>"

text \<open>
  The constructors: without a port, and with one (which goes through \<open>set_port\<close>).
\<close>

definition Handler_new :: "handler_id \<Rightarrow> 'q \<Rightarrow> env \<Rightarrow> 'q handler" where
  "Handler_new i q w =
     \<lparr>hid = i, port = 0, ioq = q, henv = w, faults = [], deleted = False\<rparr>"

definition Handler_new_port :: "handler_id \<Rightarrow> nat \<Rightarrow> 'q \<Rightarrow> env \<Rightarrow> 'q handler" where
  "Handler_new_port i p q w = Handler_set_port p (Handler_new i q w)"

section \<open>Replies as handler operations\<close>

text \<open>The encoding operations of \<open>Utils\<close>, run in the handler's surroundings.\<close>

definition with_env ::
  "(env \<Rightarrow> 'r \<times> env) \<Rightarrow> ('q, 'a) handler_scheme \<Rightarrow> 'r \<times> ('q, 'a) handler_scheme" where
  "with_env f h = (case f (henv h) of (r, w) \<Rightarrow> (r, h\<lparr>henv := w\<rparr>))"

lemma snd_with_env: "snd (with_env f h) = h\<lparr>henv := snd (f (henv h))\<rparr>"
  by (simp add: with_env_def split: prod.splits)

lemma fst_with_env: "fst (with_env f h) = fst (f (henv h))"
  by (simp add: with_env_def split: prod.splits)

lemma with_env_simps [simp]:
  "hid (snd (with_env f h)) = hid h" "port (snd (with_env f h)) = port h"
  "ioq (snd (with_env f h)) = ioq h" "faults (snd (with_env f h)) = faults h"
  "deleted (snd (with_env f h)) = deleted h" "henv (snd (with_env f h)) = snd (f (henv h))"
  by (simp_all add: snd_with_env)

end
