(* ===== verification/Sock_Opts.thy ===== *)
theory Sock_Opts
  imports Sock_Addr Handler
begin

text \<open>
  \<open>SocketHandler::SockOpts\<close>: the socket options, decoded from the binary that
  \<open>options_to_binary\<close> of \<open>gen_utp.erl\<close> writes, and the merge that \<open>setopts\<close> performs. The
  Erlang encoder is modelled too, so that the two sides can be proved to agree.
\<close>

section \<open>Option values\<close>

datatype opt =
    UTP_IP_OPT
  | UTP_PORT_OPT
  | UTP_LIST_OPT
  | UTP_BINARY_OPT
  | UTP_MODE_OPT
  | UTP_INET_OPT
  | UTP_INET6_OPT
  | UTP_SEND_TMOUT_OPT
  | UTP_SEND_TMOUT_INFINITE_OPT
  | UTP_ACTIVE_OPT
  | UTP_PACKET_OPT
  | UTP_HEADER_OPT
  | UTP_SNDBUF_OPT
  | UTP_RECBUF_OPT

fun opt_code :: "opt \<Rightarrow> byte" where
  "opt_code UTP_IP_OPT = 1"
| "opt_code UTP_PORT_OPT = 2"
| "opt_code UTP_LIST_OPT = 3"
| "opt_code UTP_BINARY_OPT = 4"
| "opt_code UTP_MODE_OPT = 5"
| "opt_code UTP_INET_OPT = 6"
| "opt_code UTP_INET6_OPT = 7"
| "opt_code UTP_SEND_TMOUT_OPT = 8"
| "opt_code UTP_SEND_TMOUT_INFINITE_OPT = 9"
| "opt_code UTP_ACTIVE_OPT = 10"
| "opt_code UTP_PACKET_OPT = 11"
| "opt_code UTP_HEADER_OPT = 12"
| "opt_code UTP_SNDBUF_OPT = 13"
| "opt_code UTP_RECBUF_OPT = 14"

text \<open>
  The byte on the wire is cast to the enumeration without a check: a value that is none of the
  three is kept as it came.
\<close>

datatype active = ACTIVE_FALSE | ACTIVE_ONCE | ACTIVE_TRUE | ACTIVE_OTHER byte

definition active_of_byte :: "byte \<Rightarrow> active" where
  "active_of_byte b =
     (if b = 0 then ACTIVE_FALSE else if b = 1 then ACTIVE_ONCE
      else if b = 2 then ACTIVE_TRUE else ACTIVE_OTHER b)"

definition UTP_SNDBUF_DEFAULT :: int where "UTP_SNDBUF_DEFAULT = 16384"
definition UTP_RECBUF_DEFAULT :: int where "UTP_RECBUF_DEFAULT = 16384"

text \<open>
  \<open>addrstr\<close> is the C string in the array. \<open>header\<close>, \<open>so_port\<close> and \<open>packet\<close> come from
  unsigned 16 and 8 bit values; the buffer sizes are \<open>int\<close>s.
\<close>

record SockOpts =
  so_addr :: SockAddr
  addrstr :: string
  send_tmout :: int
  active :: active
  so_fd :: int
  header :: nat
  sndbuf :: int
  recbuf :: int
  so_port :: nat
  delivery_mode :: delivery_mode
  packet :: nat
  inet6 :: bool
  addr_set :: bool

definition SockOpts_new :: SockOpts where
  "SockOpts_new =
     \<lparr>so_addr = SockAddr_new, addrstr = [], send_tmout = -1, active = ACTIVE_TRUE, so_fd = -1,
      header = 0, sndbuf = UTP_SNDBUF_DEFAULT, recbuf = UTP_RECBUF_DEFAULT, so_port = 0,
      delivery_mode = DATA_LIST, packet = 0, inet6 = False, addr_set = False\<rparr>"

section \<open>Decoding\<close>

text \<open>An unsigned 32 bit value stored into an \<open>int\<close>.\<close>

definition int_of_u32 :: "nat \<Rightarrow> int" where
  "int_of_u32 n = sint (of_nat n :: u32)"

definition chars_of :: "byte list \<Rightarrow> string" where
  "chars_of bs = map (\<lambda>b. char_of (unat b)) bs"

text \<open>
  The loop of \<open>decode\<close>, on the bytes from \<open>data\<close> to \<open>end\<close>. An option whose value does not fit
  in what is left is read beyond the binary; \<open>strcpy\<close> needs a terminating null there and room in
  the array. Codes that are no option are skipped.
\<close>

function decode_loop ::
  "byte list \<Rightarrow> SockOpts \<Rightarrow> opt list \<Rightarrow> (SockOpts \<times> opt list) cpp" where
  "decode_loop [] so os = Ret (so, os)"
| "decode_loop (c # data) so os =
     (if c = 1 then
        (let s = takeWhile (\<lambda>b. b \<noteq> 0) data in
         if length s = length data \<or> INET6_ADDRSTRLEN < length s + 1 then Undef
         else decode_loop (drop (length s + 1) data)
                (so\<lparr>addrstr := chars_of s, addr_set := True\<rparr>) (os @ [UTP_IP_OPT]))
      else if c = 2 then
        (case data of
           b0 # b1 # r \<Rightarrow> decode_loop r (so\<lparr>so_port := be16 b0 b1\<rparr>) (os @ [UTP_PORT_OPT])
         | _ \<Rightarrow> Undef)
      else if c = 3 then decode_loop data (so\<lparr>delivery_mode := DATA_LIST\<rparr>) (os @ [UTP_LIST_OPT])
      else if c = 4 then decode_loop data (so\<lparr>delivery_mode := DATA_BINARY\<rparr>) (os @ [UTP_BINARY_OPT])
      else if c = 6 then decode_loop data (so\<lparr>inet6 := False\<rparr>) (os @ [UTP_INET_OPT])
      else if c = 7 then decode_loop data (so\<lparr>inet6 := True\<rparr>) (os @ [UTP_INET6_OPT])
      else if c = 8 then
        (case data of
           b0 # b1 # b2 # b3 # r \<Rightarrow>
             decode_loop r (so\<lparr>send_tmout := int (be32 b0 b1 b2 b3)\<rparr>) (os @ [UTP_SEND_TMOUT_OPT])
         | _ \<Rightarrow> Undef)
      else if c = 9 then decode_loop data (so\<lparr>send_tmout := -1\<rparr>) (os @ [UTP_SEND_TMOUT_INFINITE_OPT])
      else if c = 10 then
        (case data of
           b0 # r \<Rightarrow> decode_loop r (so\<lparr>active := active_of_byte b0\<rparr>) (os @ [UTP_ACTIVE_OPT])
         | _ \<Rightarrow> Undef)
      else if c = 11 then
        (case data of
           b0 # r \<Rightarrow> decode_loop r (so\<lparr>packet := unat b0\<rparr>) (os @ [UTP_PACKET_OPT])
         | _ \<Rightarrow> Undef)
      else if c = 12 then
        (case data of
           b0 # b1 # r \<Rightarrow> decode_loop r (so\<lparr>header := be16 b0 b1\<rparr>) (os @ [UTP_HEADER_OPT])
         | _ \<Rightarrow> Undef)
      else if c = 13 then
        (case data of
           b0 # b1 # b2 # b3 # r \<Rightarrow>
             decode_loop r (so\<lparr>sndbuf := int_of_u32 (be32 b0 b1 b2 b3)\<rparr>) (os @ [UTP_SNDBUF_OPT])
         | _ \<Rightarrow> Undef)
      else if c = 14 then
        (case data of
           b0 # b1 # b2 # b3 # r \<Rightarrow>
             decode_loop r (so\<lparr>recbuf := int_of_u32 (be32 b0 b1 b2 b3)\<rparr>) (os @ [UTP_RECBUF_OPT])
         | _ \<Rightarrow> Undef)
      else decode_loop data so os)"
  by pat_completeness auto
termination
  by (relation "measure (\<lambda>(bs, _, _). length bs)") auto

definition decode :: "net_api \<Rightarrow> byte list \<Rightarrow> SockOpts \<Rightarrow> (SockOpts \<times> opt list) cpp" where
  "decode N bin so =
     cpp_bind (decode_loop bin so [])
       (\<lambda>(so', os). if addr_set so'
          then cpp_bind (from_addrport N (addrstr so') (so_port so')) (\<lambda>a. Ret (so'\<lparr>so_addr := a\<rparr>, os))
          else Ret (so', os))"

text \<open>
  \<open>decode_and_merge\<close>: decode into fresh options, then take over the decoded fields one by one;
  options that only make sense when a socket is created are refused.
\<close>

fun merge_loop :: "SockOpts \<Rightarrow> opt list \<Rightarrow> SockOpts \<Rightarrow> SockOpts cpp" where
  "merge_loop so [] this = Ret this"
| "merge_loop so (UTP_IP_OPT # os) this = Throw (InvalidArgument ''ip'')"
| "merge_loop so (UTP_PORT_OPT # os) this = Throw (InvalidArgument ''port'')"
| "merge_loop so (UTP_LIST_OPT # os) this = merge_loop so os (this\<lparr>delivery_mode := delivery_mode so\<rparr>)"
| "merge_loop so (UTP_BINARY_OPT # os) this = merge_loop so os (this\<lparr>delivery_mode := delivery_mode so\<rparr>)"
| "merge_loop so (UTP_MODE_OPT # os) this = merge_loop so os (this\<lparr>delivery_mode := delivery_mode so\<rparr>)"
| "merge_loop so (UTP_INET_OPT # os) this = Throw (InvalidArgument ''inet'')"
| "merge_loop so (UTP_INET6_OPT # os) this = Throw (InvalidArgument ''inet6'')"
| "merge_loop so (UTP_SEND_TMOUT_OPT # os) this = merge_loop so os (this\<lparr>send_tmout := send_tmout so\<rparr>)"
| "merge_loop so (UTP_SEND_TMOUT_INFINITE_OPT # os) this =
     merge_loop so os (this\<lparr>send_tmout := send_tmout so\<rparr>)"
| "merge_loop so (UTP_ACTIVE_OPT # os) this = merge_loop so os (this\<lparr>active := active so\<rparr>)"
| "merge_loop so (UTP_PACKET_OPT # os) this = merge_loop so os (this\<lparr>packet := packet so\<rparr>)"
| "merge_loop so (UTP_HEADER_OPT # os) this = merge_loop so os (this\<lparr>header := header so\<rparr>)"
| "merge_loop so (UTP_SNDBUF_OPT # os) this = merge_loop so os (this\<lparr>sndbuf := sndbuf so\<rparr>)"
| "merge_loop so (UTP_RECBUF_OPT # os) this = merge_loop so os (this\<lparr>recbuf := recbuf so\<rparr>)"

definition decode_and_merge :: "net_api \<Rightarrow> byte list \<Rightarrow> SockOpts \<Rightarrow> SockOpts cpp" where
  "decode_and_merge N bin this =
     cpp_bind (decode N bin SockOpts_new) (\<lambda>(so, os). merge_loop so os this)"

section \<open>The Erlang encoder\<close>

datatype utpmode = Mode_list | Mode_binary
datatype utpfamily = Inet | Inet6
datatype utptimeout = Infinity | Millis nat
datatype utpactive = Act_false | Act_once | Act_true

record utp_options =
  o_mode :: "utpmode option"
  o_ip :: "string option"
  o_port :: "nat option"
  o_family :: "utpfamily option"
  o_send_tmout :: "utptimeout option"
  o_active :: "utpactive option"
  o_packet :: "nat option"
  o_header :: "nat option"
  o_sndbuf :: "nat option"
  o_recbuf :: "nat option"

definition str_bytes :: "string \<Rightarrow> byte list" where
  "str_bytes s = map (\<lambda>c. of_nat (of_char c)) s"

definition options_to_binary :: "utp_options \<Rightarrow> byte list" where
  "options_to_binary x = concat
     [case o_mode x of None \<Rightarrow> [] | Some Mode_list \<Rightarrow> [opt_code UTP_LIST_OPT]
        | Some Mode_binary \<Rightarrow> [opt_code UTP_BINARY_OPT],
      case o_family x of None \<Rightarrow> [] | Some Inet \<Rightarrow> [] | Some Inet6 \<Rightarrow> [opt_code UTP_INET6_OPT],
      case o_ip x of None \<Rightarrow> [] | Some s \<Rightarrow> opt_code UTP_IP_OPT # str_bytes s @ [0],
      case o_port x of None \<Rightarrow> [] | Some p \<Rightarrow> opt_code UTP_PORT_OPT # bytes16 p,
      case o_send_tmout x of None \<Rightarrow> [] | Some Infinity \<Rightarrow> [opt_code UTP_SEND_TMOUT_INFINITE_OPT]
        | Some (Millis t) \<Rightarrow> opt_code UTP_SEND_TMOUT_OPT # bytes32 t,
      case o_active x of None \<Rightarrow> [] | Some Act_false \<Rightarrow> [opt_code UTP_ACTIVE_OPT, 0]
        | Some Act_once \<Rightarrow> [opt_code UTP_ACTIVE_OPT, 1] | Some Act_true \<Rightarrow> [opt_code UTP_ACTIVE_OPT, 2],
      case o_packet x of None \<Rightarrow> [] | Some v \<Rightarrow> [opt_code UTP_PACKET_OPT, of_nat v],
      case o_header x of None \<Rightarrow> [] | Some n \<Rightarrow> opt_code UTP_HEADER_OPT # bytes16 n,
      case o_sndbuf x of None \<Rightarrow> [] | Some n \<Rightarrow> opt_code UTP_SNDBUF_OPT # bytes32 n,
      case o_recbuf x of None \<Rightarrow> [] | Some n \<Rightarrow> opt_code UTP_RECBUF_OPT # bytes32 n]"

section \<open>Decoding a sequence of segments\<close>

text \<open>
  The contract between an encoder that concatenates segments and a decoder that loops over them:
  a segment is consumed when the decoder, wherever it stands, goes past it with a known effect.
\<close>

definition consumes :: "('b list \<Rightarrow> 's \<Rightarrow> 'r) \<Rightarrow> 'b list \<Rightarrow> ('s \<Rightarrow> 's) \<Rightarrow> bool" where
  "consumes run seg f \<longleftrightarrow> (\<forall>rest s. run (seg @ rest) s = run rest (f s))"

locale stream_decoder =
  fixes run :: "'b list \<Rightarrow> 's \<Rightarrow> 'r"
    and finish :: "'s \<Rightarrow> 'r"
  assumes run_Nil: "run [] s = finish s"
begin

lemma consumes_Nil: "consumes run [] id"
  by (simp add: consumes_def)

lemma consumes_append:
  "consumes run xs f \<Longrightarrow> consumes run ys g \<Longrightarrow> consumes run (xs @ ys) (g \<circ> f)"
  by (simp add: consumes_def)

lemma consumes_concat:
  "list_all2 (consumes run) segs fs \<Longrightarrow> consumes run (concat segs) (\<lambda>s. fold (\<lambda>f s. f s) fs s)"
  by (induction segs fs rule: list_all2_induct) (simp_all add: consumes_def)

lemma run_concat:
  assumes "list_all2 (consumes run) segs fs"
  shows "run (concat segs) s = finish (fold (\<lambda>f s. f s) fs s)"
  using consumes_concat [OF assms] run_Nil by (simp add: consumes_def) (metis append_Nil2)

end

definition decode_run :: "byte list \<Rightarrow> SockOpts \<times> opt list \<Rightarrow> (SockOpts \<times> opt list) cpp" where
  "decode_run bs s = decode_loop bs (fst s) (snd s)"

interpretation opts: stream_decoder decode_run Ret
  by unfold_locales (simp add: decode_run_def)

text \<open>The effect of one segment: a field update and the option's name.\<close>

definition seg_eff :: "(SockOpts \<Rightarrow> SockOpts) \<Rightarrow> opt list \<Rightarrow> SockOpts \<times> opt list \<Rightarrow> SockOpts \<times> opt list" where
  "seg_eff f os s = (f (fst s), snd s @ os)"

lemma consumes_none: "consumes decode_run [] (seg_eff id [])"
  by (simp add: consumes_def decode_run_def seg_eff_def)

lemma consumes_flag:
  "consumes decode_run [3] (seg_eff (\<lambda>so. so\<lparr>delivery_mode := DATA_LIST\<rparr>) [UTP_LIST_OPT])"
  "consumes decode_run [4] (seg_eff (\<lambda>so. so\<lparr>delivery_mode := DATA_BINARY\<rparr>) [UTP_BINARY_OPT])"
  "consumes decode_run [7] (seg_eff (\<lambda>so. so\<lparr>inet6 := True\<rparr>) [UTP_INET6_OPT])"
  "consumes decode_run [9] (seg_eff (\<lambda>so. so\<lparr>send_tmout := -1\<rparr>) [UTP_SEND_TMOUT_INFINITE_OPT])"
  by (simp_all add: consumes_def decode_run_def seg_eff_def)

lemma consumes_byte:
  "consumes decode_run [10, b] (seg_eff (\<lambda>so. so\<lparr>active := active_of_byte b\<rparr>) [UTP_ACTIVE_OPT])"
  "consumes decode_run [11, b] (seg_eff (\<lambda>so. so\<lparr>packet := unat b\<rparr>) [UTP_PACKET_OPT])"
  by (simp_all add: consumes_def decode_run_def seg_eff_def)

lemma consumes_16:
  "n < 65536 \<Longrightarrow> consumes decode_run (2 # bytes16 n) (seg_eff (\<lambda>so. so\<lparr>so_port := n\<rparr>) [UTP_PORT_OPT])"
  "n < 65536 \<Longrightarrow> consumes decode_run (12 # bytes16 n) (seg_eff (\<lambda>so. so\<lparr>header := n\<rparr>) [UTP_HEADER_OPT])"
  by (simp_all add: consumes_def decode_run_def seg_eff_def bytes16_def be16_bytes16)

lemma int_of_u32_small: "n < 2147483648 \<Longrightarrow> int_of_u32 n = int n"
proof -
  assume "n < 2147483648"
  then have "signed_take_bit 31 (int n) = int n"
    by (intro signed_take_bit_int_eq_self) simp_all
  then show ?thesis by (simp add: int_of_u32_def signed_of_nat)
qed

lemma consumes_32:
  "n < 4294967296 \<Longrightarrow>
    consumes decode_run (8 # bytes32 n) (seg_eff (\<lambda>so. so\<lparr>send_tmout := int n\<rparr>) [UTP_SEND_TMOUT_OPT])"
  "n < 2147483648 \<Longrightarrow>
    consumes decode_run (13 # bytes32 n) (seg_eff (\<lambda>so. so\<lparr>sndbuf := int n\<rparr>) [UTP_SNDBUF_OPT])"
  "n < 2147483648 \<Longrightarrow>
    consumes decode_run (14 # bytes32 n) (seg_eff (\<lambda>so. so\<lparr>recbuf := int n\<rparr>) [UTP_RECBUF_OPT])"
  by (simp_all add: consumes_def decode_run_def seg_eff_def bytes32_def be32_bytes32
      int_of_u32_small)

text \<open>A host string the encoder can send: no null character, and room in the array.\<close>

definition host_ok :: "string \<Rightarrow> bool" where
  "host_ok s \<longleftrightarrow> CHR 0x00 \<notin> set s \<and> length s < INET6_ADDRSTRLEN"

lemma of_char_less [simp]: "(of_char c :: nat) < 256"
  by (metis of_char_mod_256 mod_less_divisor zero_less_numeral)

lemma chars_of_str_bytes [simp]: "chars_of (str_bytes s) = s"
  by (induction s) (simp_all add: chars_of_def str_bytes_def unat_byte_of_nat)

lemma char_byte_zero: "(of_nat (of_char c) :: byte) = 0 \<longleftrightarrow> c = CHR 0x00"
proof
  assume "(of_nat (of_char c) :: byte) = 0"
  then have "(of_char c :: nat) = 0"
    using unat_byte_of_nat [of "of_char c"] by simp
  then have "c = char_of (0 :: nat)" by (metis char_of_char)
  then show "c = CHR 0x00" by (simp add: char_of_def)
qed simp

lemma str_bytes_no_null: "host_ok s \<Longrightarrow> b \<in> set (str_bytes s) \<Longrightarrow> b \<noteq> 0"
  by (auto simp: host_ok_def str_bytes_def char_byte_zero)

lemma consumes_host:
  assumes "host_ok s"
  shows "consumes decode_run (1 # str_bytes s @ [0])
    (seg_eff (\<lambda>so. so\<lparr>addrstr := s, addr_set := True\<rparr>) [UTP_IP_OPT])"
proof -
  have tw: "takeWhile (\<lambda>b. b \<noteq> 0) (str_bytes s @ 0 # rest) = str_bytes s" for rest
    using str_bytes_no_null [OF assms] by (subst takeWhile_append2) auto
  have len: "length (str_bytes s) + 1 \<le> INET6_ADDRSTRLEN"
    using assms by (simp add: host_ok_def str_bytes_def)
  show ?thesis using len
    by (simp add: consumes_def decode_run_def seg_eff_def tw Let_def)
qed

section \<open>Round trip\<close>

text \<open>
  The values \<open>gen_utp_opts:validate\<close> lets through, with the bounds of the wire format, which it
  does not check for timeouts and buffer sizes.
\<close>

definition opts_ok :: "utp_options \<Rightarrow> bool" where
  "opts_ok x \<longleftrightarrow>
     (\<forall>s. o_ip x = Some s \<longrightarrow> host_ok s) \<and>
     (\<forall>p. o_port x = Some p \<longrightarrow> p < 65536) \<and>
     (\<forall>t. o_send_tmout x = Some (Millis t) \<longrightarrow> t < 4294967296) \<and>
     (\<forall>v. o_packet x = Some v \<longrightarrow> v < 256) \<and>
     (\<forall>n. o_header x = Some n \<longrightarrow> n < 65536) \<and>
     (\<forall>n. o_sndbuf x = Some n \<longrightarrow> n < 2147483648) \<and>
     (\<forall>n. o_recbuf x = Some n \<longrightarrow> n < 2147483648)"

text \<open>What the options mean: each one given sets its field, the others stay.\<close>

definition given :: "'v \<Rightarrow> ('a \<Rightarrow> 'v) \<Rightarrow> 'a option \<Rightarrow> 'v" where
  "given d f v = (case v of None \<Rightarrow> d | Some a \<Rightarrow> f a)"

lemma given_simps [simp]: "given d f None = d" "given d f (Some a) = f a"
  by (simp_all add: given_def)

fun mode_value :: "utpmode \<Rightarrow> delivery_mode" where
  "mode_value Mode_list = DATA_LIST"
| "mode_value Mode_binary = DATA_BINARY"

fun tmout_value :: "utptimeout \<Rightarrow> int" where
  "tmout_value Infinity = -1"
| "tmout_value (Millis t) = int t"

fun active_value :: "utpactive \<Rightarrow> active" where
  "active_value Act_false = ACTIVE_FALSE"
| "active_value Act_once = ACTIVE_ONCE"
| "active_value Act_true = ACTIVE_TRUE"

definition apply_options :: "utp_options \<Rightarrow> SockOpts \<Rightarrow> SockOpts" where
  "apply_options x so = so\<lparr>
     addrstr := given (addrstr so) id (o_ip x),
     addr_set := given (addr_set so) (\<lambda>_. True) (o_ip x),
     send_tmout := given (send_tmout so) tmout_value (o_send_tmout x),
     active := given (active so) active_value (o_active x),
     header := given (header so) id (o_header x),
     sndbuf := given (sndbuf so) int (o_sndbuf x),
     recbuf := given (recbuf so) int (o_recbuf x),
     so_port := given (so_port so) id (o_port x),
     delivery_mode := given (delivery_mode so) mode_value (o_mode x),
     packet := given (packet so) id (o_packet x),
     inet6 := given (inet6 so) (\<lambda>f. f = Inet6 \<or> inet6 so) (o_family x)\<rparr>"

definition opts_given_list :: "utp_options \<Rightarrow> opt list list" where
  "opts_given_list x =
     [given [] (\<lambda>m. if m = Mode_list then [UTP_LIST_OPT] else [UTP_BINARY_OPT]) (o_mode x),
      given [] (\<lambda>f. if f = Inet6 then [UTP_INET6_OPT] else []) (o_family x),
      given [] (\<lambda>_. [UTP_IP_OPT]) (o_ip x),
      given [] (\<lambda>_. [UTP_PORT_OPT]) (o_port x),
      given [] (\<lambda>t. if t = Infinity then [UTP_SEND_TMOUT_INFINITE_OPT] else [UTP_SEND_TMOUT_OPT])
        (o_send_tmout x),
      given [] (\<lambda>_. [UTP_ACTIVE_OPT]) (o_active x),
      given [] (\<lambda>_. [UTP_PACKET_OPT]) (o_packet x),
      given [] (\<lambda>_. [UTP_HEADER_OPT]) (o_header x),
      given [] (\<lambda>_. [UTP_SNDBUF_OPT]) (o_sndbuf x),
      given [] (\<lambda>_. [UTP_RECBUF_OPT]) (o_recbuf x)]"

definition opts_given :: "utp_options \<Rightarrow> opt list" where
  "opts_given x = concat (opts_given_list x)"

text \<open>The effects of the ten segments of \<open>options_to_binary\<close>, in its order.\<close>

definition set_field ::
  "(('v \<Rightarrow> 'v) \<Rightarrow> SockOpts \<Rightarrow> SockOpts) \<Rightarrow> (SockOpts \<Rightarrow> 'v) \<Rightarrow> utp_options \<Rightarrow> SockOpts \<Rightarrow> SockOpts" where
  "set_field upd sel x = (\<lambda>so. upd (\<lambda>_. sel (apply_options x so)) so)"

definition seg_effs :: "utp_options \<Rightarrow> (SockOpts \<times> opt list \<Rightarrow> SockOpts \<times> opt list) list" where
  "seg_effs x =
     [seg_eff (set_field delivery_mode_update delivery_mode x) (opts_given_list x ! 0),
      seg_eff (set_field inet6_update inet6 x) (opts_given_list x ! 1),
      seg_eff (set_field addr_set_update addr_set x \<circ> set_field addrstr_update addrstr x)
        (opts_given_list x ! 2),
      seg_eff (set_field so_port_update so_port x) (opts_given_list x ! 3),
      seg_eff (set_field send_tmout_update send_tmout x) (opts_given_list x ! 4),
      seg_eff (set_field active_update active x) (opts_given_list x ! 5),
      seg_eff (set_field packet_update packet x) (opts_given_list x ! 6),
      seg_eff (set_field header_update header x) (opts_given_list x ! 7),
      seg_eff (set_field sndbuf_update sndbuf x) (opts_given_list x ! 8),
      seg_eff (set_field recbuf_update recbuf x) (opts_given_list x ! 9)]"

lemma active_of_byte_simps [simp]:
  "active_of_byte 0 = ACTIVE_FALSE" "active_of_byte 1 = ACTIVE_ONCE" "active_of_byte 2 = ACTIVE_TRUE"
  by (simp_all add: active_of_byte_def)

text \<open>A field set to itself changes nothing.\<close>

lemma SockOpts_self [simp]:
  fixes so :: SockOpts
  shows "so\<lparr>delivery_mode := delivery_mode so\<rparr> = so" "so\<lparr>inet6 := inet6 so\<rparr> = so"
    "so\<lparr>addrstr := addrstr so\<rparr> = so" "so\<lparr>addr_set := addr_set so\<rparr> = so" "so\<lparr>so_port := so_port so\<rparr> = so"
    "so\<lparr>send_tmout := send_tmout so\<rparr> = so" "so\<lparr>active := active so\<rparr> = so"
    "so\<lparr>packet := packet so\<rparr> = so" "so\<lparr>header := header so\<rparr> = so"
    "so\<lparr>sndbuf := sndbuf so\<rparr> = so" "so\<lparr>recbuf := recbuf so\<rparr> = so"
  by (cases so, simp)+

lemma consumes_unchanged: "(\<And>so. f so = so) \<Longrightarrow> consumes decode_run [] (seg_eff f [])"
  by (simp add: consumes_def decode_run_def seg_eff_def)

lemma consumes_active:
  "consumes decode_run [10, 0] (seg_eff (\<lambda>so. so\<lparr>active := ACTIVE_FALSE\<rparr>) [UTP_ACTIVE_OPT])"
  "consumes decode_run [10, 1] (seg_eff (\<lambda>so. so\<lparr>active := ACTIVE_ONCE\<rparr>) [UTP_ACTIVE_OPT])"
  "consumes decode_run [10, 2] (seg_eff (\<lambda>so. so\<lparr>active := ACTIVE_TRUE\<rparr>) [UTP_ACTIVE_OPT])"
  using consumes_byte(1) [of 0] consumes_byte(1) [of 1] consumes_byte(1) [of 2] by simp_all

lemma consumes_packet:
  "n < 256 \<Longrightarrow> consumes decode_run [11, of_nat n] (seg_eff (\<lambda>so. so\<lparr>packet := n\<rparr>) [UTP_PACKET_OPT])"
  using consumes_byte(2) [of "of_nat n"] by (simp add: unat_byte_of_nat)

lemmas consumes_intros = consumes_packet consumes_active consumes_none consumes_flag consumes_byte consumes_16 consumes_32 consumes_host

declare decode_loop.simps(2) [simp del]

lemma decode_run_options:
  assumes "opts_ok x"
  shows "decode_run (options_to_binary x) s = Ret (fold (\<lambda>f s. f s) (seg_effs x) s)"
proof -
  note ok = assms [unfolded opts_ok_def]
  note seg = seg_effs_def set_field_def comp_def opts_given_list_def apply_options_def consumes_unchanged unat_byte_of_nat
  have 1: "consumes decode_run
      (case o_mode x of None \<Rightarrow> [] | Some Mode_list \<Rightarrow> [opt_code UTP_LIST_OPT]
        | Some Mode_binary \<Rightarrow> [opt_code UTP_BINARY_OPT]) (seg_effs x ! 0)"
    using ok by (auto simp: seg consumes_intros split: option.splits
        utpmode.splits utpfamily.splits utptimeout.splits utpactive.splits)
  have 2: "consumes decode_run
      (case o_family x of None \<Rightarrow> [] | Some Inet \<Rightarrow> [] | Some Inet6 \<Rightarrow> [opt_code UTP_INET6_OPT])
      (seg_effs x ! 1)"
    using ok by (auto simp: seg consumes_intros split: option.splits
        utpmode.splits utpfamily.splits utptimeout.splits utpactive.splits)
  have 3: "consumes decode_run
      (case o_ip x of None \<Rightarrow> [] | Some s \<Rightarrow> opt_code UTP_IP_OPT # str_bytes s @ [0]) (seg_effs x ! 2)"
    using ok by (auto simp: seg consumes_intros split: option.splits
        utpmode.splits utpfamily.splits utptimeout.splits utpactive.splits)
  have 4: "consumes decode_run
      (case o_port x of None \<Rightarrow> [] | Some p \<Rightarrow> opt_code UTP_PORT_OPT # bytes16 p) (seg_effs x ! 3)"
    using ok by (auto simp: seg consumes_intros split: option.splits
        utpmode.splits utpfamily.splits utptimeout.splits utpactive.splits)
  have 5: "consumes decode_run
      (case o_send_tmout x of None \<Rightarrow> [] | Some Infinity \<Rightarrow> [opt_code UTP_SEND_TMOUT_INFINITE_OPT]
        | Some (Millis t) \<Rightarrow> opt_code UTP_SEND_TMOUT_OPT # bytes32 t) (seg_effs x ! 4)"
    using ok by (auto simp: seg consumes_intros split: option.splits
        utpmode.splits utpfamily.splits utptimeout.splits utpactive.splits)
  have 6: "consumes decode_run
      (case o_active x of None \<Rightarrow> [] | Some Act_false \<Rightarrow> [opt_code UTP_ACTIVE_OPT, 0]
        | Some Act_once \<Rightarrow> [opt_code UTP_ACTIVE_OPT, 1] | Some Act_true \<Rightarrow> [opt_code UTP_ACTIVE_OPT, 2])
      (seg_effs x ! 5)"
    using ok by (auto simp: seg consumes_intros split: option.splits
        utpmode.splits utpfamily.splits utptimeout.splits utpactive.splits)
  have 7: "consumes decode_run
      (case o_packet x of None \<Rightarrow> [] | Some v \<Rightarrow> [opt_code UTP_PACKET_OPT, of_nat v]) (seg_effs x ! 6)"
    using ok by (auto simp: seg consumes_intros split: option.splits
        utpmode.splits utpfamily.splits utptimeout.splits utpactive.splits)
  have 8: "consumes decode_run
      (case o_header x of None \<Rightarrow> [] | Some n \<Rightarrow> opt_code UTP_HEADER_OPT # bytes16 n) (seg_effs x ! 7)"
    using ok by (auto simp: seg consumes_intros split: option.splits
        utpmode.splits utpfamily.splits utptimeout.splits utpactive.splits)
  have 9: "consumes decode_run
      (case o_sndbuf x of None \<Rightarrow> [] | Some n \<Rightarrow> opt_code UTP_SNDBUF_OPT # bytes32 n) (seg_effs x ! 8)"
    using ok by (auto simp: seg consumes_intros split: option.splits
        utpmode.splits utpfamily.splits utptimeout.splits utpactive.splits)
  have 10: "consumes decode_run
      (case o_recbuf x of None \<Rightarrow> [] | Some n \<Rightarrow> opt_code UTP_RECBUF_OPT # bytes32 n) (seg_effs x ! 9)"
    using ok by (auto simp: seg consumes_intros split: option.splits
        utpmode.splits utpfamily.splits utptimeout.splits utpactive.splits)
  have effs: "seg_effs x = map (\<lambda>i. seg_effs x ! i) [0, 1, 2, 3, 4, 5, 6, 7, 8, 9]"
    by (simp add: seg_effs_def)
  show ?thesis
    unfolding options_to_binary_def
    by (rule opts.run_concat, subst effs)
      (simp only: list.map list_all2_Cons list_all2_Nil 1 2 3 4 5 6 7 8 9 10 simp_thms)
qed

text \<open>
  Each segment takes its value from the options, whatever the others have set before it.
\<close>

lemma fold_seg_effs: "fold (\<lambda>f s. f s) (seg_effs x) (so, os) = (apply_options x so, os @ opts_given x)"
  by (simp add: seg_effs_def seg_eff_def set_field_def opts_given_def opts_given_list_def apply_options_def
      comp_def)

lemma decode_options:
  "opts_ok x \<Longrightarrow>
   decode N (options_to_binary x) SockOpts_new =
     (case o_ip x of
        None \<Rightarrow> Ret (apply_options x SockOpts_new, opts_given x)
      | Some s \<Rightarrow> cpp_bind (from_addrport N s (given 0 id (o_port x)))
          (\<lambda>a. Ret ((apply_options x SockOpts_new)\<lparr>so_addr := a\<rparr>, opts_given x)))"
  using decode_run_options [of x "(SockOpts_new, [])"]
  by (simp add: decode_def decode_run_def fold_seg_effs apply_options_def SockOpts_new_def
      split: option.splits)

text \<open>The merge, segment by segment.\<close>

lemma merge_loop_append:
  "merge_loop so (xs @ ys) this = cpp_bind (merge_loop so xs this) (merge_loop so ys)"
  by (induction so xs this rule: merge_loop.induct) simp_all

definition given_field ::
  "'a option \<Rightarrow> (('v \<Rightarrow> 'v) \<Rightarrow> SockOpts \<Rightarrow> SockOpts) \<Rightarrow> (SockOpts \<Rightarrow> 'v) \<Rightarrow> SockOpts \<Rightarrow> SockOpts \<Rightarrow> SockOpts"
where
  "given_field v upd sel so this = given this (\<lambda>_. upd (\<lambda>_. sel so) this) v"

lemma merge_segs:
  "merge_loop so (given [] (\<lambda>m. if m = Mode_list then [UTP_LIST_OPT] else [UTP_BINARY_OPT]) vm) this =
     Ret (given_field vm delivery_mode_update delivery_mode so this)"
  "merge_loop so (given [] (\<lambda>t. if t = Infinity then [UTP_SEND_TMOUT_INFINITE_OPT]
       else [UTP_SEND_TMOUT_OPT]) vt) this = Ret (given_field vt send_tmout_update send_tmout so this)"
  "merge_loop so (given [] (\<lambda>_. [UTP_ACTIVE_OPT]) va) this = Ret (given_field va active_update active so this)"
  "merge_loop so (given [] (\<lambda>_. [UTP_PACKET_OPT]) vp) this = Ret (given_field vp packet_update packet so this)"
  "merge_loop so (given [] (\<lambda>_. [UTP_HEADER_OPT]) vh) this = Ret (given_field vh header_update header so this)"
  "merge_loop so (given [] (\<lambda>_. [UTP_SNDBUF_OPT]) vs) this = Ret (given_field vs sndbuf_update sndbuf so this)"
  "merge_loop so (given [] (\<lambda>_. [UTP_RECBUF_OPT]) vr) this = Ret (given_field vr recbuf_update recbuf so this)"
  by ((cases vm; simp add: given_field_def), (cases vt; simp add: given_field_def),
      (cases va; simp add: given_field_def), (cases vp; simp add: given_field_def),
      (cases vh; simp add: given_field_def), (cases vs; simp add: given_field_def),
      (cases vr; simp add: given_field_def))


lemma given_field_updates:
  "given_field vm delivery_mode_update delivery_mode so this =
     this\<lparr>delivery_mode := given (delivery_mode this) (\<lambda>_. delivery_mode so) vm\<rparr>"
  "given_field vt send_tmout_update send_tmout so this =
     this\<lparr>send_tmout := given (send_tmout this) (\<lambda>_. send_tmout so) vt\<rparr>"
  "given_field va active_update active so this = this\<lparr>active := given (active this) (\<lambda>_. active so) va\<rparr>"
  "given_field vp packet_update packet so this = this\<lparr>packet := given (packet this) (\<lambda>_. packet so) vp\<rparr>"
  "given_field vh header_update header so this = this\<lparr>header := given (header this) (\<lambda>_. header so) vh\<rparr>"
  "given_field vs sndbuf_update sndbuf so this = this\<lparr>sndbuf := given (sndbuf this) (\<lambda>_. sndbuf so) vs\<rparr>"
  "given_field vr recbuf_update recbuf so this = this\<lparr>recbuf := given (recbuf this) (\<lambda>_. recbuf so) vr\<rparr>"
  by ((cases vm; simp add: given_field_def), (cases vt; simp add: given_field_def),
      (cases va; simp add: given_field_def), (cases vp; simp add: given_field_def),
      (cases vh; simp add: given_field_def), (cases vs; simp add: given_field_def),
      (cases vr; simp add: given_field_def))

lemma given_given [simp]: "given d (\<lambda>_. given e f v) v = given d f v"
  by (cases v) simp_all

lemma merge_options:
  assumes "o_ip x = None"
  shows "merge_loop (apply_options x SockOpts_new) (opts_given x) this =
     (if o_family x = Some Inet6 then Throw (InvalidArgument ''inet6'')
      else if o_port x \<noteq> None then Throw (InvalidArgument ''port'')
      else Ret (apply_options x this))"
proof -
  have segs: "opts_given x =
      given [] (\<lambda>m. if m = Mode_list then [UTP_LIST_OPT] else [UTP_BINARY_OPT]) (o_mode x) @
      given [] (\<lambda>f. if f = Inet6 then [UTP_INET6_OPT] else []) (o_family x) @
      given [] (\<lambda>_. [UTP_PORT_OPT]) (o_port x) @
      given [] (\<lambda>t. if t = Infinity then [UTP_SEND_TMOUT_INFINITE_OPT] else [UTP_SEND_TMOUT_OPT])
        (o_send_tmout x) @
      given [] (\<lambda>_. [UTP_ACTIVE_OPT]) (o_active x) @ given [] (\<lambda>_. [UTP_PACKET_OPT]) (o_packet x) @
      given [] (\<lambda>_. [UTP_HEADER_OPT]) (o_header x) @ given [] (\<lambda>_. [UTP_SNDBUF_OPT]) (o_sndbuf x) @
      given [] (\<lambda>_. [UTP_RECBUF_OPT]) (o_recbuf x)"
    by (simp add: opts_given_def opts_given_list_def assms)
  consider "o_family x = Some Inet6"
    | p where "o_family x \<noteq> Some Inet6" "o_port x = Some p"
    | "o_family x \<noteq> Some Inet6" "o_port x = None"
    by (cases "o_port x") auto
  then show ?thesis
  proof cases
    case 1
    then show ?thesis by (simp add: segs merge_loop_append merge_segs)
  next
    case 2
    then show ?thesis
      by (cases "o_family x") (simp_all add: segs merge_loop_append merge_segs utpfamily.split)
  next
    case 3
    have fam: "given [] (\<lambda>f. if f = Inet6 then [UTP_INET6_OPT] else []) (o_family x) = []"
      using 3 by (cases "o_family x") auto
    have inet: "given (inet6 so) (\<lambda>f. f = Inet6 \<or> inet6 so) (o_family x) = inet6 so" for so
      using 3 by (cases "o_family x") auto
    show ?thesis
      using 3 assms
      by (simp add: segs merge_loop_append merge_segs fam given_field_updates apply_options_def inet)
  qed
qed

lemma merge_options_ip:
  assumes "o_ip x \<noteq> None"
  shows "merge_loop so (opts_given x) this =
     Throw (InvalidArgument (if o_family x = Some Inet6 then ''inet6'' else ''ip''))"
proof -
  obtain ss where segs: "opts_given x =
      given [] (\<lambda>m. if m = Mode_list then [UTP_LIST_OPT] else [UTP_BINARY_OPT]) (o_mode x) @
      given [] (\<lambda>f. if f = Inet6 then [UTP_INET6_OPT] else []) (o_family x) @ UTP_IP_OPT # ss"
    using assms by (auto simp: opts_given_def opts_given_list_def)
  show ?thesis by (cases "o_family x") (simp_all add: segs merge_loop_append merge_segs)
qed

section \<open>Properties\<close>

text \<open>C29: \<open>decode\<close> inverts \<open>options_to_binary\<close>: for options within the wire format's bounds,
  fresh options become exactly the ones the Erlang side encoded, every option given is reported
  once, in the order of the encoder, and the address is the one built from the host and port.\<close>

theorem options_roundtrip:
  "opts_ok x \<Longrightarrow>
   decode N (options_to_binary x) SockOpts_new =
     (case o_ip x of
        None \<Rightarrow> Ret (apply_options x SockOpts_new, opts_given x)
      | Some s \<Rightarrow> cpp_bind (from_addrport N s (given 0 id (o_port x)))
          (\<lambda>a. Ret ((apply_options x SockOpts_new)\<lparr>so_addr := a\<rparr>, opts_given x)))"
  by (rule decode_options)

definition sample_options :: utp_options where
  "sample_options =
     \<lparr>o_mode = Some Mode_binary, o_ip = None, o_port = None, o_family = Some Inet,
      o_send_tmout = Some (Millis 5000), o_active = Some Act_once, o_packet = Some 2,
      o_header = None, o_sndbuf = Some 65536, o_recbuf = None\<rparr>"

lemma opts_ok_sample: "opts_ok sample_options"
  by (simp add: opts_ok_def sample_options_def)

theorem options_roundtrip_witness:
  "decode (net sample_platform) (options_to_binary sample_options) SockOpts_new =
     Ret (SockOpts_new\<lparr>delivery_mode := DATA_BINARY, send_tmout := 5000, active := ACTIVE_ONCE,
            packet := 2, sndbuf := 65536\<rparr>,
          [UTP_BINARY_OPT, UTP_SEND_TMOUT_OPT, UTP_ACTIVE_OPT, UTP_PACKET_OPT, UTP_SNDBUF_OPT])"
  unfolding options_roundtrip [OF opts_ok_sample]
  by (simp add: sample_options_def apply_options_def opts_given_def opts_given_list_def SockOpts_new_def)

text \<open>The options that only make sense when a socket is created, by the name that \<open>setopts\<close> refuses them with.\<close>

fun creation_name :: "opt \<Rightarrow> string option" where
  "creation_name UTP_IP_OPT = Some ''ip''"
| "creation_name UTP_PORT_OPT = Some ''port''"
| "creation_name UTP_INET_OPT = Some ''inet''"
| "creation_name UTP_INET6_OPT = Some ''inet6''"
| "creation_name _ = None"

text \<open>What the other options given set: their own fields and no others.\<close>

definition chosen :: "opt set \<Rightarrow> opt list \<Rightarrow> 'v \<Rightarrow> 'v \<Rightarrow> 'v" where
  "chosen K os new old = (if list_ex (\<lambda>k. k \<in> K) os then new else old)"

definition merged :: "SockOpts \<Rightarrow> opt list \<Rightarrow> SockOpts \<Rightarrow> SockOpts" where
  "merged so os this = this
     \<lparr>delivery_mode := chosen {UTP_LIST_OPT, UTP_BINARY_OPT, UTP_MODE_OPT} os (delivery_mode so) (delivery_mode this),
      send_tmout := chosen {UTP_SEND_TMOUT_OPT, UTP_SEND_TMOUT_INFINITE_OPT} os (send_tmout so) (send_tmout this),
      active := chosen {UTP_ACTIVE_OPT} os (active so) (active this),
      packet := chosen {UTP_PACKET_OPT} os (packet so) (packet this),
      header := chosen {UTP_HEADER_OPT} os (header so) (header this),
      sndbuf := chosen {UTP_SNDBUF_OPT} os (sndbuf so) (sndbuf this),
      recbuf := chosen {UTP_RECBUF_OPT} os (recbuf so) (recbuf this)\<rparr>"

lemma merged_Nil: "merged so [] this = this"
  by (simp add: merged_def chosen_def)

lemma merge_loop_merged:
  "merge_loop so os this =
     (case List.map_filter creation_name os of
        [] \<Rightarrow> Ret (merged so os this)
      | name # _ \<Rightarrow> Throw (InvalidArgument name))"
proof (induction so os this rule: merge_loop.induct)
  case (1 so this)
  show ?case by (simp add: merged_Nil map_filter_simps)
qed (simp_all add: map_filter_simps merged_def chosen_def split: list.splits)

text \<open>C30: \<open>decode_and_merge\<close>, used by \<open>setopts\<close>, on any binary: when it decodes, the first of the
  creation-only options in it (\<open>ip\<close>, \<open>port\<close>, \<open>inet\<close>, \<open>inet6\<close>) is refused by name, and without one
  exactly the fields whose options were given are taken over. For what the Erlang side sends this
  means: \<open>inet6\<close> is refused first, then \<open>ip\<close> (once its address was resolved, which may throw), then
  \<open>port\<close>; \<open>inet\<close> is never sent, so there it is accepted silently.\<close>

theorem decode_and_merge_frame:
  "decode_and_merge N bs this =
     cpp_bind (decode N bs SockOpts_new) (\<lambda>(so, os).
       case List.map_filter creation_name os of
         [] \<Rightarrow> Ret (merged so os this)
       | name # _ \<Rightarrow> Throw (InvalidArgument name)) \<and>
   (opts_ok x \<longrightarrow> decode_and_merge N (options_to_binary x) this =
     (case o_ip x of
        Some s \<Rightarrow> cpp_bind (from_addrport N s (given 0 id (o_port x))) (\<lambda>_.
          Throw (InvalidArgument (if o_family x = Some Inet6 then ''inet6'' else ''ip'')))
      | None \<Rightarrow>
          if o_family x = Some Inet6 then Throw (InvalidArgument ''inet6'')
          else if o_port x \<noteq> None then Throw (InvalidArgument ''port'')
          else Ret (apply_options x this)))"
proof
  show "decode_and_merge N bs this = cpp_bind (decode N bs SockOpts_new) (\<lambda>(so, os).
      case List.map_filter creation_name os of
        [] \<Rightarrow> Ret (merged so os this)
      | name # _ \<Rightarrow> Throw (InvalidArgument name))"
    by (simp add: decode_and_merge_def merge_loop_merged)
  show "opts_ok x \<longrightarrow> decode_and_merge N (options_to_binary x) this =
     (case o_ip x of
        Some s \<Rightarrow> cpp_bind (from_addrport N s (given 0 id (o_port x))) (\<lambda>_.
          Throw (InvalidArgument (if o_family x = Some Inet6 then ''inet6'' else ''ip'')))
      | None \<Rightarrow>
          if o_family x = Some Inet6 then Throw (InvalidArgument ''inet6'')
          else if o_port x \<noteq> None then Throw (InvalidArgument ''port'')
          else Ret (apply_options x this))"
  proof (cases "o_ip x")
    case (Some s)
    then show ?thesis
      by (cases "from_addrport N s (given 0 id (o_port x))")
        (simp_all add: decode_and_merge_def decode_options merge_options_ip)
  qed (simp add: decode_and_merge_def decode_options merge_options)
qed

theorem decode_and_merge_frame_witness:
  "decode_and_merge (net sample_platform) [opt_code UTP_PACKET_OPT, 2, opt_code UTP_INET_OPT] SockOpts_new =
     Throw (InvalidArgument ''inet'') \<and>
   decode_and_merge (net sample_platform) (options_to_binary sample_options) SockOpts_new =
     Ret (SockOpts_new\<lparr>delivery_mode := DATA_BINARY, send_tmout := 5000, active := ACTIVE_ONCE,
            packet := 2, sndbuf := 65536\<rparr>)"
proof -
  have "decode (net sample_platform) [opt_code UTP_PACKET_OPT, 2, opt_code UTP_INET_OPT] SockOpts_new =
      Ret (SockOpts_new\<lparr>packet := 2\<rparr>, [UTP_PACKET_OPT, UTP_INET_OPT])"
    by (simp add: decode_def decode_loop.simps SockOpts_new_def)
  then show ?thesis
    using decode_and_merge_frame [of "net sample_platform" "[opt_code UTP_PACKET_OPT, 2, opt_code UTP_INET_OPT]"
        SockOpts_new sample_options] opts_ok_sample
    by (simp add: sample_options_def apply_options_def map_filter_simps)
qed

section \<open>Reading within the binary\<close>

text \<open>
  The bytes that the option at the front takes, with its code. A string must end within the
  binary and fit into \<open>addrstr\<close>.
\<close>

fun opt_size :: "byte list \<Rightarrow> nat option" where
  "opt_size [] = None"
| "opt_size (c # data) =
     (if c = 1 then
        (let n = length (takeWhile (\<lambda>b. b \<noteq> 0) data)
         in if n < length data \<and> n < INET6_ADDRSTRLEN then Some (n + 2) else None)
      else if c \<in> {2, 12} then Some 3
      else if c \<in> {8, 13, 14} then Some 5
      else if c \<in> {10, 11} then Some 2
      else Some 1)"

inductive whole_options :: "byte list \<Rightarrow> bool" where
  whole_Nil: "whole_options []"
| whole_Cons: "opt_size bs = Some n \<Longrightarrow> n \<le> length bs \<Longrightarrow> whole_options (drop n bs) \<Longrightarrow> whole_options bs"

inductive_simps whole_options_Nil [simp]: "whole_options []"
inductive_simps whole_options_Cons: "whole_options (c # data)"

lemma decode_loop_defined:
  "(whole_options bs \<longrightarrow> (\<exists>so' os'. decode_loop bs so os = Ret (so', os'))) \<and>
   (\<not> whole_options bs \<longrightarrow> decode_loop bs so os = Undef)"
proof (induction bs arbitrary: so os rule: length_induct)
  case (1 bs)
  show ?case
  proof (cases bs)
    case (Cons c data)
    have IH: "(whole_options xs \<longrightarrow> (\<exists>so' os'. decode_loop xs so os = Ret (so', os'))) \<and>
        (\<not> whole_options xs \<longrightarrow> decode_loop xs so os = Undef)"
      if "length xs \<le> length data" for xs so os
      using 1 that Cons by simp
    consider "c = 1" | "c = 2" | "c = 12" | "c = 8" | "c = 13" | "c = 14" | "c = 10" | "c = 11"
      | "c \<notin> {1, 2, 8, 10, 11, 12, 13, 14}" by blast
    then show ?thesis
    proof cases
      case 1
      have "length (takeWhile (\<lambda>b. b \<noteq> 0) data) \<le> length data" by (rule length_takeWhile_le)
      then show ?thesis
        unfolding Cons 1 using IH [of "drop (Suc (length (takeWhile (\<lambda>b. b \<noteq> 0) data))) data"]
        by (simp add: whole_options_Cons decode_loop.simps(2) Let_def)
    qed (use IH in \<open>simp add: Cons whole_options_Cons decode_loop.simps(2) split: list.split\<close>)+
  qed simp
qed

text \<open>What \<open>getaddrinfo\<close> gives fits into a \<open>sockaddr_storage\<close>.\<close>

definition net_fits :: "net_api \<Rightarrow> bool" where
  "net_fits N \<longleftrightarrow> (\<forall>s. length (snd (getaddrinfo N s)) \<le> STORAGE_SIZE)"

lemma from_addrport_outcome:
  assumes "net_fits N"
  shows "(\<exists>a. from_addrport N s p = Ret a) \<or> from_addrport N s p = Throw BadSockAddr"
proof -
  obtain rc ai where g: "getaddrinfo N s = (rc, ai)" by fastforce
  have "length (snd (getaddrinfo N s)) \<le> STORAGE_SIZE" using assms unfolding net_fits_def by blast
  then show ?thesis by (simp add: g from_addrport_def Let_def)
qed

text \<open>
  C35: \<open>decode\<close> stays within the binary exactly if that is a sequence of whole options: every value
  is complete, and every address ends within the binary and fits into its array. Otherwise it reads
  or writes out of bounds, which nothing in the code prevents. On whole options, whatever their
  codes, it returns, unless an address is set that cannot be resolved: then, and only then, it
  throws, and always \<open>BadSockAddr\<close>.
\<close>

theorem decode_within_binary:
  "net_fits N \<Longrightarrow>
   (decode N bs so = Undef \<longleftrightarrow> \<not> whole_options bs) \<and>
   (whole_options bs \<longrightarrow> (\<exists>so' os. decode_loop bs so [] = Ret (so', os) \<and>
      (if addr_set so' \<and> from_addrport N (addrstr so') (so_port so') = Throw BadSockAddr
       then decode N bs so = Throw BadSockAddr
       else \<exists>a. decode N bs so = Ret (so'\<lparr>so_addr := a\<rparr>, os))))"
proof -
  assume N: "net_fits N"
  show ?thesis
  proof (cases "whole_options bs")
    case True
    then obtain so' os where d: "decode_loop bs so [] = Ret (so', os)"
      using decode_loop_defined [of bs so "[]"] by blast
    have self: "\<exists>a. (so', os) = (so'\<lparr>so_addr := a\<rparr>, os)" by (rule exI [of _ "so_addr so'"]) simp
    consider a where "from_addrport N (addrstr so') (so_port so') = Ret a"
      | "from_addrport N (addrstr so') (so_port so') = Throw BadSockAddr"
      using from_addrport_outcome [OF N] by blast
    then show ?thesis
    proof cases
      case 1
      then show ?thesis using True d self by (cases "addr_set so'") (auto simp: decode_def)
    next
      case 2
      then show ?thesis using True d self by (cases "addr_set so'") (auto simp: decode_def)
    qed
  qed (use decode_loop_defined [of bs so "[]"] in \<open>simp add: decode_def\<close>)
qed

theorem decode_within_binary_witness:
  "decode (net sample_platform) [opt_code UTP_PACKET_OPT, 2, opt_code UTP_HEADER_OPT, 0] SockOpts_new = Undef"
proof -
  have "net_fits (net sample_platform)"
    by (simp add: net_fits_def sample_platform_def STORAGE_SIZE_def)
  moreover have "\<not> whole_options [opt_code UTP_PACKET_OPT, 2, opt_code UTP_HEADER_OPT, 0]"
    by (simp add: whole_options_Cons)
  ultimately show ?thesis using decode_within_binary by blast
qed

end
