(* ===== verification/Main_Maps.thy ===== *)
theory Main_Maps
  imports Driver_Env
begin

text \<open>
  The tables of the \<open>MainHandler\<close> singleton (\<open>main_handler.cc\<close>): which handler reads from
  which socket, and which monitors watch which processes for which handlers. Every static
  function does nothing when there is no singleton.
\<close>

section \<open>Sockets\<close>

definition INVALID_SOCKET :: int where "INVALID_SOCKET = -1"

definition select :: "int \<Rightarrow> handler_id \<Rightarrow> main_handler \<Rightarrow> env \<Rightarrow> main_handler \<times> env" where
  "select fd handler m w =
     (let w1 = (if mh_port m \<noteq> 0 then env_log (Select fd True) w else w)
      in (m\<lparr>fdmap := smap_insert fd handler (fdmap m)\<rparr>,
          env_log (Unlock MapMutex) (env_log (Lock MapMutex) w1)))"

definition deselect :: "int \<Rightarrow> main_handler \<Rightarrow> env \<Rightarrow> main_handler \<times> env" where
  "deselect fd m w =
     (if fd \<noteq> INVALID_SOCKET then
        (let w1 = (if mh_port m \<noteq> 0 then env_log (Select fd False) w else w)
         in (m\<lparr>fdmap := smap_erase fd (fdmap m)\<rparr>,
             env_log (Unlock MapMutex) (env_log (Lock MapMutex) w1)))
      else (m, w))"

definition start_input :: "int \<Rightarrow> handler_id \<Rightarrow> env \<Rightarrow> env" where
  "start_input fd handler w =
     (case main w of
        None \<Rightarrow> w
      | Some m \<Rightarrow> (case select fd handler m w of (m', w') \<Rightarrow> w'\<lparr>main := Some m'\<rparr>))"

definition stop_input :: "int \<Rightarrow> env \<Rightarrow> env" where
  "stop_input fd w =
     (case main w of
        None \<Rightarrow> w
      | Some m \<Rightarrow> (case deselect fd m w of (m', w') \<Rightarrow> w'\<lparr>main := Some m'\<rparr>))"

text \<open>The lookup of \<open>ready_input\<close>; the handler found is called with the mutex released.\<close>

definition input_handler :: "int \<Rightarrow> main_handler \<Rightarrow> env \<Rightarrow> handler_id option \<times> env" where
  "input_handler fd m w =
     (smap_find (fdmap m) fd, env_log (Unlock MapMutex) (env_log (Lock MapMutex) w))"

section \<open>Monitors\<close>

definition add_mon ::
  "'q drv_api \<Rightarrow> pid \<Rightarrow> handler_id \<Rightarrow> main_handler \<Rightarrow> env \<Rightarrow> bool \<times> main_handler \<times> env" where
  "add_mon D proc h m w =
     (let w1 = env_log (Lock MapMutex) w; k = n_monitors w1; w2 = w1\<lparr>n_monitors := Suc k\<rparr>
      in case monitor_process D k proc of
           None \<Rightarrow> (False, m, env_log (Unlock MapMutex) w2)
         | Some mon \<Rightarrow>
             (True,
              m\<lparr>mon_map := smap_insert mon h (mon_map m),
                proc_mon_map := smap_insert proc mon (proc_mon_map m)\<rparr>,
              env_log (Unlock MapMutex) (env_log (MonitorProcess proc mon) w2)))"

definition add_monitor :: "'q drv_api \<Rightarrow> pid \<Rightarrow> handler_id \<Rightarrow> env \<Rightarrow> bool \<times> env" where
  "add_monitor D proc h w =
     (case main w of
        None \<Rightarrow> (False, w)
      | Some m \<Rightarrow> (case add_mon D proc h m w of (r, m', w') \<Rightarrow> (r, w'\<lparr>main := Some m'\<rparr>)))"

definition del_mon :: "pid \<Rightarrow> main_handler \<Rightarrow> env \<Rightarrow> main_handler \<times> env" where
  "del_mon proc m w =
     (let w1 = env_log (Lock MapMutex) w
      in case smap_find (proc_mon_map m) proc of
           None \<Rightarrow> (m, env_log (Unlock MapMutex) w1)
         | Some mon \<Rightarrow>
             (m\<lparr>mon_map := smap_erase mon (mon_map m),
                proc_mon_map := smap_erase proc (proc_mon_map m)\<rparr>,
              env_log (Unlock MapMutex) (env_log (DemonitorProcess mon) w1)))"

definition del_monitor :: "pid \<Rightarrow> env \<Rightarrow> env" where
  "del_monitor proc w =
     (case main w of
        None \<Rightarrow> w
      | Some m \<Rightarrow> (case del_mon proc m w of (m', w') \<Rightarrow> w'\<lparr>main := Some m'\<rparr>))"

text \<open>The two nested loops of \<open>del_mons\<close>: over the monitors, and for each one over the processes.\<close>

fun del_procs :: "monitor \<Rightarrow> (pid \<times> monitor) list \<Rightarrow> env \<Rightarrow> (pid \<times> monitor) list \<times> env" where
  "del_procs mon [] w = ([], w)"
| "del_procs mon ((p, mon') # ps) w =
     (if mon' = mon then del_procs mon ps (env_log (DemonitorProcess mon) w)
      else (case del_procs mon ps w of (ps', w') \<Rightarrow> ((p, mon') # ps', w')))"

fun del_mons_loop ::
  "handler_id \<Rightarrow> (monitor \<times> handler_id) list \<Rightarrow> (pid \<times> monitor) list \<Rightarrow> env \<Rightarrow>
   (monitor \<times> handler_id) list \<times> (pid \<times> monitor) list \<times> env" where
  "del_mons_loop h [] pm w = ([], pm, w)"
| "del_mons_loop h ((mon, h') # ms) pm w =
     (if h' = h then (case del_procs mon pm w of (pm', w') \<Rightarrow> del_mons_loop h ms pm' w')
      else (case del_mons_loop h ms pm w of (ms', r) \<Rightarrow> ((mon, h') # ms', r)))"

definition del_mons :: "handler_id \<Rightarrow> main_handler \<Rightarrow> env \<Rightarrow> main_handler \<times> env" where
  "del_mons h m w =
     (if h \<noteq> mh_id m then
        (case del_mons_loop h (mon_map m) (proc_mon_map m) (env_log (Lock MapMutex) w) of
           (ms, pm, w') \<Rightarrow> (m\<lparr>mon_map := ms, proc_mon_map := pm\<rparr>, env_log (Unlock MapMutex) w'))
      else (m, w))"

definition del_monitors :: "handler_id \<Rightarrow> env \<Rightarrow> env" where
  "del_monitors h w =
     (case main w of
        None \<Rightarrow> w
      | Some m \<Rightarrow> (case del_mons h m w of (m', w') \<Rightarrow> w'\<lparr>main := Some m'\<rparr>))"

text \<open>
  The lookup of \<open>process_exit\<close>; \<open>proc\<close> is what \<open>driver_get_monitored_process\<close> answers. The
  handler found is told with the mutex released.
\<close>

definition exit_handler ::
  "monitor \<Rightarrow> pid \<Rightarrow> main_handler \<Rightarrow> env \<Rightarrow> handler_id option \<times> main_handler \<times> env" where
  "exit_handler mon proc m w =
     (let w' = env_log (Unlock MapMutex) (env_log (Lock MapMutex) w)
      in case smap_find (mon_map m) mon of
           None \<Rightarrow> (None, m, w')
         | Some h \<Rightarrow>
             (Some h,
              m\<lparr>mon_map := smap_erase mon (mon_map m),
                proc_mon_map := smap_erase proc (proc_mon_map m)\<rparr>, w'))"

section \<open>What the loops of \<open>del_mons\<close> compute\<close>

lemma del_procs_filter:
  "fst (del_procs mon ps w) = filter (\<lambda>e. snd e \<noteq> mon) ps"
  by (induction mon ps w rule: del_procs.induct) (auto split: prod.splits)

lemma del_procs_log:
  "log (snd (del_procs mon ps w)) =
     log w @ map (\<lambda>_. DemonitorProcess mon) (filter (\<lambda>e. snd e = mon) ps)"
  by (induction mon ps w rule: del_procs.induct) (auto split: prod.splits)

lemma del_procs_frame:
  "main (snd (del_procs mon ps w)) = main w" "n_monitors (snd (del_procs mon ps w)) = n_monitors w"
  "cur_caller (snd (del_procs mon ps w)) = cur_caller w"
  by (induction mon ps w rule: del_procs.induct) (auto split: prod.splits)

definition mons_of :: "handler_id \<Rightarrow> (monitor \<times> handler_id) list \<Rightarrow> monitor list" where
  "mons_of h ms = map fst (filter (\<lambda>e. snd e = h) ms)"

lemma mons_of_simps [simp]:
  "mons_of h [] = []" "mons_of h ((mon, h) # ms) = mon # mons_of h ms"
  "h' \<noteq> h \<Longrightarrow> mons_of h ((mon, h') # ms) = mons_of h ms"
  by (simp_all add: mons_of_def)

lemma del_mons_loop_maps:
  "fst (del_mons_loop h ms pm w) = filter (\<lambda>e. snd e \<noteq> h) ms"
  "fst (snd (del_mons_loop h ms pm w)) = filter (\<lambda>e. snd e \<notin> set (mons_of h ms)) pm"
proof (induction h ms pm w rule: del_mons_loop.induct)
  case (2 h mon h' ms pm w)
  {
    case 1
    then show ?case using 2 by (auto split: prod.splits)
  next
    case 2
    then show ?case
      using "2.IH" del_procs_filter [of mon pm w]
      by (auto split: prod.splits intro: filter_cong)
  }
qed simp_all

lemma del_mons_loop_frame:
  "main (snd (snd (del_mons_loop h ms pm w))) = main w"
  "n_monitors (snd (snd (del_mons_loop h ms pm w))) = n_monitors w"
  "cur_caller (snd (snd (del_mons_loop h ms pm w))) = cur_caller w"
  using del_procs_frame
  by (induction h ms pm w rule: del_mons_loop.induct) (auto split: prod.splits, (metis snd_conv)+)

section \<open>The life of a monitor\<close>

fun demonitors :: "action list \<Rightarrow> monitor list" where
  "demonitors [] = []"
| "demonitors (DemonitorProcess mon # as) = mon # demonitors as"
| "demonitors (_ # as) = demonitors as"

lemma demonitors_append [simp]: "demonitors (xs @ ys) = demonitors xs @ demonitors ys"
  by (induction xs rule: demonitors.induct) auto

text \<open>The monitors that the first \<open>n\<close> calls to the runtime can have created.\<close>

definition created :: "'q drv_api \<Rightarrow> nat \<Rightarrow> monitor \<Rightarrow> bool" where
  "created D n mon \<longleftrightarrow> (\<exists>k < n. \<exists>p. monitor_process D k p = Some mon)"

text \<open>The runtime never hands out the same monitor twice.\<close>

definition mon_fresh :: "'q drv_api \<Rightarrow> bool" where
  "mon_fresh D \<longleftrightarrow> (\<forall>k k' p p' mon.
     monitor_process D k p = Some mon \<and> monitor_process D k' p' = Some mon \<longrightarrow> k = k')"

lemma created_Suc: "created D n mon \<Longrightarrow> created D (Suc n) mon"
  unfolding created_def using less_SucI by blast

lemma created_new: "monitor_process D n p = Some mon \<Longrightarrow> created D (Suc n) mon"
  unfolding created_def by blast

lemma fresh_not_created: "mon_fresh D \<Longrightarrow> monitor_process D n p = Some mon \<Longrightarrow> \<not> created D n mon"
  unfolding created_def mon_fresh_def using less_irrefl by blast

text \<open>
  The two maps agree: every process is mapped to a monitor that has a handler, no two processes
  to the same one; what was demonitored has left the tables and was demonitored once.
\<close>

definition mon_ok :: "'q drv_api \<Rightarrow> main_handler \<Rightarrow> nat \<Rightarrow> monitor list \<Rightarrow> bool" where
  "mon_ok D m n ds \<longleftrightarrow>
     smap_inv (mon_map m) \<and> smap_inv (proc_mon_map m) \<and> distinct (map snd (proc_mon_map m)) \<and>
     snd ` set (proc_mon_map m) \<subseteq> fst ` set (mon_map m) \<and>
     (\<forall>mon \<in> fst ` set (mon_map m) \<union> set ds. created D n mon) \<and>
     distinct ds \<and> set ds \<inter> fst ` set (mon_map m) = {}"

lemma created_all: "\<forall>x \<in> A. created D n x \<Longrightarrow> created D (Suc n) a \<Longrightarrow> \<forall>x \<in> insert a A. created D (Suc n) x"
  by (auto intro: created_Suc)

lemma mon_ok_Suc: "mon_ok D m n ds \<Longrightarrow> mon_ok D m (Suc n) ds"
proof -
  assume ok: "mon_ok D m n ds"
  then have "\<forall>mon \<in> fst ` set (mon_map m) \<union> set ds. created D (Suc n) mon"
    using created_Suc [of D n] unfolding mon_ok_def by fast
  then show ?thesis using ok by (simp add: mon_ok_def)
qed

lemma set_smap_insert_subset: "set (smap_insert k v m) \<subseteq> insert (k, v) (set m)"
  by (induction k v m rule: smap_insert.induct) auto

lemma distinct_snd_insert:
  "distinct (map snd m) \<Longrightarrow> v \<notin> snd ` set m \<Longrightarrow> distinct (map snd (smap_insert k v m))"
proof (induction k v m rule: smap_insert.induct)
  case (2 k v k' v' m)
  have "snd ` set (smap_insert k v m) \<subseteq> insert v (snd ` set m)"
    using set_smap_insert_subset [of k v m] by force
  then show ?case using 2 by auto
qed simp

lemma add_mon_ok:
  assumes "mon_fresh D" "mon_ok D m (n_monitors w) ds"
    and "add_mon D proc h m w = (r, m', w')"
  shows "mon_ok D m' (n_monitors w') ds \<and> demonitors (log w') = demonitors (log w)"
proof (cases "monitor_process D (n_monitors w) proc")
  case None
  then show ?thesis
    using assms mon_ok_Suc by (auto simp: add_mon_def Let_def)
next
  case (Some mon)
  let ?n = "n_monitors w"
  have new: "mon \<notin> fst ` set (mon_map m)" "mon \<notin> set ds" "mon \<notin> snd ` set (proc_mon_map m)"
    using fresh_not_created [OF assms(1) Some] assms(2) by (auto simp: mon_ok_def)
  have m': "m' = m\<lparr>mon_map := smap_insert mon h (mon_map m),
      proc_mon_map := smap_insert proc mon (proc_mon_map m)\<rparr>"
    and w': "n_monitors w' = Suc ?n" "demonitors (log w') = demonitors (log w)"
    using assms(3) Some by (auto simp: add_mon_def Let_def)
  have procs: "snd ` set (smap_insert proc mon (proc_mon_map m)) \<subseteq> insert mon (snd ` set (proc_mon_map m))"
    using set_smap_insert_subset [of proc mon "proc_mon_map m"] by force
  have sub: "snd ` set (smap_insert proc mon (proc_mon_map m)) \<subseteq> fst ` set (smap_insert mon h (mon_map m))"
    unfolding set_smap_insert
    by (rule order_trans [OF procs], rule insert_mono) (use assms(2) in \<open>simp add: mon_ok_def\<close>)
  have cr: "\<forall>x \<in> fst ` set (smap_insert mon h (mon_map m)) \<union> set ds. created D (Suc ?n) x"
    unfolding set_smap_insert Un_insert_left
    by (rule created_all [OF _ created_new [OF Some]]) (use assms(2) in \<open>simp add: mon_ok_def\<close>)
  have dis: "set ds \<inter> fst ` set (smap_insert mon h (mon_map m)) = {}"
    using assms(2) new(2) by (simp add: set_smap_insert mon_ok_def)
  show ?thesis
    using assms(2) new(3) sub cr dis
    by (simp add: mon_ok_def m' w' smap_inv_insert distinct_snd_insert)
qed

lemma del_mon_ok:
  assumes "mon_ok D m (n_monitors w) (demonitors (log w))" and "del_mon proc m w = (m', w')"
  shows "mon_ok D m' (n_monitors w') (demonitors (log w'))"
proof (cases "smap_find (proc_mon_map m) proc")
  case None
  then show ?thesis using assms by (auto simp: del_mon_def Let_def)
next
  case (Some mon)
  have inv: "smap_inv (proc_mon_map m)" using assms(1) by (simp add: mon_ok_def)
  have mem: "(proc, mon) \<in> set (proc_mon_map m)"
    using Some by (simp add: smap_find_in_set [OF inv])
  have only: "(p, mon) \<in> set (proc_mon_map m) \<Longrightarrow> p = proc" for p
    using mem assms(1) unfolding mon_ok_def by (metis distinct_map inj_on_eq_iff prod.inject snd_conv)
  have m': "m' = m\<lparr>mon_map := smap_erase mon (mon_map m), proc_mon_map := smap_erase proc (proc_mon_map m)\<rparr>"
    and w': "n_monitors w' = n_monitors w" "demonitors (log w') = demonitors (log w) @ [mon]"
    using assms(2) Some by (auto simp: del_mon_def Let_def)
  have "mon \<in> fst ` set (mon_map m)" using mem assms(1) by (force simp: mon_ok_def)
  moreover have "snd ` set (smap_erase proc (proc_mon_map m)) \<subseteq> fst ` set (smap_erase mon (mon_map m))"
  proof
    fix v
    assume "v \<in> snd ` set (smap_erase proc (proc_mon_map m))"
    then obtain p where p: "(p, v) \<in> set (proc_mon_map m)" "p \<noteq> proc"
      by (auto simp: smap_erase_def)
    then have "v \<noteq> mon" using only by blast
    moreover have "v \<in> fst ` set (mon_map m)" using p assms(1) by (force simp: mon_ok_def)
    ultimately show "v \<in> fst ` set (smap_erase mon (mon_map m))" by (force simp: smap_erase_def)
  qed
  ultimately show ?thesis
    using assms(1)
    by (auto simp: mon_ok_def m' w' smap_inv_filter smap_erase_def distinct_map_filter)
qed

lemma demonitors_map: "demonitors (map (\<lambda>_. DemonitorProcess mon) xs) = map (\<lambda>_. mon) xs"
  by (induction xs) simp_all

lemma one_entry:
  "distinct (map snd ps) \<Longrightarrow>
   map (\<lambda>_. mon) (filter (\<lambda>e. snd e = mon) ps) = (if mon \<in> snd ` set ps then [mon] else [])"
proof (induction ps)
  case (Cons e ps)
  have "snd e \<notin> snd ` set ps \<Longrightarrow> filter (\<lambda>x. snd x = snd e) ps = []"
    by (rule filter_False) (metis imageI)
  then show ?case using Cons by auto
qed simp

lemma del_procs_demonitors:
  "distinct (map snd ps) \<Longrightarrow>
   demonitors (log (snd (del_procs mon ps w))) =
     demonitors (log w) @ (if mon \<in> snd ` set ps then [mon] else [])"
  by (simp add: del_procs_log demonitors_map one_entry)

lemma del_mons_loop_demonitors:
  "distinct (map fst ms) \<Longrightarrow> distinct (map snd pm) \<Longrightarrow>
   demonitors (log (snd (snd (del_mons_loop h ms pm w)))) =
     demonitors (log w) @ filter (\<lambda>mon. mon \<in> snd ` set pm) (mons_of h ms)"
proof (induction h ms pm w rule: del_mons_loop.induct)
  case (2 h mon h' ms pm w)
  show ?case
  proof (cases "h' = h")
    case True
    obtain pm' w' where r: "del_procs mon pm w = (pm', w')" by fastforce
    have pm': "pm' = filter (\<lambda>e. snd e \<noteq> mon) pm"
      using del_procs_filter [of mon pm w] r by simp
    have w': "demonitors (log w') = demonitors (log w) @ (if mon \<in> snd ` set pm then [mon] else [])"
      using del_procs_demonitors [of pm mon w] 2(4) r by simp
    have dm: "mon \<notin> set (mons_of h ms)" using 2(3) by (force simp: mons_of_def)
    have eq: "filter (\<lambda>x. x \<in> snd ` set pm') (mons_of h ms) = filter (\<lambda>x. x \<in> snd ` set pm) (mons_of h ms)"
      using dm by (intro filter_cong) (auto simp: pm')
    have "demonitors (log (snd (snd (del_mons_loop h ms pm' w')))) =
        demonitors (log w') @ filter (\<lambda>x. x \<in> snd ` set pm') (mons_of h ms)"
      using 2(1) [OF True r [symmetric]] 2(3,4) by (simp add: pm' distinct_map_filter)
    then show ?thesis using True r w' eq by simp
  next
    case False
    then show ?thesis using 2 by (auto split: prod.splits)
  qed
qed simp

lemma mons_of_subset: "set (mons_of h ms) \<subseteq> fst ` set ms"
  by (auto simp: mons_of_def)

lemma filter_not_mons_of:
  "smap_inv ms \<Longrightarrow> fst ` set (filter (\<lambda>e. snd e \<noteq> h) ms) = fst ` set ms - set (mons_of h ms)"
  unfolding smap_inv_def mons_of_def by (auto simp: distinct_map inj_on_def)

lemma del_mons_ok:
  assumes "mon_ok D m (n_monitors w) (demonitors (log w))" and "del_mons h m w = (m', w')"
  shows "mon_ok D m' (n_monitors w') (demonitors (log w'))"
proof (cases "h = mh_id m")
  case True
  then show ?thesis using assms by (simp add: del_mons_def)
next
  case False
  let ?ms = "mon_map m" and ?pm = "proc_mon_map m" and ?w = "env_log (Lock MapMutex) w"
  obtain ms pm w1 where r: "del_mons_loop h ?ms ?pm ?w = (ms, pm, w1)" by (metis prod_cases3)
  have ok: "smap_inv ?ms" "smap_inv ?pm" "distinct (map fst ?ms)" "distinct (map snd ?pm)"
    using assms(1) by (auto simp: mon_ok_def smap_inv_def)
  have ms: "ms = filter (\<lambda>e. snd e \<noteq> h) ?ms" and pm: "pm = filter (\<lambda>e. snd e \<notin> set (mons_of h ?ms)) ?pm"
    using del_mons_loop_maps [of h ?ms ?pm ?w] r by simp_all
  have d: "demonitors (log w1) = demonitors (log w) @ filter (\<lambda>x. x \<in> snd ` set ?pm) (mons_of h ?ms)"
    using del_mons_loop_demonitors [OF ok(3,4), of h ?w] r by simp
  have n: "n_monitors w1 = n_monitors w" using del_mons_loop_frame(2) [of h ?ms ?pm ?w] r by simp
  have m': "m' = m\<lparr>mon_map := ms, proc_mon_map := pm\<rparr>" and w': "w' = env_log (Unlock MapMutex) w1"
    using assms(2) False r by (simp_all add: del_mons_def)
  have keys: "fst ` set ms = fst ` set ?ms - set (mons_of h ?ms)"
    using filter_not_mons_of [OF ok(1)] by (simp add: ms)
  have vals: "snd ` set pm \<subseteq> snd ` set ?pm - set (mons_of h ?ms)" by (auto simp: pm)
  have dist: "distinct (mons_of h ?ms)"
    using ok(3) by (simp add: mons_of_def distinct_map_filter)
  have sub: "set (mons_of h ?ms) \<subseteq> fst ` set ?ms" by (rule mons_of_subset)
  have "snd ` set pm \<subseteq> fst ` set ms"
    using vals assms(1) unfolding keys by (auto simp: mon_ok_def)
  moreover have "smap_inv ms" "smap_inv pm" "distinct (map snd pm)"
    using ok by (simp_all add: ms pm smap_inv_filter distinct_map_filter)
  moreover have "distinct (demonitors (log w1))" "set (demonitors (log w1)) \<inter> fst ` set ms = {}"
    using assms(1) dist sub unfolding d keys mon_ok_def by auto
  moreover have "\<forall>x \<in> fst ` set ms \<union> set (demonitors (log w1)). created D (n_monitors w) x"
    using assms(1) sub unfolding d keys mon_ok_def by auto
  ultimately show ?thesis by (simp add: mon_ok_def m' w' n)
qed

lemma exit_handler_ok:
  assumes "mon_ok D m (n_monitors w) (demonitors (log w))"
    and "\<forall>p. (p, mon) \<in> set (proc_mon_map m) \<longrightarrow> p = proc"
    and "exit_handler mon proc m w = (r, m', w')"
  shows "mon_ok D m' (n_monitors w') (demonitors (log w'))"
proof (cases "smap_find (mon_map m) mon")
  case None
  then show ?thesis using assms by (auto simp: exit_handler_def Let_def)
next
  case (Some h)
  have m': "m' = m\<lparr>mon_map := smap_erase mon (mon_map m), proc_mon_map := smap_erase proc (proc_mon_map m)\<rparr>"
    and w': "n_monitors w' = n_monitors w" "demonitors (log w') = demonitors (log w)"
    using assms(3) Some by (auto simp: exit_handler_def Let_def)
  have "snd ` set (smap_erase proc (proc_mon_map m)) \<subseteq> fst ` set (smap_erase mon (mon_map m))"
  proof
    fix v
    assume "v \<in> snd ` set (smap_erase proc (proc_mon_map m))"
    then obtain p where p: "(p, v) \<in> set (proc_mon_map m)" "p \<noteq> proc"
      by (auto simp: smap_erase_def)
    then have "v \<noteq> mon" using assms(2) by blast
    moreover have "v \<in> fst ` set (mon_map m)" using p assms(1) by (force simp: mon_ok_def)
    ultimately show "v \<in> fst ` set (smap_erase mon (mon_map m))" by (force simp: smap_erase_def)
  qed
  then show ?thesis
    using assms(1)
    by (auto simp: mon_ok_def m' w' smap_inv_filter smap_erase_def distinct_map_filter)
qed

section \<open>Reachable tables\<close>

text \<open>
  Everything that ever changes the tables, in any order. The runtime's part: the process it names
  at an exit is the one the monitor was created for.
\<close>

inductive mon_reachable :: "'q drv_api \<Rightarrow> env \<Rightarrow> env \<Rightarrow> bool" for D w0 where
  start: "mon_reachable D w0 w0"
| adding: "mon_reachable D w0 w \<Longrightarrow> mon_reachable D w0 (snd (add_monitor D proc h w))"
| deleting: "mon_reachable D w0 w \<Longrightarrow> mon_reachable D w0 (del_monitor proc w)"
| deleting_all: "mon_reachable D w0 w \<Longrightarrow> mon_reachable D w0 (del_monitors h w)"
| exiting: "mon_reachable D w0 w \<Longrightarrow> main w = Some m \<Longrightarrow>
    \<forall>p. (p, mon) \<in> set (proc_mon_map m) \<longrightarrow> p = proc \<Longrightarrow>
    exit_handler mon proc m w = (r, m', w') \<Longrightarrow> mon_reachable D w0 (w'\<lparr>main := Some m'\<rparr>)"

definition tables_ok :: "'q drv_api \<Rightarrow> env \<Rightarrow> bool" where
  "tables_ok D w \<longleftrightarrow> (\<exists>m. main w = Some m \<and> mon_ok D m (n_monitors w) (demonitors (log w)))"

lemma main_update_ok:
  "mon_ok D m (n_monitors w) (demonitors (log w)) \<Longrightarrow> tables_ok D (w\<lparr>main := Some m\<rparr>)"
  by (simp add: tables_ok_def)

lemma reachable_tables_ok:
  assumes "mon_reachable D w0 w" and "mon_fresh D" and "tables_ok D w0"
  shows "tables_ok D w"
  using assms
proof (induction rule: mon_reachable.induct)
  case (adding w proc h)
  then obtain m where m: "main w = Some m" "mon_ok D m (n_monitors w) (demonitors (log w))"
    by (auto simp: tables_ok_def)
  obtain r m' w' where a: "add_mon D proc h m w = (r, m', w')" by (metis prod_cases3)
  show ?case
    using add_mon_ok [OF adding(3) m(2) a] m(1) a by (simp add: add_monitor_def main_update_ok)
next
  case (deleting w proc)
  then obtain m where m: "main w = Some m" "mon_ok D m (n_monitors w) (demonitors (log w))"
    by (auto simp: tables_ok_def)
  obtain m' w' where a: "del_mon proc m w = (m', w')" by fastforce
  show ?case using del_mon_ok [OF m(2) a] m(1) a by (simp add: del_monitor_def main_update_ok)
next
  case (deleting_all w h)
  then obtain m where m: "main w = Some m" "mon_ok D m (n_monitors w) (demonitors (log w))"
    by (auto simp: tables_ok_def)
  obtain m' w' where a: "del_mons h m w = (m', w')" by fastforce
  show ?case using del_mons_ok [OF m(2) a] m(1) a by (simp add: del_monitors_def main_update_ok)
next
  case (exiting w m mon proc r m' w')
  then have "mon_ok D m (n_monitors w) (demonitors (log w))" by (auto simp: tables_ok_def)
  then show ?case using exit_handler_ok exiting main_update_ok by blast
qed

definition empty_main :: "handler_id \<Rightarrow> nat \<Rightarrow> main_handler" where
  "empty_main i p = \<lparr>mh_id = i, mh_port = p, fdmap = [], mon_map = [], proc_mon_map = []\<rparr>"

lemma empty_tables_ok: "main w = Some (empty_main i p) \<Longrightarrow> log w = [] \<Longrightarrow> tables_ok D w"
  by (simp add: tables_ok_def mon_ok_def empty_main_def smap_inv_def)

text \<open>C15: in every order of monitoring, demonitoring, handler destruction and process exits, the
  two monitor tables stay consistent: a process that is looked up leads to a monitor with a
  handler, no two processes to the same one; every monitor in the tables was made by the runtime;
  no monitor is demonitored twice, and a demonitored monitor leads to no handler.\<close>

theorem monitor_tables:
  "mon_fresh D \<Longrightarrow> main w0 = Some (empty_main i p) \<Longrightarrow> log w0 = [] \<Longrightarrow> mon_reachable D w0 w \<Longrightarrow>
   \<exists>m. main w = Some m \<and>
     (\<forall>proc mon. smap_find (proc_mon_map m) proc = Some mon \<longrightarrow> (\<exists>h. smap_find (mon_map m) mon = Some h)) \<and>
     (\<forall>proc proc' mon. smap_find (proc_mon_map m) proc = Some mon \<longrightarrow>
        smap_find (proc_mon_map m) proc' = Some mon \<longrightarrow> proc = proc') \<and>
     (\<forall>mon h. smap_find (mon_map m) mon = Some h \<longrightarrow> created D (n_monitors w) mon) \<and>
     distinct (demonitors (log w)) \<and>
     (\<forall>mon \<in> set (demonitors (log w)). created D (n_monitors w) mon \<and> smap_find (mon_map m) mon = None)"
proof -
  assume "mon_fresh D" "main w0 = Some (empty_main i p)" "log w0 = []" "mon_reachable D w0 w"
  then obtain m where m: "main w = Some m" "mon_ok D m (n_monitors w) (demonitors (log w))"
    using reachable_tables_ok empty_tables_ok unfolding tables_ok_def by metis
  then have inv: "smap_inv (mon_map m)" "smap_inv (proc_mon_map m)" "distinct (map snd (proc_mon_map m))"
    "snd ` set (proc_mon_map m) \<subseteq> fst ` set (mon_map m)"
    and made: "\<And>mon. mon \<in> fst ` set (mon_map m) \<union> set (demonitors (log w)) \<Longrightarrow> created D (n_monitors w) mon"
    and gone: "distinct (demonitors (log w))" "set (demonitors (log w)) \<inter> fst ` set (mon_map m) = {}"
    by (auto simp: mon_ok_def)
  have "\<exists>h. smap_find (mon_map m) mon = Some h" if "smap_find (proc_mon_map m) proc = Some mon" for proc mon
    using that inv(4) by (force simp: smap_find_in_set [OF inv(1)] smap_find_in_set [OF inv(2)])
  moreover have "proc = proc'"
    if "smap_find (proc_mon_map m) proc = Some mon" "smap_find (proc_mon_map m) proc' = Some mon" for proc proc' mon
    using that inv(3) unfolding smap_find_in_set [OF inv(2)] distinct_map
    by (metis inj_on_eq_iff prod.inject snd_conv)
  moreover have "created D (n_monitors w) mon" if "smap_find (mon_map m) mon = Some h" for mon h
    using that made unfolding smap_find_in_set [OF inv(1)] by force
  moreover have "created D (n_monitors w) mon \<and> smap_find (mon_map m) mon = None"
    if "mon \<in> set (demonitors (log w))" for mon
    using that made gone(2) by (auto simp: smap_find_def map_of_eq_None_iff)
  ultimately show ?thesis using m(1) gone(1) by blast
qed

theorem monitor_tables_witness:
  "\<exists>m. main (del_monitor 5 (snd (add_monitor chunk_api 5 2 (env0\<lparr>main := Some (empty_main 1 9)\<rparr>)))) = Some m \<and>
     smap_find (mon_map m) 0 = None"
proof -
  let ?init = "env0\<lparr>main := Some (empty_main 1 9)\<rparr>"
  let ?w = "del_monitor 5 (snd (add_monitor chunk_api 5 2 ?init))"
  have "mon_reachable chunk_api ?init ?w"
    by (rule mon_reachable.deleting [OF mon_reachable.adding [OF mon_reachable.start]])
  moreover have "mon_fresh chunk_api" by (simp add: mon_fresh_def chunk_api_def)
  moreover have "main ?init = Some (empty_main 1 9)" "log ?init = []" by (simp_all add: env0_def)
  moreover have "0 \<in> set (demonitors (log ?w))" by code_simp
  ultimately show ?thesis using monitor_tables [of chunk_api ?init 1 9 ?w] by blast
qed

text \<open>The three operations on the singleton, as equations.\<close>

lemma add_monitor_eq:
  "main w = Some m \<Longrightarrow> monitor_process D (n_monitors w) p = Some mon \<Longrightarrow>
   main (snd (add_monitor D p h w)) =
     Some (m\<lparr>mon_map := smap_insert mon h (mon_map m), proc_mon_map := smap_insert p mon (proc_mon_map m)\<rparr>) \<and>
   n_monitors (snd (add_monitor D p h w)) = Suc (n_monitors w) \<and>
   demonitors (log (snd (add_monitor D p h w))) = demonitors (log w)"
  by (simp add: add_monitor_def add_mon_def Let_def)

lemma del_monitor_eq:
  "main w = Some m \<Longrightarrow> smap_find (proc_mon_map m) p = Some mon \<Longrightarrow>
   main (del_monitor p w) =
     Some (m\<lparr>mon_map := smap_erase mon (mon_map m), proc_mon_map := smap_erase p (proc_mon_map m)\<rparr>) \<and>
   demonitors (log (del_monitor p w)) = demonitors (log w) @ [mon]"
  by (simp add: del_monitor_def del_mon_def Let_def)

lemma del_monitors_eq:
  assumes "main w = Some m" "h \<noteq> mh_id m" "mon_ok D m n ds"
  shows "(\<exists>m'. main (del_monitors h w) = Some m' \<and> mon_map m' = filter (\<lambda>e. snd e \<noteq> h) (mon_map m)) \<and>
    demonitors (log (del_monitors h w)) =
      demonitors (log w) @ filter (\<lambda>x. x \<in> snd ` set (proc_mon_map m)) (mons_of h (mon_map m))"
proof -
  let ?w = "env_log (Lock MapMutex) w"
  obtain ms pm w1 where r: "del_mons_loop h (mon_map m) (proc_mon_map m) ?w = (ms, pm, w1)"
    by (metis prod_cases3)
  show ?thesis
    using del_mons_loop_maps(1) [of h "mon_map m" "proc_mon_map m" ?w]
      del_mons_loop_demonitors [of "mon_map m" "proc_mon_map m" h ?w] r assms
    by (simp add: del_monitors_def del_mons_def mon_ok_def smap_inv_def)
qed

text \<open>A process that is monitored twice, and then once removed.\<close>

lemma second_monitor_new:
  assumes "mon_fresh D" "mon_ok D m n ds"
    and "monitor_process D n proc = Some m1" "monitor_process D (Suc n) proc = Some m2"
  shows "m1 \<noteq> m2 \<and> m2 \<notin> fst ` set (mon_map m) \<and> m2 \<notin> set ds \<and> m2 \<notin> snd ` set (proc_mon_map m)"
proof -
  have "m1 \<noteq> m2" using assms(1,3,4) unfolding mon_fresh_def by (metis n_not_Suc_n)
  moreover have "\<not> created D n m2"
    using fresh_not_created [OF assms(1,4)] created_Suc by blast
  ultimately show ?thesis using assms(2) by (auto simp: mon_ok_def)
qed

lemma add_twice_del_once:
  assumes "mon_ok D m (n_monitors w) ds" "main w = Some m" "smap_find (proc_mon_map m) proc = None"
    and "monitor_process D (n_monitors w) proc = Some m1"
    and "monitor_process D (Suc (n_monitors w)) proc = Some m2"
    and "w3 = del_monitor proc (snd (add_monitor D proc h (snd (add_monitor D proc h w))))"
  shows "main w3 = Some (m\<lparr>mon_map := smap_erase m1 (smap_insert m2 h (smap_insert m1 h (mon_map m))),
      proc_mon_map := smap_erase proc (smap_insert proc m2 (smap_insert proc m1 (proc_mon_map m)))\<rparr>) \<and>
    demonitors (log w3) = demonitors (log w) @ [m1]"
proof -
  define w1 where "w1 = snd (add_monitor D proc h w)"
  define w2 where "w2 = snd (add_monitor D proc h w1)"
  let ?ma = "m\<lparr>mon_map := smap_insert m1 h (mon_map m), proc_mon_map := smap_insert proc m1 (proc_mon_map m)\<rparr>"
  let ?mb = "?ma\<lparr>mon_map := smap_insert m2 h (mon_map ?ma), proc_mon_map := smap_insert proc m2 (proc_mon_map ?ma)\<rparr>"
  have inv: "smap_inv (proc_mon_map m)" using assms(1) by (simp add: mon_ok_def)
  have 1: "main w1 = Some ?ma" "n_monitors w1 = Suc (n_monitors w)" "demonitors (log w1) = demonitors (log w)"
    using add_monitor_eq [OF assms(2,4), of h] by (simp_all add: w1_def)
  then have 2: "main w2 = Some ?mb" "demonitors (log w2) = demonitors (log w)"
    using add_monitor_eq [of w1 ?ma D proc m2 h] assms(5) by (simp_all add: w2_def)
  have "smap_find (proc_mon_map ?mb) proc = Some m1"
    using assms(3) inv by (simp add: smap_find_insert smap_inv_insert)
  then show ?thesis
    using del_monitor_eq [OF 2(1)] 2(2) by (simp add: assms(6) w2_def w1_def)
qed

text \<open>C25: \<open>std::map::insert\<close> keeps the old entry, so a process monitored twice for the same handler
  (two accepts in a row) keeps only its first monitor in \<open>proc_mon_map\<close>: \<open>del_monitor\<close> removes
  that one, a further \<open>del_monitor\<close> finds nothing, and \<open>del_monitors\<close> forgets the second monitor
  without ever demonitoring it.\<close>

theorem second_monitor_leaks:
  "mon_fresh D \<Longrightarrow> tables_ok D w \<Longrightarrow> main w = Some m \<Longrightarrow> h \<noteq> mh_id m \<Longrightarrow>
   smap_find (proc_mon_map m) proc = None \<Longrightarrow>
   monitor_process D (n_monitors w) proc = Some m1 \<Longrightarrow>
   monitor_process D (Suc (n_monitors w)) proc = Some m2 \<Longrightarrow>
   (let w2 = snd (add_monitor D proc h (snd (add_monitor D proc h w)));
        w3 = del_monitor proc w2; w4 = del_monitors h w3
    in (\<exists>m3. main w3 = Some m3 \<and> smap_find (mon_map m3) m2 = Some h \<and>
             smap_find (proc_mon_map m3) proc = None) \<and>
       (\<exists>m4. main w4 = Some m4 \<and> smap_find (mon_map m4) m2 = None) \<and>
       m2 \<notin> set (demonitors (log w4)))"
proof -
  assume fresh: "mon_fresh D" and tab: "tables_ok D w" and m: "main w = Some m" and h: "h \<noteq> mh_id m"
    and none: "smap_find (proc_mon_map m) proc = None"
    and k1: "monitor_process D (n_monitors w) proc = Some m1"
    and k2: "monitor_process D (Suc (n_monitors w)) proc = Some m2"
  define w3 where "w3 = del_monitor proc (snd (add_monitor D proc h (snd (add_monitor D proc h w))))"
  define mc where "mc = m\<lparr>mon_map := smap_erase m1 (smap_insert m2 h (smap_insert m1 h (mon_map m))),
    proc_mon_map := smap_erase proc (smap_insert proc m2 (smap_insert proc m1 (proc_mon_map m)))\<rparr>"
  have ok: "mon_ok D m (n_monitors w) (demonitors (log w))" using tab m by (simp add: tables_ok_def)
  note new = second_monitor_new [OF fresh ok k1 k2]
  have c: "main w3 = Some mc" "demonitors (log w3) = demonitors (log w) @ [m1]"
    using add_twice_del_once [OF ok m none k1 k2 w3_def] by (simp_all add: mc_def)
  have reach: "mon_reachable D w w3" unfolding w3_def by (intro mon_reachable.intros)
  have okc: "mon_ok D mc (n_monitors w3) (demonitors (log w3))"
    using reachable_tables_ok [OF reach fresh tab] c(1) by (simp add: tables_ok_def)
  have "map_of (mon_map m) m2 = None" using new by (simp add: map_of_eq_None_iff)
  then have c2: "smap_find (mon_map mc) m2 = Some h" "smap_find (proc_mon_map mc) proc = None"
    using new ok
    by (auto simp: mc_def mon_ok_def smap_find_erase smap_find_insert smap_inv_insert smap_find_def)
  have sub: "set (proc_mon_map mc) \<subseteq> set (proc_mon_map m)"
    using set_smap_insert_subset [of proc m1 "proc_mon_map m"]
      set_smap_insert_subset [of proc m2 "smap_insert proc m1 (proc_mon_map m)"]
    by (auto simp: mc_def smap_erase_def dest!: subsetD)
  obtain m4 where m4: "main (del_monitors h w3) = Some m4"
      "mon_map m4 = filter (\<lambda>e. snd e \<noteq> h) (mon_map mc)"
      "demonitors (log (del_monitors h w3)) =
        demonitors (log w3) @ filter (\<lambda>x. x \<in> snd ` set (proc_mon_map mc)) (mons_of h (mon_map mc))"
    using del_monitors_eq [OF c(1) _ okc, of h] h by (auto simp: mc_def)
  have "smap_find (mon_map m4) m2 = None"
    using smap_find_filter [of "mon_map mc" "\<lambda>e. snd e \<noteq> h" m2] c2(1) okc
    by (cases "smap_find (mon_map m4) m2") (auto simp: m4(2) mon_ok_def)
  moreover have "m2 \<notin> set (demonitors (log (del_monitors h w3)))"
    using new sub by (auto simp: m4(3) c(2))
  ultimately show ?thesis
    using c(1) c2 m4(1) by (simp add: Let_def w3_def)
qed

theorem second_monitor_leaks_witness:
  "let w = env0\<lparr>main := Some (empty_main 1 9)\<rparr>;
       w2 = snd (add_monitor chunk_api 5 2 (snd (add_monitor chunk_api 5 2 w)));
       w3 = del_monitor 5 w2; w4 = del_monitors 2 w3
   in (\<exists>m3. main w3 = Some m3 \<and> smap_find (mon_map m3) 1 = Some 2 \<and>
             smap_find (proc_mon_map m3) 5 = None) \<and>
      (\<exists>m4. main w4 = Some m4 \<and> smap_find (mon_map m4) 1 = None) \<and>
      1 \<notin> set (demonitors (log w4))"
  unfolding Let_def [of "env0\<lparr>main := Some (empty_main 1 9)\<rparr>"]
  by (rule second_monitor_leaks [where m = "empty_main 1 9" and ?m1.0 = 0])
    (simp_all add: mon_fresh_def chunk_api_def empty_tables_ok env0_def empty_main_def smap_find_def
      tables_ok_def mon_ok_def smap_inv_def)

end
