(* ===== verification/Socket_Handler.thy ===== *)
theory Socket_Handler
  imports Sock_Opts Main_Maps
begin

text \<open>
  \<open>SocketHandler\<close>: what the listening and the connected handlers share: the UDP socket, the
  options and the delivery of received data to Erlang. Virtual methods that a subclass
  implements (\<open>close\<close>, \<open>peername\<close>, an overridden \<open>setopts\<close>) are arguments of \<open>control\<close>.
\<close>

section \<open>The class\<close>

text \<open>\<open>read_count\<close> holds the sizes of the pieces that libutp delivered and Erlang has not got yet.\<close>

record 'q sock_handler = "'q handler" +
  read_count :: "nat list"
  sockopts :: SockOpts
  udp_sock :: int
  close_pending :: bool
  selected :: bool

type_synonym ('q, 'a) sock = "('q, 'a) sock_handler_scheme"

definition SocketHandler_new :: "handler_id \<Rightarrow> 'q \<Rightarrow> env \<Rightarrow> 'q sock_handler" where
  "SocketHandler_new i q w =
     \<lparr>hid = i, port = 0, ioq = q, henv = w, faults = [], deleted = False,
      read_count = [], sockopts = SockOpts_new, udp_sock = INVALID_SOCKET,
      close_pending = False, selected = False\<rparr>"

definition SocketHandler_new_fd ::
  "handler_id \<Rightarrow> 'q \<Rightarrow> env \<Rightarrow> int \<Rightarrow> SockOpts \<Rightarrow> 'q sock_handler" where
  "SocketHandler_new_fd i q w fd so =
     (SocketHandler_new i q w)\<lparr>sockopts := so, udp_sock := fd\<rparr>"

definition SocketHandler_destroy :: "('q, 'a) sock \<Rightarrow> ('q, 'a) sock" where
  "SocketHandler_destroy h = Handler_destroy (on_env (del_monitors (hid h)) h)"

definition set_port :: "nat \<Rightarrow> ('q, 'a) sock \<Rightarrow> ('q, 'a) sock" where
  "set_port p h =
     (let h1 = Handler_set_port p h
      in if \<not> selected h1
         then (on_env (start_input (udp_sock h1) (hid h1)) h1)\<lparr>selected := True\<rparr>
         else h1)"

lemma sock_frame [simp]:
  fixes h :: "('q, 'a) sock"
  shows
  "read_count (emit a h) = read_count h" "sockopts (emit a h) = sockopts h"
  "udp_sock (emit a h) = udp_sock h" "close_pending (emit a h) = close_pending h"
  "selected (emit a h) = selected h"
  "read_count (fault x h) = read_count h" "sockopts (fault x h) = sockopts h"
  "udp_sock (fault x h) = udp_sock h" "close_pending (fault x h) = close_pending h"
  "selected (fault x h) = selected h"
  "read_count (on_env f h) = read_count h" "sockopts (on_env f h) = sockopts h"
  "udp_sock (on_env f h) = udp_sock h" "close_pending (on_env f h) = close_pending h"
  "selected (on_env f h) = selected h"
  by (simp_all add: emit_def fault_def on_env_def)

section \<open>Opening a UDP socket\<close>

text \<open>
  The answers of the operating system: each call's result with the \<open>errno\<close> that is read if it
  fails. The functions may depend on the arguments the driver passes.
\<close>

record os_open =
  os_socket :: "nat \<Rightarrow> int \<times> int"
  os_fcntl :: "int \<Rightarrow> int \<times> int"
  os_reuse :: "int \<Rightarrow> int \<times> int"
  os_bind :: "int \<Rightarrow> SockAddr \<Rightarrow> int \<times> int"

text \<open>The result code, the descriptor stored in the caller's variable, and the effects.\<close>

definition open_udp_socket :: "os_open \<Rightarrow> SockAddr \<Rightarrow> bool \<Rightarrow> env \<Rightarrow> int \<times> int \<times> env" where
  "open_udp_socket os a reuseaddr w =
     (case os_socket os (sa_family_of a) of (s, err) \<Rightarrow>
        if s < 0 then (err, s, w)
        else if fst (os_fcntl os s) < 0 then (snd (os_fcntl os s), s, env_log (CloseFd s) w)
        else if reuseaddr \<and> fst (os_reuse os s) < 0 then
          (snd (os_reuse os s), s, env_log (CloseFd s) w)
        else if fst (os_bind os s a) < 0 then (snd (os_bind os s a), s, env_log (CloseFd s) w)
        else (0, s, w))"

definition open_udp_socket_port :: "os_open \<Rightarrow> nat \<Rightarrow> bool \<Rightarrow> env \<Rightarrow> int \<times> int \<times> env" where
  "open_udp_socket_port os p reuseaddr w = open_udp_socket os (SockAddr_in [0, 0, 0, 0] p) reuseaddr w"

section \<open>Reading from the port's queue\<close>

fun move_loop :: "byte list list \<Rightarrow> nat \<Rightarrow> nat \<Rightarrow> byte list \<Rightarrow> byte list" where
  "move_loop [] pkt_size got buf = buf"
| "move_loop (v # vs) pkt_size got buf =
     (let needed = size_sub pkt_size got
      in if needed > length v then move_loop vs pkt_size (got + length v) (buf @ v)
         else buf @ take needed v)"

definition move_read_data ::
  "'q drv_api \<Rightarrow> byte list list \<Rightarrow> byte list \<Rightarrow> nat \<Rightarrow> ('q, 'a) sock \<Rightarrow>
   byte list \<times> nat \<times> ('q, 'a) sock" where
  "move_read_data D vec buf pkt_size h =
     (let buf' = move_loop vec pkt_size 0 buf; h' = h\<lparr>ioq := drv_deq D (ioq h) pkt_size\<rparr>
      in (buf', drv_sizeq D (ioq h'), h'))"

text \<open>\<open>reduce_read_count\<close>; \<open>None\<close> is \<open>front\<close> of an empty list.\<close>

function reduce_loop :: "nat \<Rightarrow> nat \<Rightarrow> nat list \<Rightarrow> nat list option" where
  "reduce_loop reduction i rc =
     (if i < reduction then
        (case rc of
           [] \<Rightarrow> None
         | c # cs \<Rightarrow>
             (let i' = i + c
              in reduce_loop reduction i' (if i' > reduction then (i' - reduction) # cs else cs)))
      else Some rc)"
  by pat_completeness auto
termination
  by (relation "measure (\<lambda>(reduction, i, rc). if i < reduction then Suc (length rc) else 0)") auto

declare reduce_loop.simps [simp del]

definition reduce_read_count :: "nat \<Rightarrow> nat list \<Rightarrow> nat list option" where
  "reduce_read_count reduction rc = reduce_loop reduction 0 rc"

definition closed_term :: "nat \<Rightarrow> term_spec list" where
  "closed_term p = [T_ATOM ''utp_closed'', T_PORT p, T_TUPLE 2]"

definition emit_closed_message :: "'q drv_api \<Rightarrow> ('q, 'a) sock \<Rightarrow> bool \<times> ('q, 'a) sock" where
  "emit_closed_message D h =
     (let qsize = drv_sizeq D (ioq h)
      in (qsize = 0, if qsize = 0 then emit (OutputTerm (port h) (closed_term (port h))) h else h))"

section \<open>Delivering data\<close>

text \<open>
  A \<open>Receiver\<close>: the connected process, or the process and reference of a passive receive.
\<close>

datatype receiver = ToConnected | ToCaller caller binary

text \<open>The packet header, read from the first element of the vector; \<open>None\<close> is a read beyond it.\<close>

definition packet_prefix :: "nat \<Rightarrow> byte list list \<Rightarrow> nat option" where
  "packet_prefix pk vec =
     (if pk = 1 then (case vec of (b # _) # _ \<Rightarrow> Some (unat b) | _ \<Rightarrow> None)
      else if pk = 2 then (case vec of (b0 # b1 # _) # _ \<Rightarrow> Some (be16 b0 b1) | _ \<Rightarrow> None)
      else if pk = 4 then
        (case vec of (b0 # b1 # b2 # b3 # _) # _ \<Rightarrow> Some (be32 b0 b1 b2 b3) | _ \<Rightarrow> None)
      else Some 0)"

text \<open>
  The message for one packet. The first \<open>header\<close> bytes become integers; the rest has the size
  \<open>pkt_size - header\<close>, computed in 32 bits.
\<close>

definition rest_size :: "u32 \<Rightarrow> nat \<Rightarrow> nat" where
  "rest_size pkt_size hdr = unat (pkt_size - of_nat hdr)"

definition header_terms :: "nat \<Rightarrow> byte list \<Rightarrow> term_spec list" where
  "header_terms hdr buf = map (\<lambda>b. T_UINT (unat b)) (take hdr buf)"

definition list_terms :: "nat \<Rightarrow> term_spec list" where
  "list_terms hdr = (if hdr \<noteq> 0 then [T_LIST (hdr + 1)] else [])"

definition connected_term :: "nat \<Rightarrow> SockOpts \<Rightarrow> u32 \<Rightarrow> byte list \<Rightarrow> term_spec list" where
  "connected_term p so pkt_size buf =
     (let hdr = header so; d = drop hdr buf; n = rest_size pkt_size hdr
      in [T_ATOM ''utp'', T_PORT p] @ header_terms hdr buf @
         [if delivery_mode so = DATA_LIST then T_STRING d n else T_BUF2BINARY d n] @
         list_terms hdr @ [T_TUPLE 3])"

definition receiver_term :: "SockOpts \<Rightarrow> u32 \<Rightarrow> byte list \<Rightarrow> binary \<Rightarrow> term_spec list" where
  "receiver_term so pkt_size buf ref =
     (let hdr = header so
      in [T_EXT2TERM (binary_data ref), T_ATOM ''ok''] @ header_terms hdr buf @
         [T_BUF2BINARY (drop hdr buf) (rest_size pkt_size hdr)] @
         list_terms hdr @ [T_TUPLE 2, T_TUPLE 2])"

fun send_packet ::
  "receiver \<Rightarrow> u32 \<Rightarrow> byte list \<Rightarrow> ('q, 'a) sock \<Rightarrow> ('q, 'a) sock" where
  "send_packet ToConnected pkt_size buf h =
     emit (OutputTerm (port h) (connected_term (port h) (sockopts h) pkt_size buf)) h"
| "send_packet (ToCaller c ref) pkt_size buf h =
     emit (SendTerm (port h) c (receiver_term (sockopts h) pkt_size buf ref)) h"

text \<open>The bytes of a message lie in the buffer: the header does, and so does the rest.\<close>

definition in_buffer :: "SockOpts \<Rightarrow> u32 \<Rightarrow> byte list \<Rightarrow> bool" where
  "in_buffer so pkt_size buf \<longleftrightarrow>
     header so \<le> length buf \<and> rest_size pkt_size (header so) \<le> length buf - header so"

text \<open>The loop that sends \<open>pkts_to_send\<close> messages; the first may already be in \<open>buf\<close>.\<close>

fun deliver_loop ::
  "'q drv_api \<Rightarrow> nat \<Rightarrow> receiver \<Rightarrow> byte list list \<Rightarrow> byte list \<Rightarrow> u32 \<Rightarrow> nat \<Rightarrow>
   ('q, 'a) sock \<Rightarrow> nat \<times> ('q, 'a) sock" where
  "deliver_loop D 0 rcvr vec buf pkt_size qsize h = (qsize, h)"
| "deliver_loop D (Suc n) rcvr vec buf pkt_size qsize h =
     (if buf = [] \<and> read_count h = [] then (qsize, fault EmptyFront h)
      else
        (let (pkt, buf1, qsize1, h1) =
           (if buf = [] then
              (let c = hd (read_count h); pkt = of_nat c :: u32
               in (pkt, move_read_data D vec buf (unat pkt) (h\<lparr>read_count := tl (read_count h)\<rparr>)))
            else (pkt_size, buf, qsize, h))
         in if \<not> in_buffer (sockopts h1) pkt buf1 then (qsize1, fault OutOfBounds h1)
            else
              (let h2 = send_packet rcvr pkt buf1 h1
               in if n \<noteq> 0 then deliver_loop D n rcvr (drv_peekq D (ioq h2)) [] pkt qsize1 h2
                  else (qsize1, h2))))"

text \<open>The last lines of \<open>emit_read_buffer\<close>.\<close>

definition finish_emit :: "nat \<times> ('q, 'a) sock \<Rightarrow> bool \<times> nat \<times> ('q, 'a) sock" where
  "finish_emit r =
     (case r of (qsize, h) \<Rightarrow>
        (True, qsize,
         if active (sockopts h) = ACTIVE_ONCE then h\<lparr>sockopts := (sockopts h)\<lparr>active := ACTIVE_FALSE\<rparr>\<rparr>
         else h))"

text \<open>
  The three ways to take data: a packet behind its header, the bytes a passive receive asked for,
  and the pieces as libutp delivered them.
\<close>

definition emit_prefixed ::
  "'q drv_api \<Rightarrow> receiver \<Rightarrow> u32 \<Rightarrow> nat \<Rightarrow> ('q, 'a) sock \<Rightarrow> bool \<times> nat \<times> ('q, 'a) sock" where
  "emit_prefixed D rcvr pkt_size qsize h =
     (if qsize < unat (of_nat (packet (sockopts h)) + pkt_size) then (False, qsize, h)
      else
        (let h1 = h\<lparr>ioq := drv_deq D (ioq h) (packet (sockopts h))\<rparr>;
             vec = drv_peekq D (ioq h1);
             (buf, qsize1, h2) = move_read_data D vec [] (unat pkt_size) h1
         in case reduce_read_count (unat pkt_size) (read_count h2) of
              None \<Rightarrow> (False, qsize1, fault EmptyFront h2)
            | Some rc \<Rightarrow>
                finish_emit (deliver_loop D 1 rcvr vec buf pkt_size qsize1 (h2\<lparr>read_count := rc\<rparr>))))"

definition emit_passive ::
  "'q drv_api \<Rightarrow> nat \<Rightarrow> receiver \<Rightarrow> nat \<Rightarrow> ('q, 'a) sock \<Rightarrow> bool \<times> nat \<times> ('q, 'a) sock" where
  "emit_passive D len rcvr qsize h =
     (let pkt = (if len = 0 then of_nat qsize else of_nat len) :: u32
      in case (if len = 0 then Some [] else reduce_read_count (unat pkt) (read_count h)) of
           None \<Rightarrow> (False, qsize, fault EmptyFront h)
         | Some rc \<Rightarrow>
             (let vec = drv_peekq D (ioq h);
                  (buf, qsize1, h1) = move_read_data D vec [] (unat pkt) (h\<lparr>read_count := rc\<rparr>)
              in finish_emit (deliver_loop D 1 rcvr vec buf pkt qsize1 h1)))"

definition emit_pieces ::
  "'q drv_api \<Rightarrow> receiver \<Rightarrow> nat \<Rightarrow> ('q, 'a) sock \<Rightarrow> bool \<times> nat \<times> ('q, 'a) sock" where
  "emit_pieces D rcvr qsize h =
     finish_emit (deliver_loop D
       (if active (sockopts h) = ACTIVE_TRUE then length (read_count h) else 1)
       rcvr (drv_peekq D (ioq h)) [] 0 qsize h)"

text \<open>
  The result, the new value of the reference parameter \<open>new_qsize\<close> (which comes in as \<open>qsize0\<close>),
  and the handler.
\<close>

definition emit_data ::
  "'q drv_api \<Rightarrow> nat \<Rightarrow> receiver \<Rightarrow> ('q, 'a) sock \<Rightarrow> bool \<times> nat \<times> ('q, 'a) sock" where
  "emit_data D len rcvr h =
     (let qsize = drv_sizeq D (ioq h)
      in if qsize = 0 \<or> qsize < len \<or> qsize < packet (sockopts h) then (False, qsize, h)
         else
           (case packet_prefix (packet (sockopts h)) (drv_peekq D (ioq h)) of
              None \<Rightarrow> (False, qsize, fault OutOfBounds h)
            | Some sz \<Rightarrow>
                if (of_nat sz :: u32) \<noteq> 0 then emit_prefixed D rcvr (of_nat sz) qsize h
                else if active (sockopts h) = ACTIVE_FALSE then emit_passive D len rcvr qsize h
                else emit_pieces D rcvr qsize h))"

definition emit_read_buffer ::
  "'q drv_api \<Rightarrow> nat \<Rightarrow> receiver \<Rightarrow> nat \<Rightarrow> ('q, 'a) sock \<Rightarrow> bool \<times> nat \<times> ('q, 'a) sock" where
  "emit_read_buffer D len rcvr qsize0 h =
     (if close_pending h \<and> fst (emit_closed_message D h)
      then (False, qsize0, (snd (emit_closed_message D h))\<lparr>close_pending := False\<rparr>)
      else emit_data D len rcvr h)"

section \<open>Control operations\<close>

definition sockname ::
  "'q platform \<Rightarrow> int \<times> int \<times> SockAddr \<Rightarrow> nat \<Rightarrow> ('q, 'a) sock \<Rightarrow> ctl cpp \<times> ('q, 'a) sock" where
  "sockname P os rlen h =
     (case os of (res, err, a) \<Rightarrow>
        if res < 0 then with_env (encode_errno P rlen err) h
        else with_env (SockAddr_encode P rlen err a) h)"

text \<open>When \<open>setopts\<close> delivers what is queued: by the old and the new value of \<open>active\<close>.\<close>

definition setopts_send :: "active \<Rightarrow> active \<Rightarrow> nat list \<Rightarrow> bool" where
  "setopts_send saved new rc =
     (case saved of
        ACTIVE_FALSE \<Rightarrow>
          (case new of ACTIVE_ONCE \<Rightarrow> rc \<noteq> [] | ACTIVE_TRUE \<Rightarrow> True | _ \<Rightarrow> False)
      | ACTIVE_OTHER _ \<Rightarrow> False
      | _ \<Rightarrow> new = ACTIVE_TRUE)"

definition bin_bytes :: "binary \<Rightarrow> byte list" where
  "bin_bytes b = (case b of None \<Rightarrow> [] | Some x \<Rightarrow> orig_bytes x)"

text \<open>The destructor of a local \<open>Binary\<close> at the end of an operation.\<close>

definition drop_binary :: "binary \<Rightarrow> ('q, 'a) handler_scheme \<Rightarrow> ('q, 'a) handler_scheme" where
  "drop_binary b h = on_env (binary_destroy b) h"

text \<open>Parsing the argument of an operation that expects one binary, in the handler's surroundings.\<close>

definition parse_arg ::
  "'q platform \<Rightarrow> byte list \<Rightarrow> ('q, 'a) handler_scheme \<Rightarrow> parse \<times> binary \<times> ('q, 'a) handler_scheme" where
  "parse_arg P buf h =
     (case parse_binary (api P) (ei P) buf binary_new (henv h) of (r, b, w) \<Rightarrow> (r, b, h\<lparr>henv := w\<rparr>))"

definition SocketHandler_setopts ::
  "'q platform \<Rightarrow> byte list \<Rightarrow> nat \<Rightarrow> ('q, 'a) sock \<Rightarrow> ctl cpp \<times> ('q, 'a) sock" where
  "SocketHandler_setopts P buf rlen h =
     (case parse_arg P buf h of
        (ParseBadArg, b, h1) \<Rightarrow> (Ret CtlBadArg, drop_binary b h1)
      | (ParseUndef, b, h1) \<Rightarrow> (Undef, h1)
      | (ParseOk, b, h1) \<Rightarrow>
          (case decode_and_merge (net P) (bin_bytes b) (sockopts h1) of
             Throw (InvalidArgument s) \<Rightarrow> (Ret CtlBadArg, drop_binary b h1)
           | Throw e \<Rightarrow> (Throw e, drop_binary b h1)
           | Undef \<Rightarrow> (Undef, h1)
           | Ret so \<Rightarrow>
               (let h2 = emit (Lock UtpMutex) (h1\<lparr>sockopts := so\<rparr>);
                    h3 = (if setopts_send (active (sockopts h1)) (active so) (read_count h2)
                          then snd (snd (emit_read_buffer (api P) 0 ToConnected 0 h2)) else h2);
                    (r, h4) = with_env (encode_plain P rlen [enc_atom (ei P) ''ok'']) h3
                in (r, drop_binary b (emit (Unlock UtpMutex) h4)))))"

text \<open>
  The loop of \<open>getopts\<close>: the encoder calls for the options asked for, up to the first one that
  is not readable, and whether there was such a one. Negative values wrap when they become
  \<open>unsigned long\<close>.
\<close>

definition ulong_of_int :: "int \<Rightarrow> nat" where
  "ulong_of_int i = nat (i mod 2 ^ 64)"

fun getopts_loop ::
  "ei_lib \<Rightarrow> SockOpts \<Rightarrow> byte list \<Rightarrow> (encoder \<Rightarrow> encoder cpp) list \<times> bool" where
  "getopts_loop E so [] = ([], True)"
| "getopts_loop E so (c # cs) =
     (let item = (\<lambda>name value. map_prod (append [enc_tuple_header E 2, enc_atom E name, value]) id
                                 (getopts_loop E so cs))
      in if c = opt_code UTP_ACTIVE_OPT then
           item ''active'' (enc_atom E (if active so = ACTIVE_FALSE then ''false''
                                        else if active so = ACTIVE_TRUE then ''true'' else ''once''))
         else if c = opt_code UTP_MODE_OPT then
           item ''mode'' (enc_atom E (if delivery_mode so = DATA_LIST then ''list'' else ''binary''))
         else if c = opt_code UTP_SEND_TMOUT_OPT then
           item ''send_timeout'' (if send_tmout so = -1 then enc_atom E ''infinity''
                                  else enc_longval E (send_tmout so))
         else if c = opt_code UTP_PACKET_OPT then item ''packet'' (enc_ulongval E (packet so))
         else if c = opt_code UTP_SNDBUF_OPT then
           item ''sndbuf'' (enc_ulongval E (ulong_of_int (sndbuf so)))
         else if c = opt_code UTP_RECBUF_OPT then
           item ''recbuf'' (enc_ulongval E (ulong_of_int (recbuf so)))
         else ([], False))"

definition getopts_reply ::
  "'q platform \<Rightarrow> SockOpts \<Rightarrow> byte list \<Rightarrow> nat \<Rightarrow> env \<Rightarrow> ctl cpp \<times> env" where
  "getopts_reply P so bs rlen w =
     (let E = ei P; (items, known) = getopts_loop E so bs;
          start = [enc_tuple_header E 2, enc_atom E ''ok'']
      in if bs = [] then encode_plain P rlen (start @ [enc_empty_list E]) w
         else if known then
           encode_plain P rlen (start @ [enc_list_header E (int (length bs))] @ items @ [enc_empty_list E]) w
         else
           (case cpp_bind (EiEncoder E)
                   (enc_chain (start @ [enc_list_header E (int (length bs))] @ items)) of
              Throw e \<Rightarrow> (Throw e, w)
            | Undef \<Rightarrow> (Undef, w)
            | Ret _ \<Rightarrow>
                encode_plain P rlen
                  [enc_tuple_header E 2, enc_atom E ''error'', enc_atom E (errno_id (api P) EINVAL)] w))"

definition getopts ::
  "'q platform \<Rightarrow> byte list \<Rightarrow> nat \<Rightarrow> ('q, 'a) sock \<Rightarrow> ctl cpp \<times> ('q, 'a) sock" where
  "getopts P buf rlen h =
     (case parse_arg P buf h of
        (ParseBadArg, b, h1) \<Rightarrow> (Ret CtlBadArg, drop_binary b h1)
      | (ParseUndef, b, h1) \<Rightarrow> (Undef, h1)
      | (ParseOk, b, h1) \<Rightarrow>
          (case with_env (getopts_reply P (sockopts h1) (bin_bytes b) rlen) h1 of
             (r, h2) \<Rightarrow> (r, drop_binary b h2)))"

text \<open>The dispatch; the virtual methods come as arguments.\<close>

definition SocketHandler_control ::
  "'q platform \<Rightarrow> int \<times> int \<times> SockAddr \<Rightarrow>
   (byte list \<Rightarrow> nat \<Rightarrow> ('q, 'a) sock \<Rightarrow> ctl cpp \<times> ('q, 'a) sock) \<Rightarrow>
   (nat \<Rightarrow> ('q, 'a) sock \<Rightarrow> ctl cpp \<times> ('q, 'a) sock) \<Rightarrow>
   (byte list \<Rightarrow> nat \<Rightarrow> ('q, 'a) sock \<Rightarrow> ctl cpp \<times> ('q, 'a) sock) \<Rightarrow>
   nat \<Rightarrow> byte list \<Rightarrow> nat \<Rightarrow> ('q, 'a) sock \<Rightarrow> ctl cpp \<times> ('q, 'a) sock" where
  "SocketHandler_control P names close_m peername_m setopts_m cmd buf rlen h =
     (case command_of cmd of
        UTP_CLOSE \<Rightarrow> close_m buf rlen h
      | UTP_SOCKNAME \<Rightarrow> sockname P names rlen h
      | UTP_PEERNAME \<Rightarrow> peername_m rlen h
      | UTP_SETOPTS \<Rightarrow> setopts_m buf rlen h
      | UTP_GETOPTS \<Rightarrow> getopts P buf rlen h
      | UTP_RECV \<Rightarrow> with_env (encode_errno P rlen ENOTCONN) h
      | _ \<Rightarrow> (Ret CtlGeneral, h))"

end
