(* ===== verification/Write_Queue.thy ===== *)
theory Write_Queue
  imports Driver_Env
begin

text \<open>
  \<open>write_queue.cc\<close>: the queue of binaries waiting to be sent, read byte by byte from the
  front. \<open>wq_bytes\<close> is the abstract content, the locale \<open>byte_queue\<close> the contract.
\<close>

section \<open>The class\<close>

record write_queue =
  wqueue :: "drv_binary list"
  wsz :: nat
  woffset :: nat

definition wq_new :: write_queue where
  "wq_new = \<lparr>wqueue = [], wsz = 0, woffset = 0\<rparr>"

text \<open>The copy constructor takes a reference to each binary.\<close>

definition wq_copy :: "write_queue \<Rightarrow> env \<Rightarrow> write_queue \<times> env" where
  "wq_copy wq w =
     (\<lparr>wqueue = wqueue wq, wsz = wsz wq, woffset = woffset wq\<rparr>, fold inc_refc (wqueue wq) w)"

definition wq_destroy :: "write_queue \<Rightarrow> env \<Rightarrow> env" where
  "wq_destroy wq w = fold free_binary (wqueue wq) w"

definition wq_push_back :: "drv_binary \<Rightarrow> write_queue \<Rightarrow> write_queue" where
  "wq_push_back bin wq =
     wq\<lparr>wqueue := wqueue wq @ [bin], wsz := wsz wq + orig_size bin\<rparr>"

text \<open>
  \<open>pop_bytes\<close>: the loop of the source, with the bytes copied so far as \<open>to\<close>. \<open>front\<close>
  of an empty queue is undefined behaviour.
\<close>

fun wq_pop_loop ::
  "nat \<Rightarrow> drv_binary list \<Rightarrow> nat \<Rightarrow> nat \<Rightarrow> byte list \<Rightarrow> env \<Rightarrow> (byte list \<times> write_queue \<times> env) cpp" where
  "wq_pop_loop 0 q sz off to w = Ret (to, \<lparr>wqueue = q, wsz = sz, woffset = off\<rparr>, w)"
| "wq_pop_loop (Suc n) [] sz off to w = Undef"
| "wq_pop_loop (Suc n) (bin # q) sz off to w =
     (let count = Suc n; bsize = orig_size bin in
      if count < size_sub bsize off
      then Ret (to @ take count (drop off (orig_bytes bin)),
                \<lparr>wqueue = bin # q, wsz = size_sub sz count, woffset = off + count\<rparr>, w)
      else (let to_copy = size_sub bsize off in
            wq_pop_loop (count - to_copy) q (size_sub sz to_copy) 0
              (to @ take to_copy (drop off (orig_bytes bin))) (free_binary bin w)))"

definition wq_pop_bytes ::
  "nat \<Rightarrow> write_queue \<Rightarrow> env \<Rightarrow> (byte list \<times> write_queue \<times> env) cpp" where
  "wq_pop_bytes count wq w = wq_pop_loop count (wqueue wq) (wsz wq) (woffset wq) [] w"

definition wq_clear :: "write_queue \<Rightarrow> write_queue" where
  "wq_clear wq = wq\<lparr>wqueue := [], wsz := 0, woffset := 0\<rparr>"

section \<open>Content and invariant\<close>

definition wq_bytes :: "write_queue \<Rightarrow> byte list" where
  "wq_bytes wq = drop (woffset wq) (concat (map orig_bytes (wqueue wq)))"

text \<open>The size counts the bytes left, and the offset lies within the first binary.\<close>

definition wq_inv :: "write_queue \<Rightarrow> bool" where
  "wq_inv wq \<longleftrightarrow> wsz wq = length (wq_bytes wq) \<and>
     (case wqueue wq of [] \<Rightarrow> woffset wq = 0 | b # _ \<Rightarrow> woffset wq \<le> orig_size b)"

lemma wq_eta [simp]: "\<lparr>wqueue = wqueue wq, wsz = wsz wq, woffset = woffset wq\<rparr> = wq"
  by (cases wq) simp

lemma wq_inv_new [simp]: "wq_inv wq_new"
  by (simp add: wq_inv_def wq_new_def wq_bytes_def)

lemma wq_bytes_new [simp]: "wq_bytes wq_new = []"
  by (simp add: wq_new_def wq_bytes_def)

lemma wq_inv_size: "wq_inv wq \<Longrightarrow> wsz wq = length (wq_bytes wq)"
  by (simp add: wq_inv_def)

lemma wq_inv_clear [simp]: "wq_inv (wq_clear wq)"
  by (simp add: wq_inv_def wq_clear_def wq_bytes_def)

lemma wq_bytes_clear [simp]: "wq_bytes (wq_clear wq) = []"
  by (simp add: wq_clear_def wq_bytes_def)

lemma wq_size_clear [simp]: "wsz (wq_clear wq) = 0"
  by (simp add: wq_clear_def)

lemma wq_offset_le: "wq_inv wq \<Longrightarrow> woffset wq \<le> length (concat (map orig_bytes (wqueue wq)))"
  by (auto simp: wq_inv_def split: list.splits)

lemma wq_bytes_push [simp]:
  "wq_inv wq \<Longrightarrow> wq_bytes (wq_push_back b wq) = wq_bytes wq @ orig_bytes b"
  using wq_offset_le [of wq] by (simp add: wq_bytes_def wq_push_back_def)

lemma wq_inv_push [simp]: "wq_inv wq \<Longrightarrow> wq_inv (wq_push_back b wq)"
  using wq_bytes_push [of wq b]
  by (auto simp: wq_inv_def wq_push_back_def split: list.splits)

lemma wq_size_push [simp]: "wsz (wq_push_back b wq) = wsz wq + orig_size b"
  by (simp add: wq_push_back_def)

text \<open>
  The loop, when enough bytes are there: it returns the first \<open>count\<close> of them, leaves the
  rest, and frees the binaries it emptied.
\<close>

declare wq_pop_loop.simps(3) [simp del]

lemma wq_pop_loop_part:
  "off \<le> orig_size bin \<Longrightarrow> n < orig_size bin - off \<Longrightarrow> 0 < n \<Longrightarrow> n \<le> sz \<Longrightarrow>
    wq_pop_loop n (bin # q) sz off to w =
      Ret (to @ take n (drop off (orig_bytes bin)),
           \<lparr>wqueue = bin # q, wsz = sz - n, woffset = off + n\<rparr>, w)"
  by (cases n) (simp_all add: wq_pop_loop.simps(3) Let_def)

lemma wq_pop_loop_whole:
  "off \<le> orig_size bin \<Longrightarrow> orig_size bin - off \<le> n \<Longrightarrow> 0 < n \<Longrightarrow> orig_size bin - off \<le> sz \<Longrightarrow>
    wq_pop_loop n (bin # q) sz off to w =
      wq_pop_loop (n - (orig_size bin - off)) q (sz - (orig_size bin - off)) 0
        (to @ drop off (orig_bytes bin)) (free_binary bin w)"
  by (cases n) (simp_all add: wq_pop_loop.simps(3) Let_def)

lemma wq_pop_loop_zero [simp]:
  "wq_pop_loop 0 q sz off to w = Ret (to, \<lparr>wqueue = q, wsz = sz, woffset = off\<rparr>, w)"
  by simp

lemma wq_inv_Cons:
  "wq_inv \<lparr>wqueue = b # q, wsz = sz, woffset = off\<rparr> \<longleftrightarrow>
    off \<le> orig_size b \<and> sz = orig_size b - off + length (concat (map orig_bytes q))"
  by (auto simp: wq_inv_def wq_bytes_def)

lemma wq_inv_front:
  "wq_inv \<lparr>wqueue = q, wsz = length (concat (map orig_bytes q)), woffset = 0\<rparr>"
  by (auto simp: wq_inv_def wq_bytes_def split: list.splits)

lemma wq_inv_start:
  "wq_inv \<lparr>wqueue = q, wsz = sz, woffset = 0\<rparr> \<longleftrightarrow> sz = length (concat (map orig_bytes q))"
  by (auto simp: wq_inv_def wq_bytes_def split: list.splits)

lemma wq_pop_loop_Ret:
  assumes "wq_inv \<lparr>wqueue = q, wsz = sz, woffset = off\<rparr>" and "count \<le> sz"
  shows "\<exists>wq' freed.
    wq_pop_loop count q sz off to w =
      Ret (to @ take count (drop off (concat (map orig_bytes q))), wq', fold free_binary freed w) \<and>
    wq_inv wq' \<and> wq_bytes wq' = drop (off + count) (concat (map orig_bytes q)) \<and>
    q = freed @ wqueue wq'"
  using assms
proof (induction q arbitrary: count sz off to w)
  case Nil
  then have "count = 0" "off = 0" by (simp_all add: wq_inv_def wq_bytes_def)
  with Nil show ?case
    by (intro exI [of _ "\<lparr>wqueue = [], wsz = sz, woffset = 0\<rparr>"] exI [of _ "[]"])
      (simp add: wq_bytes_def)
next
  case (Cons bin q)
  let ?rest = "concat (map orig_bytes q)" and ?c = "orig_size bin - off"
  have off: "off \<le> orig_size bin" and sz: "sz = ?c + length ?rest"
    using Cons.prems(1) by (simp_all add: wq_inv_Cons)
  consider "count = 0" | "0 < count" "count < ?c" | "0 < count" "?c \<le> count" by linarith
  then show ?case
  proof cases
    case 1
    with Cons.prems show ?thesis
      by (intro exI [of _ "\<lparr>wqueue = bin # q, wsz = sz, woffset = off\<rparr>"] exI [of _ "[]"])
        (simp add: wq_bytes_def)
  next
    case 2
    let ?wq' = "\<lparr>wqueue = bin # q, wsz = sz - count, woffset = off + count\<rparr>"
    have "wq_inv ?wq'" using 2 sz off by (simp add: wq_inv_Cons)
    moreover have "wq_pop_loop count (bin # q) sz off to w =
        Ret (to @ take count (drop off (orig_bytes bin)), ?wq', w)"
      using 2 off Cons.prems(2) by (intro wq_pop_loop_part)
    ultimately show ?thesis using 2
      by (intro exI [of _ ?wq'] exI [of _ "[]"]) (simp add: wq_bytes_def)
  next
    case 3
    have step: "wq_pop_loop count (bin # q) sz off to w =
        wq_pop_loop (count - ?c) q (sz - ?c) 0 (to @ drop off (orig_bytes bin)) (free_binary bin w)"
      using 3 off sz by (intro wq_pop_loop_whole) simp_all
    have "wq_inv \<lparr>wqueue = q, wsz = sz - ?c, woffset = 0\<rparr>" and "count - ?c \<le> sz - ?c"
      using sz Cons.prems(2) by (simp_all add: wq_inv_start)
    from Cons.IH [OF this, of "to @ drop off (orig_bytes bin)" "free_binary bin w"]
    obtain wq' freed where
      "wq_pop_loop (count - ?c) q (sz - ?c) 0 (to @ drop off (orig_bytes bin)) (free_binary bin w) =
         Ret ((to @ drop off (orig_bytes bin)) @ take (count - ?c) ?rest, wq',
              fold free_binary freed (free_binary bin w))"
      "wq_inv wq'" "wq_bytes wq' = drop (count - ?c) ?rest" "q = freed @ wqueue wq'"
      by auto
    then show ?thesis
      using 3 off unfolding step
      by (intro exI [of _ wq'] exI [of _ "bin # freed"]) (simp add: add.commute)
  qed
qed

lemma wq_pop_loop_Undef:
  assumes "wq_inv \<lparr>wqueue = q, wsz = sz, woffset = off\<rparr>" and "sz < count"
  shows "wq_pop_loop count q sz off to w = Undef"
  using assms
proof (induction q arbitrary: count sz off to w)
  case Nil
  then show ?case by (cases count) simp_all
next
  case (Cons bin q)
  let ?c = "orig_size bin - off"
  have off: "off \<le> orig_size bin" and sz: "sz = ?c + length (concat (map orig_bytes q))"
    using Cons.prems(1) by (simp_all add: wq_inv_Cons)
  have "wq_pop_loop count (bin # q) sz off to w =
      wq_pop_loop (count - ?c) q (sz - ?c) 0 (to @ drop off (orig_bytes bin)) (free_binary bin w)"
    using Cons.prems(2) off sz by (intro wq_pop_loop_whole) simp_all
  also have "\<dots> = Undef"
    using Cons.prems(2) sz by (intro Cons.IH) (simp_all add: wq_inv_start)
  finally show ?case .
qed

section \<open>Reading the queue\<close>

text \<open>
  C27: taking \<open>count\<close> bytes from a queue that holds at least as many returns exactly the first
  \<open>count\<close> bytes of its content, leaves the others in order, keeps the invariant, and releases the
  binaries it has emptied, which are the first ones of the queue, and no other.
\<close>

theorem wq_pop_bytes_spec:
  assumes "wq_inv wq" and "count \<le> wsz wq"
  shows "\<exists>wq' freed.
    wq_pop_bytes count wq w = Ret (take count (wq_bytes wq), wq', fold free_binary freed w) \<and>
    wq_inv wq' \<and> wq_bytes wq' = drop count (wq_bytes wq) \<and> wqueue wq = freed @ wqueue wq'"
  using wq_pop_loop_Ret [where w = w and to = "[]", of "wqueue wq" "wsz wq" "woffset wq" count] assms
  by (simp add: wq_pop_bytes_def wq_bytes_def add.commute)

theorem wq_pop_bytes_spec_witness:
  "\<exists>wq' freed.
    wq_pop_bytes 3 (wq_push_back \<lparr>bin_id = 1, orig_bytes = [3, 4]\<rparr>
                     (wq_push_back \<lparr>bin_id = 0, orig_bytes = [1, 2]\<rparr> wq_new)) env0 =
      Ret ([1, 2, 3], wq', fold free_binary freed env0) \<and> wq_bytes wq' = [4]"
proof -
  let ?q = "wq_push_back \<lparr>bin_id = 1, orig_bytes = [3, 4]\<rparr>
      (wq_push_back \<lparr>bin_id = 0, orig_bytes = [1, 2]\<rparr> wq_new)"
  have inv: "wq_inv ?q" and len: "3 \<le> wsz ?q" and bytes: "wq_bytes ?q = [1, 2, 3, 4]"
    by (simp, simp add: wq_new_def, simp)
  show ?thesis using wq_pop_bytes_spec [OF inv len, of env0] unfolding bytes by auto
qed

lemma wq_pop_bytes_Undef: "wq_inv wq \<Longrightarrow> wsz wq < count \<Longrightarrow> wq_pop_bytes count wq w = Undef"
  unfolding wq_pop_bytes_def by (rule wq_pop_loop_Undef) simp_all

lemma wq_pop_bytes_RetD:
  assumes "wq_inv wq" and "wq_pop_bytes count wq w = Ret (bs, wq', w')"
  shows "count \<le> wsz wq" and "bs = take count (wq_bytes wq)" and "wq_inv wq'"
    and "wq_bytes wq' = drop count (wq_bytes wq)" and "wsz wq' = wsz wq - count"
proof -
  show le: "count \<le> wsz wq"
    using assms wq_pop_bytes_Undef [of wq count w] by (cases "count \<le> wsz wq") simp_all
  from wq_pop_loop_Ret [where w = w and to = "[]", of "wqueue wq" "wsz wq" "woffset wq" count] assms le
  show *: "bs = take count (wq_bytes wq)" "wq_inv wq'" "wq_bytes wq' = drop count (wq_bytes wq)"
    by (auto simp: wq_pop_bytes_def wq_bytes_def add.commute)
  then show "wsz wq' = wsz wq - count" using assms(1) by (simp add: wq_inv_size)
qed

text \<open>
  C28: asking for more bytes than the queue holds is undefined behaviour (\<open>front\<close> of an empty
  list): \<open>pop_bytes\<close> relies on libutp never asking for more than was announced to it.
\<close>

theorem wq_pop_bytes_defined_iff:
  assumes "wq_inv wq"
  shows "wq_pop_bytes count wq w = Undef \<longleftrightarrow> wsz wq < count"
  using wq_pop_bytes_Undef [OF assms] assms
    wq_pop_loop_Ret [where w = w and to = "[]", of "wqueue wq" "wsz wq" "woffset wq" count]
  by (cases "count \<le> wsz wq") (auto simp: wq_pop_bytes_def)

theorem wq_pop_bytes_defined_iff_witness: "wq_pop_bytes 1 wq_new env0 = Undef"
  using wq_pop_bytes_defined_iff [OF wq_inv_new, of 1 env0] by (simp add: wq_new_def)

section \<open>The queue as a byte stream\<close>

text \<open>
  What the users of a byte queue rely on, whichever queue it is (the driver has two: this one,
  and the runtime's I/O queue of the port): bytes leave in the order they came.
\<close>

locale byte_queue =
  fixes invar :: "'q \<Rightarrow> bool"
    and content :: "'q \<Rightarrow> byte list"
    and bytes_of :: "'b \<Rightarrow> byte list"
    and push :: "'b \<Rightarrow> 'q \<Rightarrow> 'q"
    and pop :: "nat \<Rightarrow> 'q \<Rightarrow> (byte list \<times> 'q) option"
  assumes invar_push: "invar q \<Longrightarrow> invar (push b q)"
    and content_push: "invar q \<Longrightarrow> content (push b q) = content q @ bytes_of b"
    and pop_enough: "invar q \<Longrightarrow> n \<le> length (content q) \<Longrightarrow>
      \<exists>q'. pop n q = Some (take n (content q), q') \<and> invar q' \<and> content q' = drop n (content q)"
begin

lemma pop_enoughE:
  assumes "invar q" and "n \<le> length (content q)"
  obtains q' where "pop n q = Some (take n (content q), q')" "invar q'"
    "content q' = drop n (content q)"
  using pop_enough [OF assms] by blast

lemma pop_push_stable:
  assumes "invar q" and "n \<le> length (content q)"
  shows "\<exists>q1 q2. pop n q = Some (take n (content q), q1) \<and>
    pop n (push b q) = Some (take n (content q), q2) \<and> content q2 = content q1 @ bytes_of b"
proof -
  obtain q1 where 1: "pop n q = Some (take n (content q), q1)" "content q1 = drop n (content q)"
    using assms by (rule pop_enoughE)
  have "invar (push b q)" "n \<le> length (content (push b q))"
    using assms by (simp_all add: invar_push content_push)
  then obtain q2 where "pop n (push b q) = Some (take n (content (push b q)), q2)"
      "content q2 = drop n (content (push b q))"
    by (rule pop_enoughE)
  with 1 assms show ?thesis by (simp add: content_push)
qed

end

text \<open>A history of pushes and pops, and its result: the bytes taken, and the final queue.\<close>

datatype 'b queue_op = Push 'b | Pop nat

fun run_queue ::
  "('b \<Rightarrow> 'q \<Rightarrow> 'q) \<Rightarrow> (nat \<Rightarrow> 'q \<Rightarrow> (byte list \<times> 'q) option) \<Rightarrow> 'b queue_op list \<Rightarrow> 'q \<Rightarrow>
   (byte list \<times> 'q) option" where
  "run_queue push pop [] q = Some ([], q)"
| "run_queue push pop (Push b # ops) q = run_queue push pop ops (push b q)"
| "run_queue push pop (Pop n # ops) q =
     (case pop n q of
        None \<Rightarrow> None
      | Some (bs, q') \<Rightarrow> map_option (\<lambda>(out, q''). (bs @ out, q'')) (run_queue push pop ops q'))"

fun pushed_bytes :: "('b \<Rightarrow> byte list) \<Rightarrow> 'b queue_op list \<Rightarrow> byte list" where
  "pushed_bytes f [] = []"
| "pushed_bytes f (Push b # ops) = f b @ pushed_bytes f ops"
| "pushed_bytes f (Pop n # ops) = pushed_bytes f ops"

text \<open>The history never takes more than is there, given the number of bytes at the start.\<close>

fun no_underflow :: "('b \<Rightarrow> byte list) \<Rightarrow> 'b queue_op list \<Rightarrow> nat \<Rightarrow> bool" where
  "no_underflow f [] k = True"
| "no_underflow f (Push b # ops) k = no_underflow f ops (k + length (f b))"
| "no_underflow f (Pop n # ops) k = (n \<le> k \<and> no_underflow f ops (k - n))"

context byte_queue
begin

lemma run_queue_stream:
  assumes "invar q" and "no_underflow bytes_of ops (length (content q))"
  shows "\<exists>out q'. run_queue push pop ops q = Some (out, q') \<and> invar q' \<and>
    content q @ pushed_bytes bytes_of ops = out @ content q'"
  using assms
proof (induction ops arbitrary: q)
  case Nil
  then show ?case by simp
next
  case (Cons opn ops)
  show ?case
  proof (cases opn)
    case (Push b)
    with Cons.prems have "invar (push b q)"
      and "no_underflow bytes_of ops (length (content (push b q)))"
      by (simp_all add: invar_push content_push)
    from Cons.IH [OF this] show ?thesis
      using Push Cons.prems(1) by (auto simp: content_push)
  next
    case (Pop n)
    with Cons.prems obtain q1 where 1: "pop n q = Some (take n (content q), q1)"
      "invar q1" "content q1 = drop n (content q)"
      by (auto elim: pop_enoughE)
    with Cons.prems Pop have "no_underflow bytes_of ops (length (content q1))" by simp
    from Cons.IH [OF 1(2) this] obtain out q' where "run_queue push pop ops q1 = Some (out, q')"
      "invar q'" "content q1 @ pushed_bytes bytes_of ops = out @ content q'"
      by blast
    moreover have "content q = take n (content q) @ content q1" using 1(3) by simp
    ultimately show ?thesis using Pop 1(1) by (auto simp del: append_take_drop_id) (metis append_assoc)
  qed
qed

end

definition wq_push :: "drv_binary \<Rightarrow> write_queue \<times> env \<Rightarrow> write_queue \<times> env" where
  "wq_push b s = (wq_push_back b (fst s), snd s)"

definition wq_pop :: "nat \<Rightarrow> write_queue \<times> env \<Rightarrow> (byte list \<times> write_queue \<times> env) option" where
  "wq_pop n s = (case wq_pop_bytes n (fst s) (snd s) of Ret r \<Rightarrow> Some r | _ \<Rightarrow> None)"

interpretation wq: byte_queue "\<lambda>s. wq_inv (fst s)" "\<lambda>s. wq_bytes (fst s)" orig_bytes wq_push wq_pop
proof
  fix q :: "write_queue \<times> env" and n
  assume "wq_inv (fst q)" "n \<le> length (wq_bytes (fst q))"
  with wq_pop_bytes_spec [of "fst q" n "snd q"]
  show "\<exists>q'. wq_pop n q = Some (take n (wq_bytes (fst q)), q') \<and> wq_inv (fst q') \<and>
      wq_bytes (fst q') = drop n (wq_bytes (fst q))"
    by (auto simp: wq_pop_def wq_inv_size)
qed (simp_all add: wq_push_def)

text \<open>
  C26: from a new queue, every history of \<open>push_back\<close> and \<open>pop_bytes\<close> that never takes more
  than is there runs to its end, and the bytes taken followed by the bytes left are the bytes
  pushed, in order: nothing is lost, duplicated or reordered.
\<close>

theorem wq_stream:
  assumes "no_underflow orig_bytes ops 0"
  shows "\<exists>out wq' w'. run_queue wq_push wq_pop ops (wq_new, w) = Some (out, wq', w') \<and>
    wq_inv wq' \<and> pushed_bytes orig_bytes ops = out @ wq_bytes wq'"
  using wq.run_queue_stream [of "(wq_new, w)" ops] assms by auto

theorem wq_stream_witness:
  "\<exists>out wq' w'. run_queue wq_push wq_pop
      [Push \<lparr>bin_id = 0, orig_bytes = [1, 2]\<rparr>, Pop 1, Push \<lparr>bin_id = 1, orig_bytes = [3]\<rparr>, Pop 2]
      (wq_new, env0) = Some (out, wq', w') \<and> [1, 2, 3] = out @ wq_bytes wq'"
  using wq_stream [of "[Push \<lparr>bin_id = 0, orig_bytes = [1, 2]\<rparr>, Pop 1,
      Push \<lparr>bin_id = 1, orig_bytes = [3]\<rparr>, Pop 2]" env0]
  by auto

section \<open>References\<close>

lemma refc_free_list:
  "refc i (log (fold free_binary bs w)) = refc i (log w) - int (count_list (map bin_id bs) i)"
  by (induction bs arbitrary: w) auto

lemma refc_inc_list:
  "refc i (log (fold inc_refc bs w)) = refc i (log w) + int (count_list (map bin_id bs) i)"
  by (induction bs arbitrary: w) auto

text \<open>A copy takes exactly the references its destructor gives back.\<close>

lemma wq_copy_balanced:
  "refc i (log (wq_destroy (fst (wq_copy wq w)) (snd (wq_copy wq w)))) = refc i (log w)"
  by (simp add: wq_copy_def wq_destroy_def refc_free_list refc_inc_list)

text \<open>
  The destructor gives back one reference for each binary in the queue; \<open>clear\<close>, which
  only empties the list, gives back none, so after \<open>clear\<close> the destructor has nothing left to
  release and every binary that was still queued stays allocated.
\<close>

lemma wq_clear_keeps_references:
  "refc i (log (wq_destroy wq w)) = refc i (log w) - int (count_list (map bin_id (wqueue wq)) i) \<and>
   refc i (log (wq_destroy (wq_clear wq) w)) = refc i (log w)"
  by (simp add: wq_destroy_def refc_free_list wq_clear_def)

end
