(* ===== verification/Utp_Handler.thy ===== *)
theory Utp_Handler
  imports Socket_Handler Write_Queue
begin

text \<open>
  \<open>UtpHandler\<close> and its subclasses \<open>Client\<close> and \<open>Server\<close> (\<open>utp_handler.cc\<close>, \<open>client.cc\<close>,
  \<open>server.cc\<close>): one uTP connection. libutp is a parameter in two ways. An operation that calls
  libutp takes a list of answers: what each call returns, and what the callbacks that libutp
  makes during that call do to the handler. The section on callbacks then lets those answers be
  arbitrary runs of the handler's own callbacks, nested to any depth.
\<close>

section \<open>Status\<close>

datatype utp_status =
    not_connected
  | listening
  | connect_pending
  | connected
  | connect_failed
  | closing
  | destroying
  | stopped

fun status_number :: "utp_status \<Rightarrow> nat" where
  "status_number not_connected = 0"
| "status_number listening = 1"
| "status_number connect_pending = 2"
| "status_number connected = 3"
| "status_number connect_failed = 4"
| "status_number closing = 5"
| "status_number destroying = 6"
| "status_number stopped = 7"

lemma status_number_inject [simp]: "status_number s = status_number t \<longleftrightarrow> s = t"
  by (cases s; cases t) simp_all

text \<open>The enumerators are ordered as the enumeration lists them.\<close>

instantiation utp_status :: linorder
begin

definition less_eq_utp_status :: "utp_status \<Rightarrow> utp_status \<Rightarrow> bool" where
  "less_eq_utp_status s t \<longleftrightarrow> status_number s \<le> status_number t"

definition less_utp_status :: "utp_status \<Rightarrow> utp_status \<Rightarrow> bool" where
  "less_utp_status s t \<longleftrightarrow> status_number s < status_number t"

instance
  by standard (auto simp: less_eq_utp_status_def less_utp_status_def)

end

section \<open>The class\<close>

text \<open>\<open>server\<close> is the dynamic class: \<open>Server\<close>, or else \<open>Client\<close>.\<close>

record 'q utp_handler = "'q sock_handler" +
  write_q :: write_queue
  caller_ref :: binary
  caller :: caller
  utp :: "utp_socket option"
  recv_len :: nat
  status :: utp_status
  state :: int
  error_code :: int
  writable :: bool
  sender_waiting :: bool
  receiver_waiting :: bool
  eof_seen :: bool
  server :: bool

definition UtpHandler_new ::
  "bool \<Rightarrow> handler_id \<Rightarrow> 'q \<Rightarrow> env \<Rightarrow> int \<Rightarrow> SockOpts \<Rightarrow> 'q utp_handler" where
  "UtpHandler_new srv i q w sock so =
     \<lparr>hid = i, port = 0, ioq = q, henv = w, faults = [], deleted = False,
      read_count = [], sockopts = so, udp_sock = sock, close_pending = False, selected = False,
      write_q = wq_new, caller_ref = binary_new, caller = NilTerm, utp = None, recv_len = 0,
      status = not_connected, state = 0, error_code = 0, writable = False,
      sender_waiting = False, receiver_waiting = False, eof_seen = False, server = srv\<rparr>"

definition Client_new where "Client_new = UtpHandler_new False"

definition Server_new where "Server_new = UtpHandler_new True"

text \<open>
  The destructors: the members of \<open>UtpHandler\<close>, last declared first, then the base classes.
\<close>

definition UtpHandler_destroy :: "'q utp_handler \<Rightarrow> 'q utp_handler" where
  "UtpHandler_destroy h =
     SocketHandler_destroy (on_env (wq_destroy (write_q h)) (on_env (binary_destroy (caller_ref h)) h))"

definition delete_utp_handler :: "'q utp_handler \<Rightarrow> 'q utp_handler" where
  "delete_utp_handler h = (if deleted h then fault DoubleFree h else delete_this (UtpHandler_destroy h))"

lemma utp_frame [simp]:
  fixes h :: "'q utp_handler"
  shows
  "write_q (emit a h) = write_q h" "caller_ref (emit a h) = caller_ref h" "caller (emit a h) = caller h"
  "utp (emit a h) = utp h" "recv_len (emit a h) = recv_len h" "status (emit a h) = status h"
  "state (emit a h) = state h" "error_code (emit a h) = error_code h" "writable (emit a h) = writable h"
  "sender_waiting (emit a h) = sender_waiting h" "receiver_waiting (emit a h) = receiver_waiting h"
  "eof_seen (emit a h) = eof_seen h" "server (emit a h) = server h"
  "write_q (fault x h) = write_q h" "caller_ref (fault x h) = caller_ref h" "caller (fault x h) = caller h"
  "utp (fault x h) = utp h" "recv_len (fault x h) = recv_len h" "status (fault x h) = status h"
  "state (fault x h) = state h" "error_code (fault x h) = error_code h" "writable (fault x h) = writable h"
  "sender_waiting (fault x h) = sender_waiting h" "receiver_waiting (fault x h) = receiver_waiting h"
  "eof_seen (fault x h) = eof_seen h" "server (fault x h) = server h"
  "write_q (on_env f h) = write_q h" "caller_ref (on_env f h) = caller_ref h" "caller (on_env f h) = caller h"
  "utp (on_env f h) = utp h" "recv_len (on_env f h) = recv_len h" "status (on_env f h) = status h"
  "state (on_env f h) = state h" "error_code (on_env f h) = error_code h" "writable (on_env f h) = writable h"
  "sender_waiting (on_env f h) = sender_waiting h" "receiver_waiting (on_env f h) = receiver_waiting h"
  "eof_seen (on_env f h) = eof_seen h" "server (on_env f h) = server h"
  by (simp_all add: emit_def fault_def on_env_def)

section \<open>Calling libutp\<close>

type_synonym 'q answer = "'q utp_handler \<Rightarrow> nat \<times> 'q utp_handler"
type_synonym 'q answers = "'q answer list"

text \<open>
  The next answer; a call without one returns 0 and makes no callbacks. A call on a null socket
  is a null dereference inside libutp. \<open>touch\<close> marks where the code goes on using the object
  after a call, which is only allowed if no callback has deleted it.
\<close>

definition take_answer :: "'q answers \<Rightarrow> 'q utp_handler \<Rightarrow> nat \<times> 'q answers \<times> 'q utp_handler" where
  "take_answer ans h =
     (case ans of [] \<Rightarrow> (0, [], h) | a # as \<Rightarrow> (case a h of (r, h') \<Rightarrow> (r, as, h')))"

definition touch :: "'q utp_handler \<Rightarrow> 'q utp_handler" where
  "touch h = (if deleted h then fault UseAfterFree h else h)"

definition call_utp ::
  "(utp_socket \<Rightarrow> utp_call) \<Rightarrow> 'q answers \<Rightarrow> 'q utp_handler \<Rightarrow> nat \<times> 'q answers \<times> 'q utp_handler" where
  "call_utp c ans h =
     (case utp h of
        None \<Rightarrow> (0, ans, fault NullDeref h)
      | Some u \<Rightarrow> take_answer ans (emit (UtpCall (c u)) h))"

text \<open>Calls that make no callbacks.\<close>

definition set_sockopt :: "nat \<Rightarrow> int \<Rightarrow> 'q utp_handler \<Rightarrow> 'q utp_handler" where
  "set_sockopt opt v h =
     (case utp h of None \<Rightarrow> fault NullDeref h | Some u \<Rightarrow> emit (UtpCall (UTP_SetSockopt u opt v)) h)"

definition set_utp_callbacks :: "'q utp_handler \<Rightarrow> 'q utp_handler" where
  "set_utp_callbacks h =
     (case utp h of
        None \<Rightarrow> h
      | Some u \<Rightarrow>
          set_sockopt SO_RCVBUF UTP_RECBUF_DEFAULT
            (set_sockopt SO_SNDBUF UTP_SNDBUF_DEFAULT (emit (UtpCall (UTP_SetCallbacks u)) h)))"

section \<open>Closing\<close>

definition close_utp :: "'q answers \<Rightarrow> 'q utp_handler \<Rightarrow> 'q answers \<times> 'q utp_handler" where
  "close_utp ans h =
     (if utp h \<noteq> None \<and> status h \<noteq> destroying then
        (if wsz (write_q h) \<noteq> 0 then (ans, h)
         else (case call_utp UTP_Close ans (h\<lparr>status := closing\<rparr>) of
                 (_, ans', h') \<Rightarrow> (ans', (touch h')\<lparr>utp := None\<rparr>)))
      else (ans, h))"

definition reset_waiting_recv :: "'q utp_handler \<Rightarrow> 'q utp_handler" where
  "reset_waiting_recv h =
     (case with_env (binary_reset None (caller_ref h)) (h\<lparr>receiver_waiting := False, recv_len := 0\<rparr>) of
        (b, h') \<Rightarrow> h'\<lparr>caller_ref := b, caller := ZeroTerm\<rparr>)"

section \<open>Callbacks\<close>

definition error_term :: "'q platform \<Rightarrow> int \<Rightarrow> binary \<Rightarrow> term_spec list" where
  "error_term P err ref =
     [T_EXT2TERM (binary_term_data ref), T_ATOM ''error'', T_ATOM (errno_id (api P) err), T_TUPLE 2, T_TUPLE 2]"

definition utp_error_term :: "'q platform \<Rightarrow> int \<Rightarrow> nat \<Rightarrow> term_spec list" where
  "utp_error_term P err p =
     [T_ATOM ''utp_error'', T_PORT p, T_ATOM (errno_id (api P) err), T_TUPLE 3]"

definition do_error :: "'q platform \<Rightarrow> 'q answers \<Rightarrow> int \<Rightarrow> 'q utp_handler \<Rightarrow> 'q utp_handler" where
  "do_error P ans errcode h0 =
     (let h = h0\<lparr>error_code := errcode\<rparr>
      in case status h of
           connect_pending \<Rightarrow>
             (let h1 = h\<lparr>status := connect_failed\<rparr>
              in if binary_bool (caller_ref h1)
                 then emit (OutputTerm (port h1) (error_term P (error_code h1) (caller_ref h1))) h1
                 else h1)
         | connected \<Rightarrow>
             (if errcode = ECONNRESET then snd (close_utp ans h)
              else if active (sockopts h) \<noteq> ACTIVE_FALSE
              then emit (OutputTerm (port h) (utp_error_term P errcode (port h))) h
              else h)
         | _ \<Rightarrow> h)"

text \<open>
  The loop of \<open>do_send_to\<close>: the answers of \<open>sendto\<close> are pairs of its result and \<open>errno\<close>. A
  negative index makes it read before the packet. The result is the error to report, if any; the
  loop has not ended when the answers are used up.
\<close>

fun send_loop :: "nat \<Rightarrow> int \<Rightarrow> (int \<times> int) list \<Rightarrow> 'q utp_handler \<Rightarrow> int option \<times> 'q utp_handler" where
  "send_loop len index [] h = (None, fault StillLooping h)"
| "send_loop len index ((count, err) # os) h =
     (let h1 = emit (SendTo index (int len - index)) (if index < 0 then fault OutOfBounds h else h)
      in if count = int len - index then (None, h1)
         else if count < 0 \<and> err \<noteq> EINTR \<and> err \<noteq> EAGAIN \<and> err \<noteq> EWOULDBLOCK then (Some err, h1)
         else send_loop len (index + count) os h1)"

definition UtpHandler_do_send_to ::
  "'q platform \<Rightarrow> 'q answers \<Rightarrow> nat \<Rightarrow> (int \<times> int) list \<Rightarrow> 'q utp_handler \<Rightarrow> 'q utp_handler" where
  "UtpHandler_do_send_to P ans len os h =
     (if udp_sock h \<noteq> INVALID_SOCKET then
        (case send_loop len 0 os h of
           (None, h') \<Rightarrow> h'
         | (Some err, h') \<Rightarrow> do_error P ans err h')
      else h)"

text \<open>\<open>Server\<close> overrides it, with \<open>send\<close> on its connected socket in place of \<open>sendto\<close>.\<close>

definition Server_do_send_to ::
  "'q platform \<Rightarrow> 'q answers \<Rightarrow> nat \<Rightarrow> (int \<times> int) list \<Rightarrow> 'q utp_handler \<Rightarrow> 'q utp_handler" where
  "Server_do_send_to P ans len os h =
     (if udp_sock h \<noteq> INVALID_SOCKET then
        (case send_loop len 0 os h of
           (None, h') \<Rightarrow> h'
         | (Some err, h') \<Rightarrow> do_error P ans err h')
      else h)"

definition do_send_to ::
  "'q platform \<Rightarrow> 'q answers \<Rightarrow> nat \<Rightarrow> (int \<times> int) list \<Rightarrow> 'q utp_handler \<Rightarrow> 'q utp_handler" where
  "do_send_to P ans len os h =
     (if server h then Server_do_send_to P ans len os h else UtpHandler_do_send_to P ans len os h)"

text \<open>
  \<open>do_read\<close> up to the last test: enqueue, count, deliver; the result is the local \<open>qsize\<close>, which
  starts as 1.
\<close>

definition read_deliver :: "'q platform \<Rightarrow> byte list \<Rightarrow> 'q utp_handler \<Rightarrow> nat \<times> 'q utp_handler" where
  "read_deliver P bytes h =
     (let h1 = h\<lparr>ioq := drv_enq (api P) (ioq h) bytes, read_count := read_count h @ [length bytes]\<rparr>
      in if active (sockopts h1) = ACTIVE_FALSE then
           (if receiver_waiting h1 then
              (let (ref, h2) = with_env (binary_copy (caller_ref h1)) h1;
                   (sent, qsize, h3) =
                     emit_read_buffer (api P) (recv_len h2) (ToCaller (caller h2) ref) 1 h2;
                   h4 = (if sent then reset_waiting_recv h3 else h3)
               in (qsize, drop_binary ref h4))
            else (1, h1))
         else snd (emit_read_buffer (api P) 0 ToConnected 1 h1))"

definition do_read :: "'q platform \<Rightarrow> 'q answers \<Rightarrow> byte list \<Rightarrow> 'q utp_handler \<Rightarrow> 'q utp_handler" where
  "do_read P ans bytes h =
     (if length bytes \<noteq> 0 then
        (case read_deliver P bytes h of
           (qsize, h1) \<Rightarrow> if qsize = 0 then snd (snd (call_utp UTP_RBDrained ans h1)) else h1)
      else h)"

definition do_write :: "nat \<Rightarrow> 'q utp_handler \<Rightarrow> byte list \<times> 'q utp_handler" where
  "do_write count h =
     (if count = 0 then ([], h)
      else (case wq_pop_bytes count (write_q h) (henv h) of
              Ret (bs, wq, w) \<Rightarrow> (bs, h\<lparr>write_q := wq, henv := w\<rparr>)
            | _ \<Rightarrow> ([], fault EmptyFront h)))"

definition do_get_rb_size :: "'q platform \<Rightarrow> 'q utp_handler \<Rightarrow> nat" where
  "do_get_rb_size P h = (if status h = connected then drv_sizeq (api P) (ioq h) else 0)"

definition retry_term :: "nat \<Rightarrow> term_spec list" where
  "retry_term p = [T_ATOM ''utp_reply'', T_PORT p, T_ATOM ''retry'', T_TUPLE 3]"

definition ref_ok_term :: "binary \<Rightarrow> term_spec list" where
  "ref_ok_term ref = [T_EXT2TERM (binary_term_data ref), T_ATOM ''ok'', T_TUPLE 2]"

definition on_eof :: "'q answers \<Rightarrow> 'q utp_handler \<Rightarrow> 'q utp_handler" where
  "on_eof ans h =
     (let h1 = h\<lparr>write_q := wq_clear (write_q h)\<rparr>;
          h2 = (if status h1 \<noteq> stopped then snd (close_utp ans h1) else h1)
      in (touch h2)\<lparr>writable := False, eof_seen := True\<rparr>)"

definition on_writable :: "'q answers \<Rightarrow> 'q utp_handler \<Rightarrow> 'q utp_handler" where
  "on_writable ans h =
     (let h1 = h\<lparr>writable := True\<rparr>;
          sz = wsz (write_q h1);
          (ans2, h2) =
            (if sz \<noteq> 0 then
               (case call_utp (\<lambda>u. UTP_Write u sz) ans h1 of
                  (r, ans', h') \<Rightarrow> (ans', (touch h')\<lparr>writable := r \<noteq> 0\<rparr>))
             else (ans, h1));
          h3 = (if writable h2 \<and> sender_waiting h2
                then (emit (SendTerm (port h2) (caller h2) (retry_term (port h2))) h2)\<lparr>sender_waiting := False\<rparr>
                else h2)
      in if close_pending h3 then snd (close_utp ans2 h3) else h3)"

definition on_connect :: "'q utp_handler \<Rightarrow> 'q utp_handler" where
  "on_connect h =
     (let h1 = (if status h = connect_pending \<and> binary_bool (caller_ref h)
                then emit (OutputTerm (port h) (ref_ok_term (caller_ref h))) h else h)
      in h1\<lparr>status := connected, writable := True\<rparr>)"

definition on_destroying :: "'q platform \<Rightarrow> 'q utp_handler \<Rightarrow> 'q utp_handler" where
  "on_destroying P h =
     (let h1 = (if selected h then (on_env (stop_input (udp_sock h)) h)\<lparr>selected := False\<rparr> else h)
      in if status h1 = closing then
           (let h2 =
              (if close_pending h1 \<and> binary_bool (caller_ref h1) then
                 (let t = ref_ok_term (caller_ref h1);
                      h3 = (if caller h1 \<noteq> NilTerm then emit (SendTerm (port h1) (caller h1) t) h1
                            else emit (OutputTerm (port h1) t) h1)
                  in h3\<lparr>caller := NilTerm, close_pending := False\<rparr>)
               else if active (sockopts h1) \<noteq> ACTIVE_FALSE then snd (emit_closed_message (api P) h1)
               else h1)
            in h2\<lparr>writable := False, status := destroying, eof_seen := False\<rparr>)
         else if status h1 = stopped then delete_utp_handler h1
         else h1)"

definition do_state_change :: "'q platform \<Rightarrow> 'q answers \<Rightarrow> int \<Rightarrow> 'q utp_handler \<Rightarrow> 'q utp_handler" where
  "do_state_change P ans s h0 =
     (let h = h0\<lparr>state := s\<rparr>
      in if s = UTP_STATE_EOF then on_eof ans h
         else if s = UTP_STATE_WRITABLE then on_writable ans h
         else if s = UTP_STATE_CONNECT then on_connect h
         else if s = UTP_STATE_DESTROYING then on_destroying P h
         else h)"

definition do_overhead :: "'q utp_handler \<Rightarrow> 'q utp_handler" where
  "do_overhead h = h"

definition Client_do_incoming :: "utp_socket \<Rightarrow> 'q utp_handler \<Rightarrow> 'q utp_handler" where
  "Client_do_incoming u h = h"

definition Server_do_incoming :: "utp_socket \<Rightarrow> 'q utp_handler \<Rightarrow> 'q utp_handler" where
  "Server_do_incoming u h =
     (if utp h = None
      then (set_utp_callbacks (h\<lparr>utp := Some u\<rparr>))\<lparr>writable := True, status := connected\<rparr>
      else h)"

definition do_incoming :: "utp_socket \<Rightarrow> 'q utp_handler \<Rightarrow> 'q utp_handler" where
  "do_incoming u h = (if server h then Server_do_incoming u h else Client_do_incoming u h)"

section \<open>Runs of libutp\<close>

text \<open>
  What libutp may do during a call: make callbacks, and during each callback answer the calls
  that the callback makes, to any depth. \<open>CbSendTo\<close> carries the packet's length and what the
  operating system answers, \<open>CbWrite\<close> the number of bytes asked for.
\<close>

datatype callback =
    CbSendTo nat "(int \<times> int) list"
  | CbRead "byte list"
  | CbWrite nat
  | CbRbSize
  | CbState int
  | CbError int
  | CbOverhead
  | CbIncoming utp_socket

datatype utp_run = UtpRun nat "(callback \<times> utp_run list) list"

text \<open>
  The static functions that libutp is given: they cast the pointer and call the method. The
  pointer may be to an object that has been deleted.
\<close>

definition do_callback :: "'q platform \<Rightarrow> 'q answers \<Rightarrow> callback \<Rightarrow> 'q utp_handler \<Rightarrow> 'q utp_handler" where
  "do_callback P ans cb h =
     (if deleted h then fault UseAfterFree h
      else (case cb of
              CbSendTo len os \<Rightarrow> do_send_to P ans len os h
            | CbRead bytes \<Rightarrow> do_read P ans bytes (emit (DataIn bytes) h)
            | CbWrite n \<Rightarrow> snd (do_write n h)
            | CbRbSize \<Rightarrow> h
            | CbState s \<Rightarrow> do_state_change P ans s h
            | CbError e \<Rightarrow> do_error P ans e h
            | CbOverhead \<Rightarrow> do_overhead h
            | CbIncoming u \<Rightarrow> do_incoming u h))"

fun run_utp :: "'q platform \<Rightarrow> utp_run \<Rightarrow> 'q answer"
and run_cbs :: "'q platform \<Rightarrow> (callback \<times> utp_run list) list \<Rightarrow> 'q utp_handler \<Rightarrow> 'q utp_handler" where
  "run_utp P (UtpRun r cbs) h = (r, run_cbs P cbs h)"
| "run_cbs P [] h = h"
| "run_cbs P ((cb, rs) # cbs) h = run_cbs P cbs (do_callback P (map (run_utp P) rs) cb h)"

section \<open>Operations of the port\<close>

definition input_ready ::
  "'q platform \<Rightarrow> 'q answers \<Rightarrow> int \<times> byte list \<Rightarrow> 'q utp_handler \<Rightarrow> 'q utp_handler" where
  "input_ready P ans os h =
     (case os of (len, bytes) \<Rightarrow>
        if len > 0 then
          (case take_answer ans (emit (UtpCall (UTP_IsIncomingUTP bytes)) (emit (Lock UtpMutex) h)) of
             (_, _, h1) \<Rightarrow> emit (Unlock UtpMutex) h1)
        else h)"

text \<open>\<open>peername\<close>: the address is what \<open>UTP_GetPeerName\<close> stores.\<close>

definition peername ::
  "'q platform \<Rightarrow> int \<times> SockAddr \<Rightarrow> nat \<Rightarrow> 'q utp_handler \<Rightarrow> ctl cpp \<times> 'q utp_handler" where
  "peername P os rlen h =
     (if status h \<noteq> connected \<or> utp h = None then with_env (encode_errno P rlen ENOTCONN) h
      else
        (let h1 = emit (Unlock UtpMutex) (emit (UtpCall (UTP_GetPeerName (the (utp h)))) (emit (Lock UtpMutex) h))
         in with_env (SockAddr_encode P rlen (fst os) (snd os)) h1))"

text \<open>An \<open>ErlIOVec\<close>: each element's bytes, and the binary it comes from, if any.\<close>

type_synonym iovec = "(byte list \<times> drv_binary option) list"

definition iov_size :: "iovec \<Rightarrow> nat" where
  "iov_size ev = sum_list (map (length \<circ> fst) ev)"

text \<open>The prefix of \<open>packet\<close> bytes with the size in network order, cut to that width.\<close>

definition packet_bytes :: "nat \<Rightarrow> nat \<Rightarrow> byte list" where
  "packet_bytes pk n =
     (if pk = 1 then [of_nat n] else if pk = 2 then bytes16 n else if pk = 4 then bytes32 n
      else replicate pk 0)"

text \<open>Pushing a new binary with the given content; a failed allocation is a null pointer followed.\<close>

definition push_new :: "'q platform \<Rightarrow> byte list \<Rightarrow> 'q utp_handler \<Rightarrow> 'q utp_handler" where
  "push_new P bs h =
     (case with_env (alloc_binary (api P) (length bs)) h of
        (None, h') \<Rightarrow> fault NullAlloc h'
      | (Some b, h') \<Rightarrow> h'\<lparr>write_q := wq_push_back (b\<lparr>orig_bytes := bs\<rparr>) (write_q h')\<rparr>)"

definition push_iov :: "'q platform \<Rightarrow> byte list \<times> drv_binary option \<Rightarrow> 'q utp_handler \<Rightarrow> 'q utp_handler" where
  "push_iov P e h =
     (case e of (bs, binv) \<Rightarrow>
        if length bs > 0 then push_new P bs h
        else (case binv of
                None \<Rightarrow> h
              | Some b \<Rightarrow>
                  (let h' = on_env (inc_refc b) h in h'\<lparr>write_q := wq_push_back b (write_q h')\<rparr>)))"

definition reply_term :: "nat \<Rightarrow> string \<Rightarrow> term_spec list" where
  "reply_term p a = [T_ATOM ''utp_reply'', T_PORT p, T_ATOM a, T_TUPLE 3]"

definition timeout_term :: "'q platform \<Rightarrow> nat \<Rightarrow> term_spec list" where
  "timeout_term P p =
     [T_ATOM ''utp_reply'', T_PORT p, T_ATOM ''error'', T_ATOM (errno_id (api P) ETIMEDOUT),
      T_TUPLE 2, T_TUPLE 3]"

definition wait_term :: "nat \<Rightarrow> int \<Rightarrow> term_spec list" where
  "wait_term p tmout =
     [T_ATOM ''utp_reply'', T_PORT p, T_ATOM ''wait''] @
     (if tmout = -1 then [T_TUPLE 3] else [T_UINT (ulong_of_int tmout), T_TUPLE 2, T_TUPLE 3])"

text \<open>What \<open>outputv\<close> puts into the write queue, and the total it asks libutp to write.\<close>

definition enqueue_output :: "'q platform \<Rightarrow> iovec \<Rightarrow> 'q utp_handler \<Rightarrow> nat \<times> 'q utp_handler" where
  "enqueue_output P ev h =
     (let size = iov_size ev
      in if size > 0 then
           (let pk = packet (sockopts h);
                h1 = (if pk > 0 then push_new P (packet_bytes pk size) h else h)
            in ((if pk > 0 then pk else 0) + size, fold (push_iov P) ev h1))
         else (0, h))"

definition outputv :: "'q platform \<Rightarrow> 'q answers \<Rightarrow> iovec \<Rightarrow> 'q utp_handler \<Rightarrow> 'q utp_handler" where
  "outputv P ans ev h =
     (if status h \<noteq> connected \<or> utp h = None then on_env (send_not_connected P (port h)) h
      else if writable h then
        (let local_caller = hcaller h;
             (write_total, h1) = enqueue_output P ev h
         in case call_utp (\<lambda>u. UTP_Write u write_total) ans (emit (Lock UtpMutex) h1) of
              (r, _, h2) \<Rightarrow>
                (let h3 = emit (Unlock UtpMutex) ((touch h2)\<lparr>writable := r \<noteq> 0\<rparr>)
                 in emit (SendTerm (port h3) local_caller (reply_term (port h3) ''ok'')) h3))
      else if send_tmout (sockopts h) = 0 then
        emit (SendTerm (port h) (hcaller h) (timeout_term P (port h))) h
      else
        (let local_caller = hcaller h;
             h1 = emit (Unlock UtpMutex)
                    ((emit (Lock UtpMutex) h)\<lparr>caller := local_caller, sender_waiting := True\<rparr>)
         in emit (SendTerm (port h1) local_caller (wait_term (port h1) (send_tmout (sockopts h1)))) h1))"

definition stop :: "'q platform \<Rightarrow> 'q answers \<Rightarrow> 'q utp_handler \<Rightarrow> 'q utp_handler" where
  "stop P ans h =
     (let h1 = (if utp h \<noteq> None
                then emit (Unlock UtpMutex) (snd (close_utp ans (emit (Lock UtpMutex) h))) else h);
          h2 = touch h1;
          qsize = drv_sizeq (api P) (ioq h2);
          h3 = (if qsize \<noteq> 0 then h2\<lparr>ioq := drv_deq (api P) (ioq h2) qsize\<rparr> else h2)
      in if status h3 = destroying then delete_utp_handler h3 else h3\<lparr>status := stopped\<rparr>)"

text \<open>\<open>setopts\<close>: the base class, then the buffer sizes that changed are told to libutp.\<close>

definition setopts ::
  "'q platform \<Rightarrow> byte list \<Rightarrow> nat \<Rightarrow> 'q utp_handler \<Rightarrow> ctl cpp \<times> 'q utp_handler" where
  "setopts P buf rlen h =
     (case SocketHandler_setopts P buf rlen h of
        (Ret r, h1) \<Rightarrow>
          (let h2 = (if sndbuf (sockopts h) \<noteq> sndbuf (sockopts h1)
                     then set_sockopt SO_SNDBUF (sndbuf (sockopts h1)) h1 else h1);
               h3 = (if recbuf (sockopts h) \<noteq> recbuf (sockopts h2)
                     then set_sockopt SO_RCVBUF (recbuf (sockopts h2)) h2 else h2)
           in (Ret r, h3))
      | r \<Rightarrow> r)"

text \<open>Parsing into \<open>caller_ref\<close> itself, as \<open>close\<close> does.\<close>

definition parse_caller_ref :: "'q platform \<Rightarrow> byte list \<Rightarrow> 'q utp_handler \<Rightarrow> parse \<times> 'q utp_handler" where
  "parse_caller_ref P buf h =
     (case parse_binary (api P) (ei P) buf (caller_ref h) (henv h) of
        (r, b, w) \<Rightarrow> (r, h\<lparr>caller_ref := b, henv := w\<rparr>))"

definition close ::
  "'q platform \<Rightarrow> 'q answers \<Rightarrow> byte list \<Rightarrow> nat \<Rightarrow> 'q utp_handler \<Rightarrow> ctl cpp \<times> 'q utp_handler" where
  "close P ans buf rlen h =
     (let reply = (\<lambda>a. with_env (encode_plain P rlen [enc_atom (ei P) a]))
      in if \<not> close_pending h \<and> (eof_seen h \<or> status h \<noteq> closing \<and> status h \<noteq> destroying) then
           (case parse_caller_ref P buf
                   ((emit (Lock UtpMutex) h)\<lparr>status := closing, close_pending := True, eof_seen := False\<rparr>) of
              (ParseBadArg, h1) \<Rightarrow> (Ret CtlBadArg, emit (Unlock UtpMutex) h1)
            | (ParseUndef, h1) \<Rightarrow> (Undef, h1)
            | (ParseOk, h1) \<Rightarrow>
                reply ''wait'' (emit (Unlock UtpMutex) (snd (close_utp ans (h1\<lparr>caller := hcaller h1\<rparr>)))))
         else reply ''ok'' h)"

text \<open>The argument of \<open>recv\<close>: a pair of the length and a binary.\<close>

definition parse_recv ::
  "'q platform \<Rightarrow> byte list \<Rightarrow> 'q utp_handler \<Rightarrow> parse \<times> nat \<times> binary \<times> 'q utp_handler" where
  "parse_recv P buf h =
     (case cpp_bind (EiDecoder (ei P) buf (length buf)) (dec_tuple_header (ei P)) of
        Throw _ \<Rightarrow> (ParseBadArg, 0, binary_new, h)
      | Undef \<Rightarrow> (ParseUndef, 0, binary_new, h)
      | Ret (arity, d) \<Rightarrow>
          if arity \<noteq> 2 then (ParseBadArg, 0, binary_new, h)
          else (case dec_ulongval (ei P) d of
                  Throw _ \<Rightarrow> (ParseBadArg, 0, binary_new, h)
                | Undef \<Rightarrow> (ParseUndef, 0, binary_new, h)
                | Ret (n, d') \<Rightarrow>
                    (case parse_binary_at (api P) (ei P) (Ret d') binary_new (henv h) of
                       (r, b, w) \<Rightarrow> (r, n, b, h\<lparr>henv := w\<rparr>))))"

definition recv ::
  "'q platform \<Rightarrow> 'q answers \<Rightarrow> byte list \<Rightarrow> nat \<Rightarrow> 'q utp_handler \<Rightarrow> ctl cpp \<times> 'q utp_handler" where
  "recv P ans buf rlen h =
     (if active (sockopts h) \<noteq> ACTIVE_FALSE then (Ret CtlBadArg, h)
      else (case parse_recv P buf h of
        (ParseBadArg, _, ref, h1) \<Rightarrow> (Ret CtlBadArg, drop_binary ref h1)
      | (ParseUndef, _, ref, h1) \<Rightarrow> (Undef, h1)
      | (ParseOk, len, ref, h1) \<Rightarrow>
          (let local_caller = hcaller h1;
               (rref, h2) = with_env (binary_copy ref) h1;
               (sent, qsize, h3) = emit_read_buffer (api P) len (ToCaller local_caller rref) 1 h2;
               h4 = (if sent \<and> qsize = 0
                     then emit (Unlock UtpMutex)
                            (snd (snd (call_utp UTP_RBDrained ans (emit (Lock UtpMutex) h3))))
                     else h3);
               (ref5, h5) =
                 (if \<not> sent then
                    (let (ref', cref') = binary_swap ref (caller_ref h4)
                     in (ref', emit (Unlock UtpMutex) ((emit (Lock UtpMutex) h4)
                           \<lparr>caller_ref := cref', caller := local_caller, recv_len := len,
                             receiver_waiting := True\<rparr>)))
                  else (ref, h4));
               (r, h6) = with_env (encode_plain P rlen [enc_atom (ei P) ''wait'']) h5
           in (r, drop_binary ref5 (drop_binary rref h6)))))"

definition cancel_send :: "'q utp_handler \<Rightarrow> ctl cpp \<times> 'q utp_handler" where
  "cancel_send h =
     (Ret CtlZero, emit (Unlock UtpMutex)
        ((emit (Lock UtpMutex) h)\<lparr>sender_waiting := False, caller := NilTerm\<rparr>))"

definition cancel_recv :: "'q utp_handler \<Rightarrow> ctl cpp \<times> 'q utp_handler" where
  "cancel_recv h =
     (Ret CtlZero, emit (Unlock UtpMutex) (reset_waiting_recv (emit (Lock UtpMutex) h)))"

section \<open>Client\<close>

text \<open>\<open>new_sock\<close> is what \<open>UTP_Create\<close> returns.\<close>

definition connect_to :: "'q answers \<Rightarrow> utp_socket option \<Rightarrow> 'q utp_handler \<Rightarrow> 'q utp_handler" where
  "connect_to ans new_sock h =
     (let h1 = emit (UtpCall UTP_Create) (emit (Lock UtpMutex) (h\<lparr>status := connect_pending\<rparr>));
          h2 = set_utp_callbacks (h1\<lparr>utp := new_sock\<rparr>)
      in emit (Unlock UtpMutex) (snd (snd (call_utp UTP_Connect ans h2))))"

definition decimal_digit :: "nat \<Rightarrow> char" where
  "decimal_digit n = char_of (48 + n)"

text \<open>\<open>sprintf\<close> of the status, which is a single digit.\<close>

definition illegal_state_msg :: "utp_status \<Rightarrow> string" where
  "illegal_state_msg s = ''utpdrv illegal connect state: '' @ [decimal_digit (status_number s)]"

definition validate_chain :: "'q platform \<Rightarrow> 'q utp_handler \<Rightarrow> (encoder \<Rightarrow> encoder cpp) list" where
  "validate_chain P h =
     (let E = ei P
      in case status h of
           connect_pending \<Rightarrow> [enc_atom E ''wait'']
         | connect_failed \<Rightarrow>
             [enc_tuple_header E 2, enc_atom E ''error'', enc_atom E (errno_id (api P) (error_code h))]
         | connected \<Rightarrow> [enc_atom E ''ok'']
         | _ \<Rightarrow> [enc_tuple_header E 2, enc_atom E ''error'', enc_string E (illegal_state_msg (status h))])"

definition connect_validate ::
  "'q platform \<Rightarrow> byte list \<Rightarrow> nat \<Rightarrow> 'q utp_handler \<Rightarrow> ctl cpp \<times> 'q utp_handler" where
  "connect_validate P buf rlen h =
     (case parse_arg P buf h of
        (ParseBadArg, b, h1) \<Rightarrow> (Ret CtlBadArg, drop_binary b h1)
      | (ParseUndef, b, h1) \<Rightarrow> (Undef, h1)
      | (ParseOk, b, h1) \<Rightarrow>
          (case cpp_bind (EiEncoder (ei P)) (enc_chain (validate_chain P h1)) of
             Throw e \<Rightarrow> (Throw e, drop_binary b h1)
           | Undef \<Rightarrow> (Undef, h1)
           | Ret enc \<Rightarrow>
               (let (b', h2) =
                  (case status h1 of
                     connect_pending \<Rightarrow>
                       (let (b', r) = binary_swap b (caller_ref h1) in (b', h1\<lparr>caller_ref := r\<rparr>))
                   | connect_failed \<Rightarrow> (b, h1\<lparr>status := not_connected\<rparr>)
                   | _ \<Rightarrow> (b, h1));
                    (r, h3) = with_env (copy_to_binary (api P) enc rlen) h2
                in (ctl_of r, drop_binary b' h3))))"

section \<open>Dispatch\<close>

text \<open>What the surroundings answer during a control call.\<close>

record 'q ctl_world =
  cw_ans :: "'q answers"
  cw_sockname :: "int \<times> int \<times> SockAddr"
  cw_peername :: "int \<times> SockAddr"

definition UtpHandler_control ::
  "'q platform \<Rightarrow> 'q ctl_world \<Rightarrow> nat \<Rightarrow> byte list \<Rightarrow> nat \<Rightarrow> 'q utp_handler \<Rightarrow> ctl cpp \<times> 'q utp_handler" where
  "UtpHandler_control P c cmd buf rlen h =
     (case command_of cmd of
        UTP_CANCEL_SEND \<Rightarrow> cancel_send h
      | UTP_RECV \<Rightarrow> recv P (cw_ans c) buf rlen h
      | UTP_CANCEL_RECV \<Rightarrow> cancel_recv h
      | UTP_SETOPTS \<Rightarrow> setopts P buf rlen h
      | _ \<Rightarrow> SocketHandler_control P (cw_sockname c) (close P (cw_ans c)) (peername P (cw_peername c))
               (setopts P) cmd buf rlen h)"

definition Client_control ::
  "'q platform \<Rightarrow> 'q ctl_world \<Rightarrow> nat \<Rightarrow> byte list \<Rightarrow> nat \<Rightarrow> 'q utp_handler \<Rightarrow> ctl cpp \<times> 'q utp_handler" where
  "Client_control P c cmd buf rlen h =
     (if command_of cmd = UTP_CONNECT_VALIDATE then connect_validate P buf rlen h
      else UtpHandler_control P c cmd buf rlen h)"

definition utp_control ::
  "'q platform \<Rightarrow> 'q ctl_world \<Rightarrow> nat \<Rightarrow> byte list \<Rightarrow> nat \<Rightarrow> 'q utp_handler \<Rightarrow> ctl cpp \<times> 'q utp_handler" where
  "utp_control P c cmd buf rlen h =
     (if server h then UtpHandler_control P c cmd buf rlen h else Client_control P c cmd buf rlen h)"

end
