(* ===== verification/Delivery.thy ===== *)
theory Delivery
  imports Socket_Handler
begin

text \<open>
  What \<open>emit_read_buffer\<close> and the functions below it do with the bytes in the port's queue:
  which bytes a message carries, what stays queued, when nothing happens, and the inputs that
  make the code read outside its buffers or lists.
\<close>

section \<open>The queue of a handler\<close>

definition queued :: "'q drv_api \<Rightarrow> ('q, 'a) handler_scheme \<Rightarrow> byte list" where
  "queued D h = queue_bytes D (ioq h)"

lemma queued_frame [simp]:
  "queued D (emit a h) = queued D h" "queued D (fault x h) = queued D h"
  "queued D (on_env f h) = queued D h"
  by (simp_all add: queued_def)

lemma queued_sock_update [simp]:
  fixes h :: "('q, 'a) sock"
  shows "queued D (h\<lparr>read_count := rc\<rparr>) = queued D h" "queued D (h\<lparr>sockopts := so\<rparr>) = queued D h"
    "queued D (h\<lparr>close_pending := b\<rparr>) = queued D h"
  by (simp_all add: queued_def)

lemma sizeq_queued: "ioq_laws D \<Longrightarrow> drv_sizeq D (ioq h) = length (queued D h)"
  by (simp add: ioq_sizeq queued_def)

lemma concat_peekq: "concat (drv_peekq D (ioq h)) = queued D h"
  by (simp add: queued_def queue_bytes_def)

text \<open>
  The bookkeeping invariant of the raw stream: \<open>read_count\<close> splits the queue into non-empty
  pieces, and the queue fits in 32 bits.
\<close>

definition rc_ok :: "'q drv_api \<Rightarrow> ('q, 'a) sock \<Rightarrow> bool" where
  "rc_ok D h \<longleftrightarrow> sum_list (read_count h) = length (queued D h) \<and> (\<forall>c \<in> set (read_count h). 0 < c) \<and>
     length (queued D h) < 2 ^ 32"

section \<open>Moving bytes\<close>

lemma move_loop_take:
  "got \<le> n \<Longrightarrow> move_loop vec n got buf = buf @ take (n - got) (concat vec)"
proof (induction vec n got buf rule: move_loop.induct)
  case (2 v vs n got buf)
  then show ?case by (auto simp: Let_def diff_diff_add)
qed simp

lemma move_read_data_eq:
  "move_read_data D vec buf n h = (buf', qsize, h') \<Longrightarrow> h' = h\<lparr>ioq := drv_deq D (ioq h) n\<rparr>"
  by (simp add: move_read_data_def Let_def)

lemma move_read_data_queue:
  assumes "ioq_laws D" "n \<le> length (queued D h)" "concat vec = queued D h"
    and "move_read_data D vec buf n h = (buf', qsize, h')"
  shows "buf' = buf @ take n (queued D h) \<and> queued D h' = drop n (queued D h) \<and>
    qsize = length (queued D h) - n \<and> h' = h\<lparr>ioq := ioq h'\<rparr>"
  using assms
  by (auto simp: move_read_data_def Let_def move_loop_take queued_def ioq_deq ioq_sizeq)

lemma reduce_loop_spec:
  "i \<le> n \<Longrightarrow>
   (case reduce_loop n i rc of
      None \<Rightarrow> i + sum_list rc < n
    | Some rc' \<Rightarrow> n \<le> i + sum_list rc \<and> sum_list rc' = i + sum_list rc - n)"
proof (induction n i rc rule: reduce_loop.induct)
  case (1 n i rc)
  show ?case
  proof (cases "i < n")
    case False
    then have "i = n" using 1(2) by simp
    then show ?thesis by (simp add: reduce_loop.simps [of n n])
  next
    case True
    show ?thesis
    proof (cases rc)
      case Nil
      then show ?thesis using True by (simp add: reduce_loop.simps [of n i])
    next
      case (Cons c cs)
      show ?thesis
      proof (cases "i + c > n")
        case gt: True
        then show ?thesis using True Cons
          by (simp add: reduce_loop.simps [of n i] reduce_loop.simps [of n "i + c"])
      next
        case False
        then have "case reduce_loop n (i + c) cs of
            None \<Rightarrow> i + c + sum_list cs < n
          | Some rc' \<Rightarrow> n \<le> i + c + sum_list cs \<and> sum_list rc' = i + c + sum_list cs - n"
          using 1(1) [OF True Cons refl] by (simp cong: option.case_cong)
        then show ?thesis using True Cons False
          by (simp add: reduce_loop.simps [of n i] add.assoc cong: option.case_cong)
      qed
    qed
  qed
qed

lemma reduce_loop_pos:
  "\<forall>c \<in> set rc. 0 < c \<Longrightarrow> reduce_loop n i rc = Some rc' \<Longrightarrow> \<forall>c \<in> set rc'. 0 < c"
proof (induction n i rc rule: reduce_loop.induct)
  case (1 n i rc)
  note run = 1(3) [unfolded reduce_loop.simps [of n i rc]]
  show ?case
  proof (cases "i < n")
    case False
    then show ?thesis using run 1(2) by simp
  next
    case True
    then obtain c cs where rc: "rc = c # cs" using run by (cases rc) auto
    let ?rc = "if i + c > n then (i + c - n) # cs else cs"
    have "\<forall>a \<in> set ?rc. 0 < a" using 1(2) rc by simp
    moreover have "reduce_loop n (i + c) ?rc = Some rc'" using run True rc by (simp add: Let_def)
    ultimately show ?thesis by (rule 1(1) [OF True rc refl])
  qed
qed

lemma reduce_read_count_Some:
  "n \<le> sum_list rc \<Longrightarrow> \<exists>rc'. reduce_read_count n rc = Some rc' \<and> sum_list rc' = sum_list rc - n"
  using reduce_loop_spec [of 0 n rc] by (auto simp: reduce_read_count_def split: option.splits)

lemma reduce_read_count_None: "sum_list rc < n \<Longrightarrow> reduce_read_count n rc = None"
  using reduce_loop_spec [of 0 n rc] by (auto simp: reduce_read_count_def split: option.splits)

lemma reduce_read_count_pos:
  "\<forall>c \<in> set rc. 0 < c \<Longrightarrow> reduce_read_count n rc = Some rc' \<Longrightarrow> \<forall>c \<in> set rc'. 0 < c"
  unfolding reduce_read_count_def by (rule reduce_loop_pos)

section \<open>Messages\<close>

fun packet_msg :: "receiver \<Rightarrow> nat \<Rightarrow> SockOpts \<Rightarrow> u32 \<Rightarrow> byte list \<Rightarrow> action" where
  "packet_msg ToConnected p so pkt_size buf = OutputTerm p (connected_term p so pkt_size buf)"
| "packet_msg (ToCaller c ref) p so pkt_size buf = SendTerm p c (receiver_term so pkt_size buf ref)"

lemma send_packet_emit:
  "send_packet rcvr pkt_size buf h = emit (packet_msg rcvr (port h) (sockopts h) pkt_size buf) h"
  by (cases rcvr) simp_all

text \<open>The message for a whole buffer.\<close>

definition msg_of :: "receiver \<Rightarrow> nat \<Rightarrow> SockOpts \<Rightarrow> byte list \<Rightarrow> action" where
  "msg_of rcvr p so buf = packet_msg rcvr p so (of_nat (length buf)) buf"

lemma unat_u32: "n < 2 ^ 32 \<Longrightarrow> unat (of_nat n :: u32) = n"
  by (simp add: unat_of_nat)

lemma unat_u32_mod: "unat (of_nat n :: u32) = n mod 4294967296"
  by (simp add: unat_of_nat)

lemma rest_size_of_nat:
  assumes "hdr \<le> n" "n < 2 ^ 32"
  shows "rest_size (of_nat n) hdr = n - hdr"
proof -
  have eq: "(of_nat n :: u32) - of_nat hdr = of_nat (n - hdr)" using assms(1) by (simp add: of_nat_diff)
  show ?thesis unfolding rest_size_def eq by (rule unat_u32) (use assms in simp)
qed

lemma in_buffer_whole:
  "header so \<le> length buf \<Longrightarrow> length buf < 2 ^ 32 \<Longrightarrow> in_buffer so (of_nat (length buf)) buf"
  by (simp add: in_buffer_def rest_size_of_nat)

text \<open>The bytes a message carries to Erlang.\<close>

fun term_data :: "term_spec \<Rightarrow> byte list" where
  "term_data (T_UINT n) = [of_nat n]"
| "term_data (T_STRING bs n) = take n bs"
| "term_data (T_BUF2BINARY bs n) = take n bs"
| "term_data _ = []"

fun payload :: "action \<Rightarrow> byte list" where
  "payload (OutputTerm p (T_ATOM a # ts)) = (if a = ''utp'' then concat (map term_data ts) else [])"
| "payload (SendTerm p c (T_EXT2TERM r # ts)) = concat (map term_data ts)"
| "payload _ = []"

definition payloads :: "action list \<Rightarrow> byte list" where
  "payloads as = concat (map payload as)"

lemma payloads_append [simp]: "payloads (xs @ ys) = payloads xs @ payloads ys"
  by (simp add: payloads_def)

lemma payloads_simps [simp]: "payloads [] = []" "payloads [a] = payload a"
  by (simp_all add: payloads_def)

lemma header_terms_data [simp]: "concat (map term_data (header_terms hdr buf)) = take hdr buf"
proof -
  have "map (term_data \<circ> (\<lambda>b. T_UINT (unat b))) xs = map (\<lambda>b. [b]) xs" for xs :: "byte list"
    by simp
  then have "map term_data (header_terms hdr buf) = map (\<lambda>b. [b]) (take hdr buf)"
    by (simp add: header_terms_def)
  then show ?thesis by simp
qed

lemma list_terms_data [simp]: "concat (map term_data (list_terms hdr)) = []"
  by (simp add: list_terms_def)

lemma payload_packet_msg:
  "payload (packet_msg rcvr p so pkt_size buf) =
     take (header so) buf @ take (rest_size pkt_size (header so)) (drop (header so) buf)"
  by (cases rcvr) (simp_all add: connected_term_def receiver_term_def Let_def)

lemma payload_msg_of:
  "header so \<le> length buf \<Longrightarrow> length buf < 2 ^ 32 \<Longrightarrow> payload (msg_of rcvr p so buf) = buf"
  by (simp add: msg_of_def payload_packet_msg rest_size_of_nat)

section \<open>The delivery loop\<close>

text \<open>A message that is already in the buffer.\<close>

lemma deliver_one:
  "buf \<noteq> [] \<Longrightarrow> in_buffer (sockopts h) pkt buf \<Longrightarrow>
   deliver_loop D 1 rcvr vec buf pkt q h =
     (q, emit (packet_msg rcvr (port h) (sockopts h) pkt buf) h)"
  by (simp add: send_packet_emit)

lemma deliver_whole:
  assumes "length buf = n" "0 < n" "n < 2 ^ 32" "header (sockopts h) \<le> n"
  shows "deliver_loop D 1 rcvr vec buf (of_nat n) q h = (q, emit (msg_of rcvr (port h) (sockopts h) buf) h)"
proof -
  have "in_buffer (sockopts h) (of_nat n) buf" using in_buffer_whole [of "sockopts h" buf] assms by simp
  then show ?thesis using deliver_one [of buf h "of_nat n"] assms(1,2) by (auto simp: msg_of_def)
qed

fun pieces :: "nat list \<Rightarrow> 'b list \<Rightarrow> 'b list list" where
  "pieces [] xs = []"
| "pieces (c # cs) xs = take c xs # pieces cs (drop c xs)"

lemma concat_pieces: "concat (pieces cs xs) = take (sum_list cs) xs"
  by (induction cs xs rule: pieces.induct) (simp_all add: take_add)

lemma length_pieces [simp]: "length (pieces cs xs) = length cs"
  by (induction cs xs rule: pieces.induct) simp_all

text \<open>One round of the loop that takes the next piece.\<close>

lemma next_piece:
  assumes "ioq_laws D" "rc_ok D h" "read_count h = c # cs"
  obtains h1 where
    "move_read_data D (drv_peekq D (ioq h)) [] (unat (of_nat c :: u32)) (h\<lparr>read_count := cs\<rparr>) =
       (take c (queued D h), length (queued D h) - c, h1)"
    "queued D h1 = drop c (queued D h)" "h1 = h\<lparr>read_count := cs, ioq := ioq h1\<rparr>" "rc_ok D h1"
    "length (take c (queued D h)) = c" "0 < c"
proof -
  have c: "c \<le> length (queued D h)" "c < 2 ^ 32" "0 < c" using assms by (auto simp: rc_ok_def)
  obtain buf' q h1 where r: "move_read_data D (drv_peekq D (ioq h)) [] c (h\<lparr>read_count := cs\<rparr>) = (buf', q, h1)"
    by (metis prod_cases3)
  have r2: "buf' = take c (queued D h)" "q = length (queued D h) - c"
    "queued D h1 = drop c (queued D h)" "h1 = h\<lparr>read_count := cs, ioq := ioq h1\<rparr>"
    using move_read_data_queue [OF assms(1) _ _ r] c(1) concat_peekq [of D h] by simp_all
  have "read_count h1 = cs" by (subst r2(4)) simp
  then have "rc_ok D h1" using assms c(1) by (auto simp: rc_ok_def r2(3))
  then show ?thesis using that [of h1] r r2 c by (simp add: unat_u32)
qed

text \<open>
  Without a fault the loop sends, for every piece it takes, one message that carries exactly that
  piece.
\<close>

lemma deliver_piece:
  assumes "ioq_laws D" "rc_ok D h" "read_count h = c # cs" "header (sockopts h) \<le> c"
  obtains h2 where "deliver_loop D (Suc n) rcvr (drv_peekq D (ioq h)) [] pkt qsize h =
      (if n \<noteq> 0 then deliver_loop D n rcvr (drv_peekq D (ioq h2)) [] (of_nat c) (length (queued D h) - c) h2
       else (length (queued D h) - c, h2))"
    and "queued D h2 = drop c (queued D h)" "read_count h2 = cs" "sockopts h2 = sockopts h" "port h2 = port h"
    "rc_ok D h2" "h2 = h\<lparr>ioq := ioq h2, read_count := cs,
      henv := (henv h)\<lparr>log := hlog h @ [msg_of rcvr (port h) (sockopts h) (take c (queued D h))]\<rparr>\<rparr>"
proof -
  obtain h1 where mv: "move_read_data D (drv_peekq D (ioq h)) [] (unat (of_nat c :: u32)) (h\<lparr>read_count := cs\<rparr>) =
       (take c (queued D h), length (queued D h) - c, h1)"
    and h1: "queued D h1 = drop c (queued D h)" "h1 = h\<lparr>read_count := cs, ioq := ioq h1\<rparr>" "rc_ok D h1"
    and len: "length (take c (queued D h)) = c" "0 < c"
    by (rule next_piece [OF assms(1-3)])
  have flds: "sockopts h1 = sockopts h" "port h1 = port h" "henv h1 = henv h" "read_count h1 = cs"
    by (subst h1(2), simp)+
  have small: "c < 2 ^ 32" using assms(2,3) by (auto simp: rc_ok_def)
  have inb: "in_buffer (sockopts h1) (of_nat c) (take c (queued D h))"
    using in_buffer_whole [of "sockopts h" "take c (queued D h)"] assms(4) small len(1) flds(1) by simp
  define h2 where "h2 = emit (msg_of rcvr (port h) (sockopts h) (take c (queued D h))) h1"
  have send: "send_packet rcvr (of_nat c) (take c (queued D h)) h1 = h2"
    using len(1) flds by (simp add: send_packet_emit h2_def msg_of_def)
  show thesis
  proof (rule that [of h2])
    show "deliver_loop D (Suc n) rcvr (drv_peekq D (ioq h)) [] pkt qsize h =
        (if n \<noteq> 0 then deliver_loop D n rcvr (drv_peekq D (ioq h2)) [] (of_nat c) (length (queued D h) - c) h2
         else (length (queued D h) - c, h2))"
      using inb by (simp add: assms(3) mv send)
    show "h2 = h\<lparr>ioq := ioq h2, read_count := cs,
        henv := (henv h)\<lparr>log := hlog h @ [msg_of rcvr (port h) (sockopts h) (take c (queued D h))]\<rparr>\<rparr>"
      unfolding h2_def by (subst h1(2)) (simp add: emit_def env_log_def)
  qed (use h1(1,3) flds in \<open>simp_all add: h2_def rc_ok_def\<close>)
qed

lemma deliver_pieces:
  assumes "ioq_laws D" "rc_ok D h" "n \<le> length (read_count h)"
    and "\<forall>c \<in> set (take n (read_count h)). header (sockopts h) \<le> c"
  shows "\<exists>h'. deliver_loop D n rcvr (drv_peekq D (ioq h)) [] pkt qsize h =
      (if n = 0 then qsize else length (queued D h'), h') \<and>
    queued D h' = drop (sum_list (take n (read_count h))) (queued D h) \<and>
    h' = h\<lparr>ioq := ioq h', read_count := drop n (read_count h),
           henv := (henv h)\<lparr>log := hlog h @
             map (msg_of rcvr (port h) (sockopts h)) (pieces (take n (read_count h)) (queued D h))\<rparr>\<rparr> \<and>
    rc_ok D h'"
  using assms(2-)
proof (induction n arbitrary: h pkt qsize)
  case 0
  then show ?case by (intro exI [of _ h]) simp
next
  case (Suc n)
  then obtain c cs where rc: "read_count h = c # cs" by (cases "read_count h") auto
  have "header (sockopts h) \<le> c" using Suc(4) rc by simp
  then obtain h2 where step: "deliver_loop D (Suc n) rcvr (drv_peekq D (ioq h)) [] pkt qsize h =
      (if n \<noteq> 0 then deliver_loop D n rcvr (drv_peekq D (ioq h2)) [] (of_nat c) (length (queued D h) - c) h2
       else (length (queued D h) - c, h2))"
    and h2: "queued D h2 = drop c (queued D h)" "read_count h2 = cs" "sockopts h2 = sockopts h" "port h2 = port h"
    "rc_ok D h2"
    and h2eq: "h2 = h\<lparr>ioq := ioq h2, read_count := cs,
      henv := (henv h)\<lparr>log := hlog h @ [msg_of rcvr (port h) (sockopts h) (take c (queued D h))]\<rparr>\<rparr>"
    by (rule deliver_piece [OF assms(1) Suc(2) rc])
  show ?case
  proof (cases "n = 0")
    case True
    then show ?thesis
      using step h2 h2eq rc by (intro exI [of _ h2]) simp
  next
    case False
    obtain h' where IH: "deliver_loop D n rcvr (drv_peekq D (ioq h2)) [] (of_nat c) (length (queued D h) - c) h2 =
          (length (queued D h'), h')"
      "queued D h' = drop (sum_list (take n cs)) (queued D h2)"
      "h' = h2\<lparr>ioq := ioq h', read_count := drop n cs,
           henv := (henv h2)\<lparr>log := hlog h2 @
             map (msg_of rcvr (port h) (sockopts h)) (pieces (take n cs) (queued D h2))\<rparr>\<rparr>"
      "rc_ok D h'"
      using Suc.IH [OF h2(5), of "of_nat c" "length (queued D h) - c"] Suc(3,4) rc h2 False by auto
    have "h' = h\<lparr>ioq := ioq h', read_count := drop n cs, henv := (henv h)\<lparr>log := hlog h @
        map (msg_of rcvr (port h) (sockopts h)) (pieces (take (Suc n) (read_count h)) (queued D h))\<rparr>\<rparr>"
      by (subst IH(3), subst (1 2 3) h2eq) (simp add: rc h2(1))
    then show ?thesis
      using step IH(1,2,4) False h2(1) rc by (intro exI [of _ h']) (simp add: add.commute)
  qed
qed

section \<open>No byte is lost, duplicated or reordered\<close>

lemma deliver_faults: "\<exists>xs. faults (snd (deliver_loop D n rcvr vec buf pkt q h)) = faults h @ xs"
proof (induction D n rcvr vec buf pkt q h rule: deliver_loop.induct)
  case (2 D n rcvr vec buf pkt q h)
  show ?case
  proof (cases "buf = [] \<and> read_count h = []")
    case False
    obtain pkt1 buf1 q1 h1 where st: "(if buf = [] then
              (let c = hd (read_count h); pkt = of_nat c :: u32
               in (pkt, move_read_data D vec buf (unat pkt) (h\<lparr>read_count := tl (read_count h)\<rparr>)))
            else (pkt, buf, q, h)) = (pkt1, buf1, q1, h1)"
      by (metis prod_cases4)
    then have f1: "faults h1 = faults h"
      by (auto simp: Let_def split: if_splits dest!: move_read_data_eq)
    have step: "deliver_loop D (Suc n) rcvr vec buf pkt q h =
        (if \<not> in_buffer (sockopts h1) pkt1 buf1 then (q1, fault OutOfBounds h1)
         else (if n \<noteq> 0 then deliver_loop D n rcvr (drv_peekq D (ioq (send_packet rcvr pkt1 buf1 h1))) [] pkt1 q1
                 (send_packet rcvr pkt1 buf1 h1)
               else (q1, send_packet rcvr pkt1 buf1 h1)))"
      using False by (simp only: deliver_loop.simps if_False st [unfolded Let_def] prod.case Let_def)
    show ?thesis
      unfolding step
      using 2 [OF False st [symmetric] refl refl] f1
      by (auto simp: send_packet_emit)
  qed simp
qed simp

lemma deliver_conserves:
  assumes "ioq_laws D" "rc_ok D h"
    and "deliver_loop D n rcvr (drv_peekq D (ioq h)) [] pkt q h = (q', h')" "faults h' = faults h"
  shows "payloads (hlog h') @ queued D h' = payloads (hlog h) @ queued D h \<and> rc_ok D h'"
  using assms(2-)
proof (induction n arbitrary: h pkt q)
  case (Suc n)
  obtain c cs where rc: "read_count h = c # cs"
    using Suc(3,4) by (cases "read_count h") auto
  obtain h1 where mv: "move_read_data D (drv_peekq D (ioq h)) [] (unat (of_nat c :: u32)) (h\<lparr>read_count := cs\<rparr>) =
       (take c (queued D h), length (queued D h) - c, h1)"
    and h1: "queued D h1 = drop c (queued D h)" "h1 = h\<lparr>read_count := cs, ioq := ioq h1\<rparr>" "rc_ok D h1"
    and len: "length (take c (queued D h)) = c" "0 < c"
    by (rule next_piece [OF assms(1) Suc(2) rc])
  have flds: "sockopts h1 = sockopts h" "port h1 = port h" "henv h1 = henv h" "faults h1 = faults h"
    by (subst h1(2), simp)+
  have small: "c < 2 ^ 32" using Suc(2) rc by (auto simp: rc_ok_def)
  define h2 where "h2 = send_packet rcvr (of_nat c) (take c (queued D h)) h1"
  have step: "(q', h') =
      (if \<not> in_buffer (sockopts h) (of_nat c) (take c (queued D h)) then (length (queued D h) - c, fault OutOfBounds h1)
       else if n \<noteq> 0 then deliver_loop D n rcvr (drv_peekq D (ioq h2)) [] (of_nat c) (length (queued D h) - c) h2
       else (length (queued D h) - c, h2))"
    using Suc(3) [symmetric] by (simp add: rc mv h2_def flds(1) Let_def)
  have inb: "in_buffer (sockopts h) (of_nat c) (take c (queued D h))"
    using step Suc(4) flds(4) by (auto split: if_splits)
  then have hdr: "header (sockopts h) \<le> length (take c (queued D h))" by (simp add: in_buffer_def)
  have pay: "payload (packet_msg rcvr (port h) (sockopts h) (of_nat c) (take c (queued D h))) = take c (queued D h)"
    using payload_msg_of [OF hdr, of rcvr "port h"] len(1) small by (simp add: msg_of_def)
  have h2: "queued D h2 = drop c (queued D h)" "rc_ok D h2" "faults h2 = faults h"
    "payloads (hlog h2) = payloads (hlog h) @ take c (queued D h)"
    using h1 flds pay by (simp_all add: h2_def send_packet_emit rc_ok_def)
  show ?case
  proof (cases "n = 0")
    case True
    then show ?thesis using step inb h2 by simp
  next
    case False
    then have rest: "deliver_loop D n rcvr (drv_peekq D (ioq h2)) [] (of_nat c) (length (queued D h) - c) h2 = (q', h')"
      using step inb by simp
    show ?thesis using Suc.IH [OF h2(2) rest] Suc(4) h2 by simp
  qed
qed simp

lemma finish_emit_keeps:
  assumes "finish_emit (q, h) = (b, q', h')"
  shows "hlog h' = hlog h \<and> queued D h' = queued D h \<and> read_count h' = read_count h \<and> faults h' = faults h"
  using assms by (auto simp: finish_emit_def queued_def)

lemma rc_ok_cong:
  "queued D h' = queued D h \<Longrightarrow> read_count h' = read_count h \<Longrightarrow> rc_ok D h' = rc_ok D h"
  by (simp add: rc_ok_def)

text \<open>One message from the buffer, when it causes no fault.\<close>

lemma deliver_one_ok:
  assumes "buf \<noteq> []" "length buf < 2 ^ 32"
    and "deliver_loop D 1 rcvr vec buf (of_nat (length buf)) q h = (q', h')" "faults h' = faults h"
  shows "h' = emit (msg_of rcvr (port h) (sockopts h) buf) h \<and>
    payload (msg_of rcvr (port h) (sockopts h) buf) = buf"
proof -
  have inb: "in_buffer (sockopts h) (of_nat (length buf)) buf"
    using assms(1,3,4) by (auto simp: One_nat_def split: if_splits)
  then show ?thesis
    using assms deliver_one [OF assms(1) inb, of D rcvr vec q] payload_msg_of [of "sockopts h" buf rcvr "port h"]
    by (simp add: msg_of_def in_buffer_def)
qed

lemma emit_passive_stream:
  assumes "ioq_laws D" "rc_ok D h" "queued D h \<noteq> []" "len \<le> length (queued D h)"
    and "emit_passive D len rcvr (length (queued D h)) h = (b, q', h')" "faults h' = faults h"
  shows "payloads (hlog h') @ queued D h' = payloads (hlog h) @ queued D h \<and> rc_ok D h'"
proof -
  define n where "n = (if len = 0 then length (queued D h) else len)"
  have n: "n < 2 ^ 32" "n \<le> length (queued D h)" "0 < n"
    using assms(2-4) by (auto simp: rc_ok_def n_def)
  have pkt: "(if len = 0 then of_nat (length (queued D h)) else of_nat len) = (of_nat n :: u32)"
    and un: "unat (of_nat n :: u32) = n" using n by (simp_all add: n_def unat_u32)
  obtain rc1 where rc1: "(if len = 0 then Some [] else reduce_read_count n (read_count h)) = Some rc1"
    "sum_list rc1 = length (queued D h) - n" "\<forall>c \<in> set rc1. 0 < c"
    using reduce_read_count_Some [of n "read_count h"] reduce_read_count_pos [of "read_count h" n]
      n n_def assms(2) by (cases "len = 0") (auto simp: rc_ok_def)
  let ?h = "h\<lparr>read_count := rc1\<rparr>"
  obtain buf q h1 where mv: "move_read_data D (drv_peekq D (ioq h)) [] n ?h = (buf, q, h1)"
    by (metis prod_cases3)
  have h1: "buf = take n (queued D h)" "queued D h1 = drop n (queued D h)"
    using move_read_data_queue [OF assms(1) _ _ mv] n concat_peekq [of D h] by simp_all
  have flds: "henv h1 = henv h" "read_count h1 = rc1" "faults h1 = faults h"
    using move_read_data_eq [OF mv] by simp_all
  have buf: "buf \<noteq> []" "length buf < 2 ^ 32" "length buf = n" using h1(1) n assms(3) by auto
  obtain q2 h2 where one: "deliver_loop D 1 rcvr (drv_peekq D (ioq h)) buf (of_nat n) q h1 = (q2, h2)"
    by fastforce
  have fin: "finish_emit (q2, h2) = (b, q', h')"
    using assms(5) unfolding emit_passive_def Let_def pkt un
    by (simp only: rc1(1) option.case mv prod.case one)
  have keep: "hlog h' = hlog h2" "queued D h' = queued D h2" "read_count h' = read_count h2"
    "faults h' = faults h2"
    using finish_emit_keeps [OF fin] by auto
  have h2: "h2 = emit (msg_of rcvr (port h1) (sockopts h1) buf) h1"
    "payload (msg_of rcvr (port h1) (sockopts h1) buf) = buf"
    using deliver_one_ok [OF buf(1,2)] one buf(3) keep(4) assms(6) flds(3) by metis+
  have "payloads (hlog h') @ queued D h' = payloads (hlog h) @ queued D h"
    using h2 h1 flds(1) by (simp add: keep)
  moreover have "rc_ok D h'"
    using rc1 h2(1) h1(2) flds(2) assms(2) by (simp add: rc_ok_def keep less_imp_diff_less)
  ultimately show ?thesis by simp
qed

lemma emit_stream_conserved:
  assumes "ioq_laws D" "rc_ok D h" "packet (sockopts h) = 0"
    and "emit_read_buffer D len rcvr q0 h = (b, q', h')" "faults h' = faults h"
  shows "payloads (hlog h') @ queued D h' = payloads (hlog h) @ queued D h \<and> rc_ok D h'"
proof (cases "close_pending h \<and> fst (emit_closed_message D h)")
  case True
  then have "h' = (snd (emit_closed_message D h))\<lparr>close_pending := False\<rparr>"
    using assms(4) by (simp add: emit_read_buffer_def)
  then show ?thesis
    using assms(2) by (auto simp: emit_closed_message_def closed_term_def Let_def rc_ok_def)
next
  case False
  note sz = sizeq_queued [OF assms(1), of h]
  have run: "emit_data D len rcvr h = (b, q', h')" using assms(4) False by (simp add: emit_read_buffer_def)
  show ?thesis
  proof (cases "queued D h = [] \<or> length (queued D h) < len")
    case True
    then show ?thesis using run assms(2,3) sz by (auto simp: emit_data_def Let_def)
  next
    case go: False
    show ?thesis
    proof (cases "active (sockopts h) = ACTIVE_FALSE")
      case True
      then have "emit_passive D len rcvr (length (queued D h)) h = (b, q', h')"
        using run go assms(3) sz by (simp add: emit_data_def Let_def packet_prefix_def)
      then show ?thesis using emit_passive_stream assms(1,2,5) go by (metis not_less)
    next
      case False
      let ?n = "if active (sockopts h) = ACTIVE_TRUE then length (read_count h) else 1"
      obtain q2 h2 where dl: "deliver_loop D ?n rcvr (drv_peekq D (ioq h)) [] 0 (length (queued D h)) h = (q2, h2)"
        by fastforce
      have fin: "finish_emit (q2, h2) = (b, q', h')"
        using run go assms(3) sz False dl by (simp add: emit_data_def Let_def packet_prefix_def emit_pieces_def)
      have keep: "hlog h' = hlog h2" "queued D h' = queued D h2" "read_count h' = read_count h2"
        "faults h' = faults h2"
        using finish_emit_keeps [OF fin] by auto
      show ?thesis
        using deliver_conserves [OF assms(1,2) dl] assms(5) keep rc_ok_cong [of D h' h2] by simp
    qed
  qed
qed

section \<open>A handler for the witnesses\<close>

definition sample_sock :: "byte list list sock_handler" where
  "sample_sock =
     (SocketHandler_new_fd 2 [[1, 2], [3]] env0 7 SockOpts_new)\<lparr>port := 9, read_count := [2, 1]\<rparr>"

lemma sample_sock_simps [simp]:
  "ioq sample_sock = [[1, 2], [3]]" "read_count sample_sock = [2, 1]" "port sample_sock = 9"
  "sockopts sample_sock = SockOpts_new" "close_pending sample_sock = False" "faults sample_sock = []"
  "henv sample_sock = env0" "hid sample_sock = 2"
  by (simp_all add: sample_sock_def SocketHandler_new_fd_def SocketHandler_new_def)

lemma SockOpts_new_simps [simp]:
  "packet SockOpts_new = 0" "active SockOpts_new = ACTIVE_TRUE" "header SockOpts_new = 0"
  "delivery_mode SockOpts_new = DATA_LIST" "send_tmout SockOpts_new = -1"
  by (simp_all add: SockOpts_new_def)

lemma peekq_chunk [simp]: "drv_peekq chunk_api q = q"
  by (simp add: chunk_api_def)

lemma queued_chunk [simp]: "queued chunk_api h = concat (ioq h)"
  by (simp add: queued_def queue_bytes_def)

lemma rc_ok_sample [simp]: "rc_ok chunk_api sample_sock"
  by (simp add: rc_ok_def)

section \<open>Properties\<close>

text \<open>C17: an active socket in raw mode delivers everything that is queued: one message per piece
  that libutp delivered, in order, each carrying exactly its piece (in the delivery mode and with
  the header the options ask for), and nothing stays queued or counted.\<close>

theorem active_delivery:
  "ioq_laws D \<Longrightarrow> rc_ok D h \<Longrightarrow> packet (sockopts h) = 0 \<Longrightarrow> active (sockopts h) = ACTIVE_TRUE \<Longrightarrow>
   \<not> close_pending h \<Longrightarrow> queued D h \<noteq> [] \<Longrightarrow>
   \<forall>c \<in> set (read_count h). header (sockopts h) \<le> c \<Longrightarrow>
   \<exists>h'. emit_read_buffer D 0 rcvr q0 h = (True, 0, h') \<and>
     queued D h' = [] \<and> read_count h' = [] \<and> faults h' = faults h \<and> sockopts h' = sockopts h \<and>
     hlog h' = hlog h @ map (msg_of rcvr (port h) (sockopts h)) (pieces (read_count h) (queued D h)) \<and>
     concat (pieces (read_count h) (queued D h)) = queued D h"
proof -
  assume laws: "ioq_laws D" and rc: "rc_ok D h" and pk: "packet (sockopts h) = 0"
    and act: "active (sockopts h) = ACTIVE_TRUE" and cp: "\<not> close_pending h"
    and ne: "queued D h \<noteq> []" and hdr: "\<forall>c \<in> set (read_count h). header (sockopts h) \<le> c"
  let ?n = "length (read_count h)" and ?q = "drv_sizeq D (ioq h)"
  have n0: "?n \<noteq> 0" using rc ne by (auto simp: rc_ok_def)
  obtain h' where h': "deliver_loop D ?n rcvr (drv_peekq D (ioq h)) [] 0 ?q h =
      (if ?n = 0 then ?q else length (queued D h'), h')"
    "queued D h' = drop (sum_list (take ?n (read_count h))) (queued D h)"
    "h' = h\<lparr>ioq := ioq h', read_count := drop ?n (read_count h),
           henv := (henv h)\<lparr>log := hlog h @
             map (msg_of rcvr (port h) (sockopts h)) (pieces (take ?n (read_count h)) (queued D h))\<rparr>\<rparr>"
    using deliver_pieces [OF laws rc order_refl, of rcvr 0 ?q] hdr by auto
  have empty: "queued D h' = []" using h'(2) rc by (simp add: rc_ok_def)
  have flds: "read_count h' = []" "faults h' = faults h" "sockopts h' = sockopts h"
    "hlog h' = hlog h @ map (msg_of rcvr (port h) (sockopts h)) (pieces (read_count h) (queued D h))"
    by (subst h'(3), simp)+
  have "emit_read_buffer D 0 rcvr q0 h = (True, 0, h')"
    using cp ne pk act h'(1) n0 empty flds(3)
    by (simp add: emit_read_buffer_def emit_data_def emit_pieces_def finish_emit_def packet_prefix_def
        sizeq_queued [OF laws] Let_def)
  moreover have "concat (pieces (read_count h) (queued D h)) = queued D h"
    using rc by (simp add: concat_pieces rc_ok_def)
  ultimately show ?thesis using empty flds by blast
qed

theorem active_delivery_witness:
  "\<exists>h'. emit_read_buffer chunk_api 0 ToConnected 1 sample_sock = (True, 0, h') \<and>
     queued chunk_api h' = [] \<and> read_count h' = [] \<and> faults h' = faults sample_sock \<and>
     sockopts h' = sockopts sample_sock \<and>
     hlog h' = hlog sample_sock @ map (msg_of ToConnected (port sample_sock) (sockopts sample_sock))
       (pieces (read_count sample_sock) (queued chunk_api sample_sock)) \<and>
     concat (pieces (read_count sample_sock) (queued chunk_api sample_sock)) = queued chunk_api sample_sock"
  by (rule active_delivery) simp_all

text \<open>C18: with \<open>{active, once}\<close> exactly the first piece is delivered, the rest stays queued and
  counted, and the socket becomes passive.\<close>

theorem active_once_delivery:
  "ioq_laws D \<Longrightarrow> rc_ok D h \<Longrightarrow> packet (sockopts h) = 0 \<Longrightarrow> active (sockopts h) = ACTIVE_ONCE \<Longrightarrow>
   \<not> close_pending h \<Longrightarrow> read_count h = c # cs \<Longrightarrow> header (sockopts h) \<le> c \<Longrightarrow>
   \<exists>h'. emit_read_buffer D 0 rcvr q0 h = (True, length (queued D h) - c, h') \<and>
     queued D h' = drop c (queued D h) \<and> read_count h' = cs \<and> faults h' = faults h \<and>
     active (sockopts h') = ACTIVE_FALSE \<and> rc_ok D h' \<and>
     hlog h' = hlog h @ [msg_of rcvr (port h) (sockopts h) (take c (queued D h))]"
proof -
  assume laws: "ioq_laws D" and rc: "rc_ok D h" and pk: "packet (sockopts h) = 0"
    and act: "active (sockopts h) = ACTIVE_ONCE" and cp: "\<not> close_pending h"
    and cs: "read_count h = c # cs" and hdr: "header (sockopts h) \<le> c"
  let ?q = "drv_sizeq D (ioq h)"
  have ne: "queued D h \<noteq> []" using rc cs by (auto simp: rc_ok_def)
  obtain h' where h': "deliver_loop D 1 rcvr (drv_peekq D (ioq h)) [] 0 ?q h = (length (queued D h'), h')"
    "queued D h' = drop c (queued D h)"
    "h' = h\<lparr>ioq := ioq h', read_count := cs,
           henv := (henv h)\<lparr>log := hlog h @ [msg_of rcvr (port h) (sockopts h) (take c (queued D h))]\<rparr>\<rparr>"
    "rc_ok D h'"
    using deliver_pieces [OF laws rc, of 1 rcvr 0 ?q] hdr cs by auto
  let ?h = "h'\<lparr>sockopts := (sockopts h')\<lparr>active := ACTIVE_FALSE\<rparr>\<rparr>"
  have flds: "read_count ?h = cs" "faults ?h = faults h" "sockopts h' = sockopts h"
    "hlog ?h = hlog h @ [msg_of rcvr (port h) (sockopts h) (take c (queued D h))]"
    by (subst h'(3), simp)+
  have "emit_read_buffer D 0 rcvr q0 h = (True, length (queued D h) - c, ?h)"
    using cp ne pk act h'(1,2) flds(3)
    by (simp add: emit_read_buffer_def emit_data_def emit_pieces_def finish_emit_def packet_prefix_def
        sizeq_queued [OF laws] Let_def)
  moreover have "rc_ok D ?h" using h'(4) by (simp add: rc_ok_def)
  ultimately show ?thesis using flds h'(2) by (intro exI [of _ ?h]) simp
qed

theorem active_once_delivery_witness:
  "\<exists>h'. emit_read_buffer chunk_api 0 ToConnected 1
       (sample_sock\<lparr>sockopts := SockOpts_new\<lparr>active := ACTIVE_ONCE\<rparr>\<rparr>) = (True, 1, h') \<and>
     concat (ioq h') = [3] \<and> read_count h' = [1] \<and> active (sockopts h') = ACTIVE_FALSE"
  using active_once_delivery [of chunk_api "sample_sock\<lparr>sockopts := SockOpts_new\<lparr>active := ACTIVE_ONCE\<rparr>\<rparr>"
      2 "[1]" ToConnected 1]
  by (auto simp: rc_ok_def)

text \<open>C19: a passive receive of \<open>len\<close> bytes gets exactly the next \<open>len\<close> bytes of the stream (all
  of them if \<open>len\<close> is 0), whatever pieces they came in, and leaves the rest with its bookkeeping
  intact. Nothing is sent to anyone else.\<close>

theorem passive_delivery:
  "ioq_laws D \<Longrightarrow> rc_ok D h \<Longrightarrow> packet (sockopts h) = 0 \<Longrightarrow> active (sockopts h) = ACTIVE_FALSE \<Longrightarrow>
   \<not> close_pending h \<Longrightarrow> queued D h \<noteq> [] \<Longrightarrow> len \<le> length (queued D h) \<Longrightarrow>
   n = (if len = 0 then length (queued D h) else len) \<Longrightarrow> header (sockopts h) \<le> n \<Longrightarrow>
   \<exists>h'. emit_read_buffer D len rcvr q0 h = (True, length (queued D h) - n, h') \<and>
     queued D h' = drop n (queued D h) \<and> faults h' = faults h \<and> sockopts h' = sockopts h \<and>
     rc_ok D h' \<and> hlog h' = hlog h @ [msg_of rcvr (port h) (sockopts h) (take n (queued D h))]"
proof -
  assume laws: "ioq_laws D" and rc: "rc_ok D h" and pk: "packet (sockopts h) = 0"
    and act: "active (sockopts h) = ACTIVE_FALSE" and cp: "\<not> close_pending h"
    and ne: "queued D h \<noteq> []" and len: "len \<le> length (queued D h)"
    and n: "n = (if len = 0 then length (queued D h) else len)" and hdr: "header (sockopts h) \<le> n"
  have small: "n < 2 ^ 32" "n \<le> length (queued D h)" "0 < n"
    using rc len n ne by (auto simp: rc_ok_def)
  have un: "unat (of_nat n :: u32) = n" using small by (simp add: unat_u32)
  obtain rc1 where rc1: "(if len = 0 then Some [] else reduce_read_count n (read_count h)) = Some rc1"
    "sum_list rc1 = length (queued D h) - n" "\<forall>c \<in> set rc1. 0 < c"
    using reduce_read_count_Some [of n "read_count h"] reduce_read_count_pos [of "read_count h" n]
      small n rc by (cases "len = 0") (auto simp: rc_ok_def)
  let ?h = "h\<lparr>read_count := rc1\<rparr>"
  obtain buf q h1 where mv: "move_read_data D (drv_peekq D (ioq h)) [] n ?h = (buf, q, h1)"
    by (metis prod_cases3)
  have h1: "buf = take n (queued D h)" "queued D h1 = drop n (queued D h)"
    "q = length (queued D h) - n" "h1 = ?h\<lparr>ioq := ioq h1\<rparr>"
    using move_read_data_queue [OF laws _ _ mv] small concat_peekq [of D h] by simp_all
  have flds: "sockopts h1 = sockopts h" "port h1 = port h" "henv h1 = henv h" "read_count h1 = rc1"
    "faults h1 = faults h"
    by (subst h1(4), simp)+
  define h2 where "h2 = emit (msg_of rcvr (port h) (sockopts h) buf) h1"
  have "emit_read_buffer D len rcvr q0 h = (True, q, h2)"
  proof -
    have sz: "drv_sizeq D (ioq h) = length (queued D h)" by (rule sizeq_queued [OF laws])
    have one: "deliver_loop D 1 rcvr (drv_peekq D (ioq h)) buf (of_nat n) q h1 = (q, h2)"
      using deliver_whole [of buf n h1] h1(1) small flds hdr by (simp add: h2_def)
    have pkt: "(if len = 0 then of_nat (length (queued D h)) else of_nat len) = (of_nat n :: u32)"
      by (simp add: n)
    have fin: "finish_emit (q, h2) = (True, q, h2)"
      using act flds(1) by (simp add: finish_emit_def h2_def)
    have "emit_passive D len rcvr (length (queued D h)) h = (True, q, h2)"
      unfolding emit_passive_def Let_def pkt un by (simp only: rc1(1) option.case mv prod.case one fin)
    then show ?thesis
      using cp ne pk act len
      by (simp add: emit_read_buffer_def emit_data_def packet_prefix_def Let_def sz)
  qed
  moreover have "rc_ok D h2"
    using rc1 h1(2) flds rc by (simp add: rc_ok_def h2_def less_imp_diff_less)
  ultimately show ?thesis
    using h1 flds by (intro exI [of _ h2]) (simp add: h2_def)
qed

theorem passive_delivery_witness:
  "\<exists>h'. emit_read_buffer chunk_api 1 (ToCaller (Proc 5) None) 1
       (sample_sock\<lparr>sockopts := SockOpts_new\<lparr>active := ACTIVE_FALSE\<rparr>\<rparr>) = (True, 2, h') \<and>
     concat (ioq h') = [2, 3] \<and> rc_ok chunk_api h'"
  using passive_delivery [of chunk_api "sample_sock\<lparr>sockopts := SockOpts_new\<lparr>active := ACTIVE_FALSE\<rparr>\<rparr>"
      1 1 "ToCaller (Proc 5) None" 1]
  by (auto simp: rc_ok_def)

text \<open>C21: when \<open>emit_read_buffer\<close> reports that it sent nothing, and no fault occurred, then no
  byte has left the queue and the bookkeeping is as before.\<close>

theorem refusal_keeps_data:
  "emit_read_buffer D len rcvr q0 h = (False, q, h') \<Longrightarrow> faults h' = faults h \<Longrightarrow>
   ioq h' = ioq h \<and> read_count h' = read_count h \<and> sockopts h' = sockopts h \<and>
   payloads (hlog h') = payloads (hlog h)"
  by (auto simp: emit_read_buffer_def emit_data_def emit_prefixed_def emit_passive_def emit_pieces_def
      finish_emit_def emit_closed_message_def closed_term_def Let_def
      split: if_splits option.splits prod.splits dest!: move_read_data_eq)

theorem refusal_keeps_data_witness:
  "ioq (snd (snd (emit_read_buffer chunk_api 4 ToConnected 1 sample_sock))) = ioq sample_sock"
proof -
  have "emit_read_buffer chunk_api 4 ToConnected 1 sample_sock = (False, 3, sample_sock)"
    by (simp add: emit_read_buffer_def emit_data_def chunk_api_def)
  from refusal_keeps_data [OF this refl] show ?thesis
    by (simp add: emit_read_buffer_def emit_data_def chunk_api_def)
qed

text \<open>C20: in packet mode, when a whole packet is queued, exactly its data are delivered and the
  prefix is dropped from the queue. But \<open>reduce_read_count\<close> only takes off the data: every
  delivered packet leaves \<open>read_count\<close> claiming \<open>packet\<close> more bytes than are queued.\<close>

theorem packet_delivery:
  "ioq_laws D \<Longrightarrow> packet_prefix (packet (sockopts h)) (drv_peekq D (ioq h)) = Some n \<Longrightarrow> 0 < n \<Longrightarrow>
   n + packet (sockopts h) \<le> length (queued D h) \<Longrightarrow> length (queued D h) < 2 ^ 32 \<Longrightarrow>
   n \<le> sum_list (read_count h) \<Longrightarrow> len \<le> length (queued D h) \<Longrightarrow> header (sockopts h) \<le> n \<Longrightarrow>
   \<not> close_pending h \<Longrightarrow>
   \<exists>h'. emit_read_buffer D len rcvr q0 h =
       (True, length (queued D h) - (packet (sockopts h) + n), h') \<and>
     hlog h' = hlog h @ [msg_of rcvr (port h) (sockopts h)
       (take n (drop (packet (sockopts h)) (queued D h)))] \<and>
     queued D h' = drop (packet (sockopts h) + n) (queued D h) \<and> faults h' = faults h \<and>
     sum_list (read_count h') = sum_list (read_count h) - n"
proof -
  let ?pk = "packet (sockopts h)" and ?Q = "queued D h"
  assume laws: "ioq_laws D" and pre: "packet_prefix ?pk (drv_peekq D (ioq h)) = Some n" and n: "0 < n"
    and len: "n + ?pk \<le> length ?Q" "length ?Q < 2 ^ 32" and rc: "n \<le> sum_list (read_count h)"
    and l: "len \<le> length ?Q" and hdr: "header (sockopts h) \<le> n" and cp: "\<not> close_pending h"
  have small: "n < 2 ^ 32" using len by simp
  have un: "unat (of_nat n :: u32) = n" using small by (simp add: unat_u32)
  have un2: "unat (of_nat ?pk + of_nat n :: u32) = ?pk + n"
    using unat_u32 [of "?pk + n"] len by simp
  have nz: "(of_nat n :: u32) \<noteq> 0" using un n by auto
  let ?h1 = "h\<lparr>ioq := drv_deq D (ioq h) ?pk\<rparr>"
  have q1: "queued D ?h1 = drop ?pk ?Q" using ioq_deq [OF laws] len by (simp add: queued_def)
  obtain buf q h2 where mv: "move_read_data D (drv_peekq D (ioq ?h1)) [] n ?h1 = (buf, q, h2)"
    by (metis prod_cases3)
  have h2: "buf = take n (drop ?pk ?Q)" "queued D h2 = drop (?pk + n) ?Q"
    "q = length ?Q - (?pk + n)" "h2 = ?h1\<lparr>ioq := ioq h2\<rparr>"
    using move_read_data_queue [OF laws _ concat_peekq mv] len q1 by (simp_all add: add.commute)
  obtain rc1 where rc1: "reduce_read_count n (read_count h2) = Some rc1"
    "sum_list rc1 = sum_list (read_count h) - n"
    using reduce_read_count_Some [OF rc] move_read_data_eq [OF mv] by auto
  define h3 where "h3 = h2\<lparr>read_count := rc1\<rparr>"
  have flds: "sockopts h3 = sockopts h" "port h3 = port h" "henv h3 = henv h" "read_count h3 = rc1"
    "faults h3 = faults h" "queued D h3 = drop (?pk + n) ?Q"
    using h2(2) move_read_data_eq [OF mv] by (simp_all add: h3_def)
  define h4 where "h4 = emit (msg_of rcvr (port h) (sockopts h) buf) h3"
  have one: "deliver_loop D 1 rcvr (drv_peekq D (ioq ?h1)) buf (of_nat n) q h3 = (q, h4)"
    using deliver_whole [of buf n h3] h2(1) len small n flds hdr by (simp add: h4_def)
  define h5 where "h5 = (if active (sockopts h4) = ACTIVE_ONCE
    then h4\<lparr>sockopts := (sockopts h4)\<lparr>active := ACTIVE_FALSE\<rparr>\<rparr> else h4)"
  have "emit_prefixed D rcvr (of_nat n) (length ?Q) h = (True, q, h5)"
    using len one mv rc1(1)
    by (simp add: emit_prefixed_def un un2 h3_def [symmetric] finish_emit_def h5_def Let_def)
  then have "emit_read_buffer D len rcvr q0 h = (True, q, h5)"
    using cp n len l nz pre sizeq_queued [OF laws, of h]
    by (auto simp: emit_read_buffer_def emit_data_def Let_def)
  then show ?thesis
    using h2(1,3) flds rc1(2) by (intro exI [of _ h5]) (simp add: h5_def h4_def)
qed

theorem packet_delivery_witness:
  "\<exists>h'. emit_read_buffer chunk_api 0 ToConnected 1
       (sample_sock\<lparr>sockopts := SockOpts_new\<lparr>packet := 1\<rparr>\<rparr>) = (True, 1, h') \<and>
     concat (ioq h') = [3] \<and> sum_list (read_count h') = 2"
  using packet_delivery [of chunk_api "sample_sock\<lparr>sockopts := SockOpts_new\<lparr>packet := 1\<rparr>\<rparr>" 1 0 ToConnected 1]
  by (auto simp: packet_prefix_def)

text \<open>C23: the check that a whole packet is queued is made in 32 bits: a 4-byte prefix of
  \<open>2 ^ 32 - 4\<close> or more wraps around and passes it, and \<open>reduce_read_count\<close> then takes the front
  of an empty list.\<close>

theorem packet_length_wraps:
  "ioq_laws D \<Longrightarrow> packet (sockopts h) = 4 \<Longrightarrow>
   packet_prefix 4 (drv_peekq D (ioq h)) = Some n \<Longrightarrow> 2 ^ 32 - 4 \<le> n \<Longrightarrow> n < 2 ^ 32 \<Longrightarrow>
   4 \<le> length (queued D h) \<Longrightarrow> sum_list (read_count h) < n \<Longrightarrow> len \<le> length (queued D h) \<Longrightarrow>
   \<not> close_pending h \<Longrightarrow>
   faults (snd (snd (emit_read_buffer D len rcvr q0 h))) = faults h @ [EmptyFront]"
proof -
  assume laws: "ioq_laws D" and pk: "packet (sockopts h) = 4"
    and pre: "packet_prefix 4 (drv_peekq D (ioq h)) = Some n" and n: "2 ^ 32 - 4 \<le> n" "n < 2 ^ 32"
    and q: "4 \<le> length (queued D h)" and rc: "sum_list (read_count h) < n"
    and len: "len \<le> length (queued D h)" and cp: "\<not> close_pending h"
  have un: "unat (of_nat n :: u32) = n" using n by (simp add: unat_u32)
  have nz: "(of_nat n :: u32) \<noteq> 0" using un n by auto
  have "unat (of_nat (4 + n) :: u32) = (4 + n) mod 4294967296" by (rule unat_u32_mod)
  also have "\<dots> < 4"
  proof -
    define k where "k = n - 4294967292"
    have k: "4 + n = k + 4294967296" "k < 4" using n by (simp_all add: k_def)
    have "(4 + n) mod 4294967296 = k mod 4294967296" unfolding k(1) by (rule mod_add_self2)
    then show ?thesis using k(2) mod_less_eq_dividend [of k 4294967296] by linarith
  qed
  finally have w: "unat (of_nat 4 + of_nat n :: u32) < 4" by (simp only: of_nat_add)
  let ?h1 = "h\<lparr>ioq := drv_deq D (ioq h) 4\<rparr>"
  obtain buf q' h2 where mv: "move_read_data D (drv_peekq D (ioq ?h1)) [] n ?h1 = (buf, q', h2)"
    by (metis prod_cases3)
  have h2: "read_count h2 = read_count h" "faults h2 = faults h"
    using move_read_data_eq [OF mv] by simp_all
  have "\<not> length (queued D h) < unat (of_nat 4 + of_nat n :: u32)" using w q by linarith
  then have "emit_prefixed D rcvr (of_nat n) (length (queued D h)) h = (False, q', fault EmptyFront h2)"
    using mv reduce_read_count_None [OF rc] h2
    by (simp add: emit_prefixed_def pk un Let_def)
  then show ?thesis
    using cp q len nz pre pk h2 sizeq_queued [OF laws, of h]
    by (auto simp: emit_read_buffer_def emit_data_def Let_def)
qed

theorem packet_length_wraps_witness:
  "faults (snd (snd (emit_read_buffer chunk_api 0 ToConnected 1
     (sample_sock\<lparr>sockopts := SockOpts_new\<lparr>packet := 4\<rparr>, ioq := [[255, 255, 255, 252, 7]], read_count := [5]\<rparr>)))) =
   [EmptyFront]"
  using packet_length_wraps [of chunk_api "sample_sock\<lparr>sockopts := SockOpts_new\<lparr>packet := 4\<rparr>,
      ioq := [[255, 255, 255, 252, 7]], read_count := [5]\<rparr>" 4294967292 0 ToConnected 1]
  by (simp add: packet_prefix_def be32_def)

text \<open>C24: the prefix is read from the first element of the vector alone: when it holds fewer bytes
  than the prefix, although the queue holds them, the code reads beyond that element.\<close>

theorem packet_prefix_split:
  "ioq_laws D \<Longrightarrow> packet (sockopts h) \<in> {1, 2, 4} \<Longrightarrow> drv_peekq D (ioq h) = c # cs \<Longrightarrow>
   length c < packet (sockopts h) \<Longrightarrow> packet (sockopts h) \<le> length (queued D h) \<Longrightarrow>
   len \<le> length (queued D h) \<Longrightarrow> \<not> close_pending h \<Longrightarrow>
   faults (snd (snd (emit_read_buffer D len rcvr q0 h))) = faults h @ [OutOfBounds]"
proof -
  assume laws: "ioq_laws D" and pk: "packet (sockopts h) \<in> {1, 2, 4}" and c: "drv_peekq D (ioq h) = c # cs"
    "length c < packet (sockopts h)" and q: "packet (sockopts h) \<le> length (queued D h)"
    and len: "len \<le> length (queued D h)" and cp: "\<not> close_pending h"
  have "packet_prefix (packet (sockopts h)) (c # cs) = None"
    using pk c(2) by (auto simp: packet_prefix_def split: list.split)
  then show ?thesis
    using pk c(1) q len cp sizeq_queued [OF laws, of h]
    by (auto simp: emit_read_buffer_def emit_data_def Let_def)
qed

theorem packet_prefix_split_witness:
  "faults (snd (snd (emit_read_buffer chunk_api 0 ToConnected 1
     (sample_sock\<lparr>sockopts := SockOpts_new\<lparr>packet := 2\<rparr>, ioq := [[0], [1, 7]], read_count := [1, 2]\<rparr>)))) =
   [OutOfBounds]"
  using packet_prefix_split [of chunk_api "sample_sock\<lparr>sockopts := SockOpts_new\<lparr>packet := 2\<rparr>,
      ioq := [[0], [1, 7]], read_count := [1, 2]\<rparr>" "[0]" "[[1, 7]]" 0 ToConnected 1]
  by simp

text \<open>The array \<open>term\<close> of \<open>2 * header + 14\<close> words is large enough for both messages, and a
  passive receive uses all of it.\<close>

lemma term_array_bound:
  "header so \<le> length buf \<Longrightarrow>
   term_words (connected_term p so pkt_size buf) \<le> 2 * header so + 14 \<and>
   term_words (receiver_term so pkt_size buf ref) \<le> 2 * header so + 14 \<and>
   (header so \<noteq> 0 \<longrightarrow> term_words (receiver_term so pkt_size buf ref) = 2 * header so + 14)"
proof -
  assume hdr: "header so \<le> length buf"
  have "term_words (header_terms n xs) = 2 * length (take n xs)" for n and xs :: "byte list"
    by (simp add: header_terms_def term_words_def comp_def sum_list_triv)
  moreover have "term_words (list_terms n) = (if n = 0 then 0 else 2)" for n
    by (simp add: list_terms_def)
  ultimately show ?thesis
    using hdr by (simp add: connected_term_def receiver_term_def Let_def)
qed

text \<open>The Erlang term for the data of a message.\<close>

definition data_term :: "SockOpts \<Rightarrow> bool \<Rightarrow> byte list \<Rightarrow> eterm" where
  "data_term so as_list buf =
     (let d = drop (header so) buf;
          body = (if as_list then EList (map (\<lambda>b. EInt (unat b)) d) None else EBin d)
      in if header so = 0 then body
         else EList (map (\<lambda>b. EInt (unat b)) (take (header so) buf)) (Some body))"

lemma eval_data:
  assumes "header so \<le> length buf"
    and "eval_spec [t] (rev (map (\<lambda>b. EInt (unat b)) (take (header so) buf)) @ st) =
      Some (body # rev (map (\<lambda>b. EInt (unat b)) (take (header so) buf)) @ st)"
  shows "eval_spec (header_terms (header so) buf @ [t] @ list_terms (header so)) st =
    Some ((if header so = 0 then body
           else EList (map (\<lambda>b. EInt (unat b)) (take (header so) buf)) (Some body)) # st)"
proof -
  have u: "eval_spec (header_terms n xs) s = Some (rev (map (\<lambda>b. EInt (unat b)) (take n xs)) @ s)" for n xs s
    using eval_spec_uints [of "map unat (take n xs)" s] by (simp add: header_terms_def comp_def)
  show ?thesis
    unfolding eval_spec_append u option.case assms(2)
    using assms(1) by (simp add: list_terms_def)
qed

text \<open>C22: both messages are well-formed term specifications: on the runtime's stack machine they
  leave exactly one term, \<open>{utp, Port, Data}\<close> and \<open>{Ref, {ok, Data}}\<close>, with the data as the
  delivery mode and the header ask for. A passive receive always gets a binary.\<close>

theorem messages_well_formed:
  "header so \<le> length buf \<Longrightarrow> length buf < 2 ^ 32 \<Longrightarrow>
   spec_term (connected_term p so (of_nat (length buf)) buf) =
     Some (ETuple [EAtom ''utp'', EPort p, data_term so (delivery_mode so = DATA_LIST) buf]) \<and>
   spec_term (receiver_term so (of_nat (length buf)) buf (Some b)) =
     Some (ETuple [EExt (orig_bytes b), ETuple [EAtom ''ok'', data_term so False buf]])"
proof -
  assume hdr: "header so \<le> length buf" and small: "length buf < 2 ^ 32"
  note n = rest_size_of_nat [OF hdr small]
  let ?d = "drop (header so) buf"
  let ?t = "if delivery_mode so = DATA_LIST then T_STRING ?d (length buf - header so)
    else T_BUF2BINARY ?d (length buf - header so)"
  let ?body = "if delivery_mode so = DATA_LIST then EList (map (\<lambda>b. EInt (unat b)) ?d) None else EBin ?d"
  have c: "connected_term p so (of_nat (length buf)) buf =
      [T_ATOM ''utp'', T_PORT p] @ (header_terms (header so) buf @ [?t] @ list_terms (header so)) @ [T_TUPLE 3]"
    by (simp add: connected_term_def Let_def n)
  have r: "receiver_term so (of_nat (length buf)) buf (Some b) =
      [T_EXT2TERM (Some (orig_bytes b)), T_ATOM ''ok''] @
      (header_terms (header so) buf @ [T_BUF2BINARY ?d (length buf - header so)] @ list_terms (header so)) @
      [T_TUPLE 2, T_TUPLE 2]"
    by (simp add: receiver_term_def Let_def n binary_data_def)
  have "eval_spec [?t] st = Some (?body # st)" for st by simp
  note e1 = eval_data [OF hdr this]
  have "eval_spec [T_BUF2BINARY ?d (length buf - header so)] st = Some (EBin ?d # st)" for st by simp
  note e2 = eval_data [OF hdr this]
  have "eval_spec (connected_term p so (of_nat (length buf)) buf) [] =
      Some [ETuple [EAtom ''utp'', EPort p, data_term so (delivery_mode so = DATA_LIST) buf]]"
    unfolding c eval_spec_append [of "[T_ATOM ''utp'', T_PORT p]"] eval_spec_append [of _ "[T_TUPLE 3]"]
    using e1 by (simp add: data_term_def Let_def)
  moreover have "eval_spec (receiver_term so (of_nat (length buf)) buf (Some b)) [] =
      Some [ETuple [EExt (orig_bytes b), ETuple [EAtom ''ok'', data_term so False buf]]]"
    unfolding r eval_spec_append [of "[T_EXT2TERM (Some (orig_bytes b)), T_ATOM ''ok'']"]
      eval_spec_append [of _ "[T_TUPLE 2, T_TUPLE 2]"]
    using e2 by (simp add: data_term_def Let_def)
  ultimately show ?thesis by (simp add: spec_term_def)
qed

theorem messages_well_formed_witness:
  "spec_term (connected_term 9 (SockOpts_new\<lparr>header := 1\<rparr>) 3 [1, 2, 3]) =
     Some (ETuple [EAtom ''utp'', EPort 9, EList [EInt 1] (Some (EList [EInt 2, EInt 3] None))])"
  using messages_well_formed [of "SockOpts_new\<lparr>header := 1\<rparr>" "[1, 2, 3]" 9]
  by (simp add: data_term_def)

end
