(* ===== verification/Logs.thy ===== *)
theory Logs
  imports Utp_Handler Delivery
begin

text \<open>
  What is read off the log of calls: the data that libutp delivered, the answers to waiting
  acceptors, and whether the mutexes are used with discipline. \<open>harmless\<close> describes logs without
  any of the former that may be made while the outer mutexes are held, and \<open>calm\<close> the changes of
  the shared state that only add such entries.
\<close>

section \<open>The discipline of mutexes\<close>

text \<open>
  The order in which mutexes may be nested: the queue of a listener, then libutp, then the tables
  of the singleton. \<open>locks s as\<close> runs a log from the stack \<open>s\<close> of mutexes held, innermost first;
  it fails when a mutex is taken out of order (in particular when it is held already), or released
  when it is not the innermost.
\<close>

fun rank :: "mutex \<Rightarrow> nat" where
  "rank QueueMutex = 0"
| "rank UtpMutex = 1"
| "rank MapMutex = 2"

fun locks :: "mutex list \<Rightarrow> action list \<Rightarrow> mutex list option" where
  "locks s [] = Some s"
| "locks s (Lock m # as) = (if \<forall>m' \<in> set s. rank m' < rank m then locks (m # s) as else None)"
| "locks s (Unlock m # as) =
     (case s of [] \<Rightarrow> None | m' # s' \<Rightarrow> if m' = m then locks s' as else None)"
| "locks s (_ # as) = locks s as"

lemma locks_append:
  "locks s (xs @ ys) = (case locks s xs of None \<Rightarrow> None | Some s' \<Rightarrow> locks s' ys)"
  by (induction s xs rule: locks.induct) (auto split: list.splits)

lemma rank_MapMutex: "MapMutex \<notin> set s \<Longrightarrow> m \<in> set s \<Longrightarrow> rank m < 2"
  by (cases m) auto

section \<open>Data and answers\<close>

fun received :: "action list \<Rightarrow> byte list" where
  "received [] = []"
| "received (DataIn bs # as) = bs @ received as"
| "received (_ # as) = received as"

lemma received_append [simp]: "received (xs @ ys) = received xs @ received ys"
  by (induction xs rule: received.induct) auto

lemma payloads_Cons [simp]: "payloads (a # as) = payload a @ payloads as"
  by (simp add: payloads_def)

text \<open>The process and the reference of an answer to an acceptor.\<close>

fun async_term :: "term_spec list \<Rightarrow> byte list option option" where
  "async_term (T_ATOM a # T_PORT p # T_EXT2TERM r # ts) = (if a = ''utp_async'' then Some r else None)"
| "async_term _ = None"

fun async :: "action \<Rightarrow> (pid \<times> byte list option) list" where
  "async (SendTerm p (Proc c) ts) = (case async_term ts of None \<Rightarrow> [] | Some r \<Rightarrow> [(c, r)])"
| "async _ = []"

definition asyncs :: "action list \<Rightarrow> (pid \<times> byte list option) list" where
  "asyncs as = concat (map async as)"

lemma asyncs_simps [simp]:
  "asyncs [] = []" "asyncs (a # as) = async a @ asyncs as" "asyncs (xs @ ys) = asyncs xs @ asyncs ys"
  by (simp_all add: asyncs_def)

lemma async_not [simp]: "async_term ts = None \<Longrightarrow> async (SendTerm p c ts) = []"
  by (cases c) simp_all

section \<open>Plain and harmless logs\<close>

definition plain :: "action list \<Rightarrow> bool" where
  "plain as \<longleftrightarrow> payloads as = [] \<and> received as = [] \<and> asyncs as = [] \<and> (\<forall>s. locks s as = Some s)"

definition harmless :: "action list \<Rightarrow> bool" where
  "harmless as \<longleftrightarrow> payloads as = [] \<and> received as = [] \<and> asyncs as = [] \<and>
     (\<forall>s. MapMutex \<notin> set s \<longrightarrow> locks s as = Some s)"

lemma plain_append: "plain xs \<Longrightarrow> plain ys \<Longrightarrow> plain (xs @ ys)"
  by (simp add: plain_def locks_append)

lemma plain_harmless: "plain as \<Longrightarrow> harmless as"
  by (simp add: plain_def harmless_def)

lemma harmless_Nil [simp]: "harmless []"
  by (simp add: harmless_def)

lemma harmless_append: "harmless xs \<Longrightarrow> harmless ys \<Longrightarrow> harmless (xs @ ys)"
  by (simp add: harmless_def locks_append)

lemma harmless_pair: "plain as \<Longrightarrow> harmless (Lock MapMutex # as @ [Unlock MapMutex])"
  by (auto simp: harmless_def plain_def payloads_def locks_append rank_MapMutex)

lemma harmless_binaries:
  "\<forall>a \<in> set as. \<exists>i. a = AllocBinary i \<or> a = IncRefc i \<or> a = FreeBinary i \<Longrightarrow> harmless as"
proof (induction as)
  case (Cons a as)
  then have "harmless as" "harmless [a]" by (auto simp: harmless_def)
  then show ?case using harmless_append [of "[a]" as] by simp
qed simp

section \<open>Calm changes of the shared state\<close>

definition calm :: "(env \<Rightarrow> env) \<Rightarrow> bool" where
  "calm f \<longleftrightarrow> (\<forall>w. \<exists>as. log (f w) = log w @ as \<and> harmless as)"

lemma calm_comp: "calm f \<Longrightarrow> calm g \<Longrightarrow> calm (\<lambda>w. g (f w))"
  unfolding calm_def by (metis append.assoc harmless_append)

lemma calm_binaries: "(\<And>w. only_binaries w (f w)) \<Longrightarrow> calm f"
  unfolding calm_def only_binaries_def using harmless_binaries by blast

lemma calm_free: "calm (free_binary b)"
  unfolding calm_def by (auto simp: harmless_def)

lemma calm_inc: "calm (inc_refc b)"
  unfolding calm_def by (auto simp: harmless_def)

lemma calm_destroy: "calm (binary_destroy b)"
  by (rule calm_binaries) (simp add: binary_destroy_def only_binaries_reset)

lemma calm_fold_free: "calm (fold free_binary bs)"
proof (induction bs)
  case Nil
  show ?case by (auto simp: calm_def)
next
  case (Cons b bs)
  then show ?case using calm_comp [OF calm_free Cons] by (simp add: comp_def)
qed

lemma calm_select: "harmless [Select fd b, Lock MapMutex, Unlock MapMutex]"
  "harmless [Lock MapMutex, Unlock MapMutex]"
  by (auto simp: harmless_def rank_MapMutex)

lemma calm_stop_input: "calm (stop_input fd)"
  by (auto simp: calm_def stop_input_def deselect_def calm_select Let_def split: option.splits)

lemma calm_start_input: "calm (start_input fd i)"
  by (auto simp: calm_def start_input_def select_def calm_select Let_def split: option.splits)

lemma del_procs_plain: "\<exists>as. log (snd (del_procs mon ps w)) = log w @ as \<and> plain as"
proof -
  have "plain (map (\<lambda>_. DemonitorProcess mon) xs)" for xs :: "(pid \<times> monitor) list"
    by (induction xs) (auto simp: plain_def payloads_def)
  then show ?thesis using del_procs_log by blast
qed

lemma del_mons_loop_plain:
  "\<exists>as. log (snd (snd (del_mons_loop h ms pm w))) = log w @ as \<and> plain as"
proof (induction h ms pm w rule: del_mons_loop.induct)
  case (2 h mon h' ms pm w)
  show ?case
  proof (cases "h' = h")
    case True
    obtain pm' w' where r: "del_procs mon pm w = (pm', w')" by fastforce
    obtain as where as: "log w' = log w @ as" "plain as" using del_procs_plain [of mon pm w] r by auto
    then show ?thesis
      using 2(1) [OF True r [symmetric]] True r by (auto intro: plain_append)
  next
    case False
    then show ?thesis using 2(2) by (auto split: prod.splits)
  qed
qed (auto simp: plain_def)

lemma calm_del_monitors: "calm (del_monitors h)"
  unfolding calm_def
proof
  fix w
  show "\<exists>as. log (del_monitors h w) = log w @ as \<and> harmless as"
  proof (cases "main w")
    case (Some m)
    obtain ms pm w1 where r: "del_mons_loop h (mon_map m) (proc_mon_map m) (env_log (Lock MapMutex) w) = (ms, pm, w1)"
      by (metis prod_cases3)
    obtain as where as: "log w1 = log w @ Lock MapMutex # as" "plain as"
      using del_mons_loop_plain [of h "mon_map m" "proc_mon_map m" "env_log (Lock MapMutex) w"] r by auto
    show ?thesis
      using Some r as harmless_pair [OF as(2)] by (simp add: del_monitors_def del_mons_def)
  qed (simp add: del_monitors_def)
qed

lemma calm_add_monitor: "calm (\<lambda>w. snd (add_monitor D proc h w))"
  by (auto simp: calm_def add_monitor_def add_mon_def Let_def harmless_def rank_MapMutex
      split: option.splits)

lemma calm_del_monitor: "calm (del_monitor proc)"
  by (auto simp: calm_def del_monitor_def del_mon_def Let_def harmless_def rank_MapMutex
      split: option.splits)

end
