(* ===== verification/Callbacks.thy ===== *)
theory Callbacks
  imports Logs
begin

text \<open>
  Reasoning about whatever libutp does. \<open>quiet\<close> describes the many steps that touch neither the
  data nor the connection's socket, \<open>still\<close> those that moreover leave the references to binaries
  alone. The locale \<open>callback_base\<close> lists the steps that do more than that, \<open>callback_steps\<close> adds
  the still ones, and derives that a relation that contains them all contains every callback and
  every run of libutp, with its nested calls. \<open>callback_relation\<close> is the case of a relation that
  contains every quiet step; in \<open>handler_relation\<close> libutp may also destroy the socket.
\<close>

section \<open>Muted steps\<close>

definition muted :: "'q utp_handler \<Rightarrow> 'q utp_handler \<Rightarrow> bool" where
  "muted h h' \<longleftrightarrow>
     ioq h' = ioq h \<and> read_count h' = read_count h \<and> sockopts h' = sockopts h \<and>
     write_q h' = write_q h \<and> utp h' = utp h \<and>
     (\<exists>xs. faults h' = faults h @ xs) \<and> (\<exists>as. hlog h' = hlog h @ as \<and> harmless as)"

lemma muted_refl [simp]: "muted h h"
  by (simp add: muted_def)

lemma muted_trans: "muted h h' \<Longrightarrow> muted h' h'' \<Longrightarrow> muted h h''"
  unfolding muted_def by (auto intro: harmless_append)

lemma muted_emit: "harmless [a] \<Longrightarrow> muted h (emit a h)"
  by (auto simp: muted_def)

lemma muted_fault [simp]: "muted h (fault x h)"
  by (auto simp: muted_def)

lemma muted_env: "calm f \<Longrightarrow> muted h (on_env f h)"
  by (auto simp: muted_def calm_def)

lemma muted_fields [simp]:
  "muted h (h\<lparr>status := s\<rparr>)" "muted h (h\<lparr>state := i\<rparr>)" "muted h (h\<lparr>error_code := i\<rparr>)"
  "muted h (h\<lparr>writable := b\<rparr>)" "muted h (h\<lparr>sender_waiting := b\<rparr>)" "muted h (h\<lparr>receiver_waiting := b\<rparr>)"
  "muted h (h\<lparr>eof_seen := b\<rparr>)" "muted h (h\<lparr>caller := c\<rparr>)" "muted h (h\<lparr>caller_ref := r\<rparr>)"
  "muted h (h\<lparr>recv_len := n\<rparr>)" "muted h (h\<lparr>close_pending := b\<rparr>)" "muted h (h\<lparr>selected := b\<rparr>)"
  "muted h (h\<lparr>port := n\<rparr>)" "muted h (h\<lparr>deleted := b\<rparr>)"
  by (simp_all add: muted_def)

lemma muted_ctl [simp]:
  "muted x (h\<lparr>status := s\<rparr>) = muted x h" "muted x (h\<lparr>state := i\<rparr>) = muted x h"
  "muted x (h\<lparr>error_code := i\<rparr>) = muted x h" "muted x (h\<lparr>writable := b\<rparr>) = muted x h"
  "muted x (h\<lparr>sender_waiting := b\<rparr>) = muted x h" "muted x (h\<lparr>receiver_waiting := b\<rparr>) = muted x h"
  "muted x (h\<lparr>eof_seen := b\<rparr>) = muted x h" "muted x (h\<lparr>caller := c\<rparr>) = muted x h"
  "muted x (h\<lparr>caller_ref := r\<rparr>) = muted x h" "muted x (h\<lparr>recv_len := n\<rparr>) = muted x h"
  "muted x (h\<lparr>close_pending := b\<rparr>) = muted x h" "muted x (h\<lparr>selected := b\<rparr>) = muted x h"
  "muted x (h\<lparr>port := n\<rparr>) = muted x h" "muted x (h\<lparr>deleted := b\<rparr>) = muted x h"
  by (simp_all add: muted_def)

lemma muted_touch [simp]: "muted h (touch h)"
  by (simp add: touch_def)

lemma muted_delete: "muted h (delete_utp_handler h)"
proof -
  have 1: "muted h (on_env (binary_destroy (caller_ref h)) h)"
    by (rule muted_env [OF calm_destroy])
  have 2: "muted x (on_env (wq_destroy (write_q h)) x)" for x
    by (rule muted_env) (simp add: wq_destroy_def [abs_def] calm_fold_free)
  have 3: "muted x (SocketHandler_destroy x)" for x :: "'q utp_handler"
    unfolding SocketHandler_destroy_def Handler_destroy_def
    by (simp add: muted_env calm_del_monitors)
  have 4: "muted x (delete_this x)" for x :: "'q utp_handler"
    unfolding delete_this_def
    using muted_trans [OF muted_fields(14) muted_emit, of "Delete (hid x)" x True]
    by (simp add: harmless_def)
  show ?thesis
    unfolding delete_utp_handler_def UtpHandler_destroy_def
    using muted_trans [OF muted_trans [OF muted_trans [OF 1 2] 3] 4] by simp
qed

lemma harmless_terms:
  "harmless [OutputTerm p (ref_ok_term r)]" "harmless [SendTerm p c (ref_ok_term r)]"
  "harmless [OutputTerm p (error_term P e r)]" "harmless [OutputTerm p (utp_error_term P e q)]"
  "harmless [OutputTerm p (closed_term q)]" "harmless [SendTerm p c (retry_term q)]"
  "harmless [UtpCall u]"
  by (simp_all add: harmless_def ref_ok_term_def error_term_def utp_error_term_def closed_term_def
      retry_term_def)

lemma muted_closed_message: "muted h (snd (emit_closed_message D h))"
  by (simp add: emit_closed_message_def Let_def muted_emit harmless_terms)

lemma muted_on_destroying: "muted h (on_destroying P h)"
proof -
  define h1 where "h1 = (if selected h then (on_env (stop_input (udp_sock h)) h)\<lparr>selected := False\<rparr> else h)"
  have 1: "muted h h1"
    unfolding h1_def by (simp add: muted_env calm_stop_input)
  define h2 where "h2 =
      (if close_pending h1 \<and> binary_bool (caller_ref h1) then
         (let t = ref_ok_term (caller_ref h1);
              h3 = (if caller h1 \<noteq> NilTerm then emit (SendTerm (port h1) (caller h1) t) h1
                    else emit (OutputTerm (port h1) t) h1)
          in h3\<lparr>caller := NilTerm, close_pending := False\<rparr>)
       else if active (sockopts h1) \<noteq> ACTIVE_FALSE then snd (emit_closed_message (api P) h1)
       else h1)"
  have e: "muted h1 ((emit a h1)\<lparr>caller := NilTerm, close_pending := False\<rparr>)" if "harmless [a]" for a
    using muted_emit [OF that] by simp
  have 2: "muted h1 h2"
    unfolding h2_def Let_def using e harmless_terms muted_closed_message by auto
  have 3: "muted h2 (h2\<lparr>writable := False, status := destroying, eof_seen := False\<rparr>)"
    by simp
  have "on_destroying P h =
      (if status h1 = closing then h2\<lparr>writable := False, status := destroying, eof_seen := False\<rparr>
       else if status h1 = stopped then delete_utp_handler h1 else h1)"
    by (simp only: on_destroying_def Let_def h1_def [symmetric] h2_def)
  then show ?thesis
    using 1 muted_trans [OF muted_trans [OF 1 2] 3] muted_trans [OF 1 muted_delete] by simp
qed

section \<open>Quiet steps\<close>

text \<open>
  A muted step is quiet if it also leaves alone what the tables of the singleton depend on: the
  handler's identity and socket, whether it is selected and whether it exists, and the singleton.
\<close>

definition core :: "'q utp_handler \<Rightarrow> 'q utp_handler \<Rightarrow> bool" where
  "core h h' \<longleftrightarrow> hid h' = hid h \<and> udp_sock h' = udp_sock h \<and> selected h' = selected h \<and>
     deleted h' = deleted h \<and> main (henv h') = main (henv h) \<and> (status h' = destroying \<longrightarrow> status h = destroying)"

definition quiet :: "'q utp_handler \<Rightarrow> 'q utp_handler \<Rightarrow> bool" where
  "quiet h h' \<longleftrightarrow> muted h h' \<and> core h h'"

lemma quiet_refl [simp]: "quiet h h"
  by (simp add: quiet_def core_def)

lemma quiet_trans: "quiet h h' \<Longrightarrow> quiet h' h'' \<Longrightarrow> quiet h h''"
  unfolding quiet_def core_def by (auto intro: muted_trans)

lemma quiet_muted: "quiet h h' \<Longrightarrow> muted h h'"
  by (simp add: quiet_def)

lemma quiet_emit: "harmless [a] \<Longrightarrow> quiet h (emit a h)"
  by (simp add: quiet_def core_def muted_emit)

lemma quiet_fault [simp]: "quiet h (fault x h)"
  by (simp add: quiet_def core_def)

lemma quiet_env: "calm f \<Longrightarrow> (\<And>w. main (f w) = main w) \<Longrightarrow> quiet h (on_env f h)"
  by (simp add: quiet_def core_def muted_env)

lemma quiet_fields [simp]:
  "quiet h (h\<lparr>state := i\<rparr>)" "quiet h (h\<lparr>error_code := i\<rparr>)"
  "quiet h (h\<lparr>writable := b\<rparr>)" "quiet h (h\<lparr>sender_waiting := b\<rparr>)" "quiet h (h\<lparr>receiver_waiting := b\<rparr>)"
  "quiet h (h\<lparr>eof_seen := b\<rparr>)" "quiet h (h\<lparr>caller := c\<rparr>)" "quiet h (h\<lparr>caller_ref := r\<rparr>)"
  "quiet h (h\<lparr>recv_len := n\<rparr>)" "quiet h (h\<lparr>close_pending := b\<rparr>)" "quiet h (h\<lparr>port := n\<rparr>)"
  by (simp_all add: quiet_def core_def)

lemma quiet_status [simp]: "s \<noteq> destroying \<Longrightarrow> quiet x h \<Longrightarrow> quiet x (h\<lparr>status := s\<rparr>)"
  by (simp add: quiet_def core_def)

lemma quiet_ctl [simp]:
  "quiet x (h\<lparr>state := i\<rparr>) = quiet x h"
  "quiet x (h\<lparr>error_code := i\<rparr>) = quiet x h" "quiet x (h\<lparr>writable := b\<rparr>) = quiet x h"
  "quiet x (h\<lparr>sender_waiting := b\<rparr>) = quiet x h" "quiet x (h\<lparr>receiver_waiting := b\<rparr>) = quiet x h"
  "quiet x (h\<lparr>eof_seen := b\<rparr>) = quiet x h" "quiet x (h\<lparr>caller := c\<rparr>) = quiet x h"
  "quiet x (h\<lparr>caller_ref := r\<rparr>) = quiet x h" "quiet x (h\<lparr>recv_len := n\<rparr>) = quiet x h"
  "quiet x (h\<lparr>close_pending := b\<rparr>) = quiet x h" "quiet x (h\<lparr>port := n\<rparr>) = quiet x h"
  by (simp_all add: quiet_def core_def)

lemma quiet_touch [simp]: "quiet h (touch h)"
  by (simp add: touch_def)

lemma quiet_send_loop: "quiet h (snd (send_loop len i os h))"
proof (induction len i os h rule: send_loop.induct)
  case (2 len i count err os h)
  let ?h = "emit (SendTo i (int len - i)) (if i < 0 then fault OutOfBounds h else h)"
  have "harmless [SendTo i (int len - i)]" by (simp add: harmless_def)
  then have q: "quiet h ?h"
    using quiet_trans [OF quiet_fault quiet_emit] quiet_emit by (cases "i < 0") auto
  show ?case
    using q quiet_trans [OF q 2] by (simp add: Let_def)
qed simp

lemma quiet_binaries: "only_binaries (henv h) w \<Longrightarrow> quiet h (h\<lparr>henv := w\<rparr>)"
  using harmless_binaries unfolding only_binaries_def quiet_def muted_def core_def by auto

lemma quiet_reset_waiting_recv: "quiet h (reset_waiting_recv h)"
proof -
  have "quiet h (h\<lparr>henv := snd (binary_reset None (caller_ref h) (henv h))\<rparr>)"
    by (rule quiet_binaries [OF only_binaries_reset])
  then show ?thesis
    by (simp add: reset_waiting_recv_def with_env_def quiet_def muted_def core_def split_beta)
qed

lemma quiet_drop_binary: "quiet h (drop_binary b h)"
  using quiet_binaries [OF only_binaries_reset] by (simp add: drop_binary_def on_env_def binary_destroy_def)

lemma quiet_set_sockopt: "quiet h (set_sockopt opt v h)"
  by (auto simp: set_sockopt_def quiet_emit harmless_terms split: option.splits)

lemma quiet_set_utp_callbacks: "quiet h (set_utp_callbacks h)"
  unfolding set_utp_callbacks_def
  by (auto split: option.splits
      intro: quiet_trans [OF quiet_trans [OF quiet_emit [OF harmless_terms(7)] quiet_set_sockopt] quiet_set_sockopt])

lemma quiet_closed_message: "quiet h (snd (emit_closed_message D h))"
  by (simp add: emit_closed_message_def Let_def quiet_emit harmless_terms)

lemma quiet_on_connect: "quiet h (on_connect h)"
proof -
  have "quiet h (if status h = connect_pending \<and> binary_bool (caller_ref h)
      then emit (OutputTerm (port h) (ref_ok_term (caller_ref h))) h else h)"
    by (simp add: quiet_emit harmless_terms)
  then show ?thesis
    unfolding on_connect_def Let_def by simp
qed

section \<open>Still steps\<close>

text \<open>
  A quiet step is still if it leaves alone what the handler's references to binaries depend on:
  the binaries it refers to, and the counts.
\<close>

definition same_refs :: "'q utp_handler \<Rightarrow> 'q utp_handler \<Rightarrow> bool" where
  "same_refs h h' \<longleftrightarrow> caller_ref h' = caller_ref h \<and> write_q h' = write_q h \<and> deleted h' = deleted h \<and>
     (\<forall>k. refc k (hlog h') = refc k (hlog h))"

definition still :: "'q utp_handler \<Rightarrow> 'q utp_handler \<Rightarrow> bool" where
  "still h h' \<longleftrightarrow> quiet h h' \<and> same_refs h h'"

lemma still_refl [simp]: "still h h"
  by (simp add: still_def same_refs_def)

lemma still_trans: "still h h' \<Longrightarrow> still h' h'' \<Longrightarrow> still h h''"
  unfolding still_def same_refs_def by (auto intro: quiet_trans)

lemma still_quiet: "still h h' \<Longrightarrow> quiet h h'"
  by (simp add: still_def)

lemma still_emit: "harmless [a] \<Longrightarrow> (\<And>k. refc k [a] = 0) \<Longrightarrow> still h (emit a h)"
  by (simp add: still_def same_refs_def quiet_emit)

lemma still_fault [simp]: "still h (fault x h)"
  by (simp add: still_def same_refs_def)

lemma still_status [simp]: "s \<noteq> destroying \<Longrightarrow> still x h \<Longrightarrow> still x (h\<lparr>status := s\<rparr>)"
  by (simp add: still_def same_refs_def)

lemma still_ctl [simp]:
  "still x (h\<lparr>state := i\<rparr>) = still x h"
  "still x (h\<lparr>error_code := i\<rparr>) = still x h" "still x (h\<lparr>writable := b\<rparr>) = still x h"
  "still x (h\<lparr>sender_waiting := b\<rparr>) = still x h" "still x (h\<lparr>receiver_waiting := b\<rparr>) = still x h"
  "still x (h\<lparr>eof_seen := b\<rparr>) = still x h" "still x (h\<lparr>caller := c\<rparr>) = still x h"
  "still x (h\<lparr>recv_len := n\<rparr>) = still x h" "still x (h\<lparr>close_pending := b\<rparr>) = still x h"
  by (simp_all add: still_def same_refs_def)

lemma still_touch [simp]: "still h (touch h)"
  by (simp add: touch_def)

lemma still_send_loop: "still h (snd (send_loop len i os h))"
proof (induction len i os h rule: send_loop.induct)
  case (2 len i count err os h)
  let ?h = "emit (SendTo i (int len - i)) (if i < 0 then fault OutOfBounds h else h)"
  have "still x (emit (SendTo i (int len - i)) x)" for x :: "'a utp_handler"
    by (rule still_emit) (simp_all add: harmless_def)
  moreover have "still h (if i < 0 then fault OutOfBounds h else h)" by simp
  ultimately have q: "still h ?h" by (blast intro: still_trans)
  show ?case
    using q still_trans [OF q 2] by (simp add: Let_def)
qed simp

lemma still_set_sockopt: "still h (set_sockopt opt v h)"
  by (auto simp: set_sockopt_def still_emit harmless_terms split: option.splits)

lemma still_set_utp_callbacks: "still h (set_utp_callbacks h)"
  unfolding set_utp_callbacks_def
  by (auto split: option.splits simp: still_emit harmless_terms
      intro: still_trans [OF still_trans [OF _ still_set_sockopt] still_set_sockopt])

lemma still_on_connect: "still h (on_connect h)"
proof -
  have "still h (if status h = connect_pending \<and> binary_bool (caller_ref h)
      then emit (OutputTerm (port h) (ref_ok_term (caller_ref h))) h else h)"
    by (simp add: still_emit harmless_terms)
  then show ?thesis
    unfolding on_connect_def Let_def by simp
qed

section \<open>What delivering data changes\<close>

text \<open>The answers to a close: the process (or the port's owner) and the reference.\<close>

fun close_reply :: "action \<Rightarrow> (caller \<times> byte list option) list" where
  "close_reply (SendTerm p c [T_EXT2TERM r, T_ATOM a, T_TUPLE n]) = (if a = ''ok'' then [(c, r)] else [])"
| "close_reply _ = []"

definition close_replies :: "action list \<Rightarrow> (caller \<times> byte list option) list" where
  "close_replies as = concat (map close_reply as)"

lemma close_replies_append [simp]:
  "close_replies (xs @ ys) = close_replies xs @ close_replies ys" "close_replies [] = []"
  "close_replies (a # as) = close_reply a @ close_replies as"
  by (simp_all add: close_replies_def)

lemma close_reply_long: "length ts \<noteq> 3 \<Longrightarrow> close_reply (SendTerm p c ts) = []"
  by (cases "SendTerm p c ts" rule: close_reply.cases) auto

definition neutral :: "action list \<Rightarrow> bool" where
  "neutral as \<longleftrightarrow> received as = [] \<and> asyncs as = [] \<and> (\<forall>s. locks s as = Some s) \<and>
     (\<forall>k. refc k as = 0) \<and> (\<forall>u. UtpCall u \<notin> set as) \<and> close_replies as = []"

definition delivers :: "('q, 'a) sock \<Rightarrow> ('q, 'a) sock \<Rightarrow> bool" where
  "delivers h h' \<longleftrightarrow> (\<exists>i rc ac cp as xs. neutral as \<and>
     h' = h\<lparr>ioq := i, read_count := rc, sockopts := (sockopts h)\<lparr>active := ac\<rparr>, close_pending := cp,
            henv := (henv h)\<lparr>log := hlog h @ as\<rparr>, faults := faults h @ xs\<rparr>)"

lemma delivers_refl [simp]: "delivers h h"
  unfolding delivers_def
  by (intro exI [of _ "ioq h"] exI [of _ "read_count h"] exI [of _ "active (sockopts h)"]
      exI [of _ "close_pending h"] exI [of _ "[]"]) (simp add: neutral_def)

lemma delivers_trans:
  assumes "delivers h h'" "delivers h' h''"
  shows "delivers h h''"
proof -
  obtain i rc ac cp as xs where 1: "neutral as"
    "h' = h\<lparr>ioq := i, read_count := rc, sockopts := (sockopts h)\<lparr>active := ac\<rparr>, close_pending := cp,
            henv := (henv h)\<lparr>log := hlog h @ as\<rparr>, faults := faults h @ xs\<rparr>"
    using assms(1) unfolding delivers_def by blast
  obtain i2 rc2 ac2 cp2 as2 xs2 where 2: "neutral as2"
    "h'' = h'\<lparr>ioq := i2, read_count := rc2, sockopts := (sockopts h')\<lparr>active := ac2\<rparr>, close_pending := cp2,
            henv := (henv h')\<lparr>log := hlog h' @ as2\<rparr>, faults := faults h' @ xs2\<rparr>"
    using assms(2) unfolding delivers_def by blast
  have "neutral (as @ as2)" using 1(1) 2(1) by (simp add: neutral_def locks_append)
  moreover have "h'' = h\<lparr>ioq := i2, read_count := rc2, sockopts := (sockopts h)\<lparr>active := ac2\<rparr>,
      close_pending := cp2, henv := (henv h)\<lparr>log := hlog h @ (as @ as2)\<rparr>, faults := faults h @ (xs @ xs2)\<rparr>"
    unfolding 2(2) 1(2) by simp
  ultimately show ?thesis unfolding delivers_def by blast
qed

lemma delivers_intro:
  "neutral as \<Longrightarrow>
   h' = h\<lparr>ioq := i, read_count := rc, sockopts := (sockopts h)\<lparr>active := ac\<rparr>, close_pending := cp,
          henv := (henv h)\<lparr>log := hlog h @ as\<rparr>, faults := faults h @ xs\<rparr> \<Longrightarrow> delivers h h'"
  unfolding delivers_def by blast

lemma delivers_fields:
  "delivers h (h\<lparr>ioq := i\<rparr>)" "delivers h (h\<lparr>read_count := rc\<rparr>)" "delivers h (h\<lparr>close_pending := b\<rparr>)"
  "delivers h (h\<lparr>sockopts := (sockopts h)\<lparr>active := ac\<rparr>\<rparr>)" "delivers h (fault x h)"
  by (rule delivers_intro [where as = "[]" and i = i and rc = "read_count h" and cp = "close_pending h"
        and ac = "active (sockopts h)" and xs = "[]"], simp_all add: neutral_def)
    (rule delivers_intro [where as = "[]" and i = "ioq h" and rc = rc and cp = "close_pending h"
        and ac = "active (sockopts h)" and xs = "[]"], simp_all add: neutral_def,
     rule delivers_intro [where as = "[]" and i = "ioq h" and rc = "read_count h" and cp = b
        and ac = "active (sockopts h)" and xs = "[]"], simp_all add: neutral_def,
     rule delivers_intro [where as = "[]" and i = "ioq h" and rc = "read_count h" and cp = "close_pending h"
        and ac = ac and xs = "[]"], simp_all add: neutral_def,
     rule delivers_intro [where as = "[]" and i = "ioq h" and rc = "read_count h" and cp = "close_pending h"
        and ac = "active (sockopts h)" and xs = "[x]"], simp_all add: neutral_def fault_def)

lemma delivers_emit: "neutral [a] \<Longrightarrow> delivers h (emit a h)"
  by (rule delivers_intro [where as = "[a]" and i = "ioq h" and rc = "read_count h"
        and cp = "close_pending h" and ac = "active (sockopts h)" and xs = "[]"])
    (simp_all add: emit_def env_log_def)

lemma delivers_send_packet: "delivers h (send_packet rcvr pkt buf h)"
  unfolding send_packet_emit by (rule delivers_emit) (cases rcvr; simp add: neutral_def receiver_term_def Let_def close_reply_long)

lemma delivers_move: "move_read_data D vec buf n h = (b, q, h') \<Longrightarrow> delivers h h'"
  using move_read_data_eq delivers_fields(1) by metis

lemma delivers_loop: "delivers h (snd (deliver_loop D n rcvr vec buf pkt q h))"
proof (induction D n rcvr vec buf pkt q h rule: deliver_loop.induct)
  case (2 D n rcvr vec buf pkt q h)
  show ?case
  proof (cases "buf = [] \<and> read_count h = []")
    case False
    obtain pkt1 buf1 q1 h1 where st: "(if buf = [] then
              (let c = hd (read_count h); pkt = of_nat c :: u32
               in (pkt, move_read_data D vec buf (unat pkt) (h\<lparr>read_count := tl (read_count h)\<rparr>)))
            else (pkt, buf, q, h)) = (pkt1, buf1, q1, h1)"
      by (metis prod_cases4)
    then have d1: "delivers h h1"
      using delivers_trans [OF delivers_fields(2) delivers_move] delivers_refl
      by (auto simp: Let_def split: if_splits)
    define h2 where "h2 = send_packet rcvr pkt1 buf1 h1"
    have d2: "delivers h h2" unfolding h2_def by (rule delivers_trans [OF d1 delivers_send_packet])
    have step: "deliver_loop D (Suc n) rcvr vec buf pkt q h =
        (if \<not> in_buffer (sockopts h1) pkt1 buf1 then (q1, fault OutOfBounds h1)
         else (if n \<noteq> 0 then deliver_loop D n rcvr (drv_peekq D (ioq h2)) [] pkt1 q1 h2 else (q1, h2)))"
      using False by (simp only: deliver_loop.simps if_False st [unfolded Let_def] prod.case Let_def h2_def)
    show ?thesis
    proof (cases "in_buffer (sockopts h1) pkt1 buf1")
      case False
      then show ?thesis unfolding step using delivers_trans [OF d1 delivers_fields(5)] by simp
    next
      case inb: True
      show ?thesis
      proof (cases "n = 0")
        case True
        then show ?thesis unfolding step using inb d2 by simp
      next
        case n: False
        have "delivers h2 (snd (deliver_loop D n rcvr (drv_peekq D (ioq h2)) [] pkt1 q1 h2))"
          using 2 [OF False st [symmetric] refl refl] inb n h2_def by simp
        then show ?thesis unfolding step using inb n delivers_trans [OF d2] by simp
      qed
    qed
  qed (simp add: delivers_fields)
qed (simp add: delivers_refl)

lemma delivers_finish: "delivers h h1 \<Longrightarrow> delivers h (snd (snd (finish_emit (q, h1))))"
  using delivers_trans [OF _ delivers_fields(4)] by (auto simp: finish_emit_def)

lemma delivers_loop_finish: "delivers h h1 \<Longrightarrow> delivers h (snd (snd (finish_emit (deliver_loop D n rcvr vec buf pkt q h1))))"
  using delivers_finish [OF delivers_trans [OF _ delivers_loop]] by (metis prod.collapse)

lemma delivers_emit_read_buffer: "delivers h (snd (snd (emit_read_buffer D len rcvr q0 h)))"
proof -
  have pre: "delivers h (snd (snd (emit_prefixed D rcvr pkt q h)))" for pkt q
  proof -
    let ?h1 = "h\<lparr>ioq := drv_deq D (ioq h) (packet (sockopts h))\<rparr>"
    obtain b q1 h2 where mv: "move_read_data D (drv_peekq D (ioq ?h1)) [] (unat pkt) ?h1 = (b, q1, h2)"
      by (metis prod_cases3)
    have d: "delivers h h2" by (rule delivers_trans [OF delivers_fields(1) delivers_move [OF mv]])
    show ?thesis
      using mv delivers_refl delivers_trans [OF d delivers_fields(5)]
        delivers_loop_finish [OF delivers_trans [OF d delivers_fields(2)]]
      by (auto simp: emit_prefixed_def Let_def simp del: deliver_loop.simps One_nat_def split: option.splits)
  qed
  have pas: "delivers h (snd (snd (emit_passive D len rcvr q h)))" for q
  proof -
    have "delivers h (snd (snd (case move_read_data D vec [] n (h\<lparr>read_count := rc\<rparr>) of
        (buf, q, h1) \<Rightarrow> finish_emit (deliver_loop D 1 rcvr vec2 buf pkt q h1))))" for vec vec2 n rc pkt
      using delivers_loop_finish [OF delivers_trans [OF delivers_fields(2) delivers_move]]
      by (auto split: prod.splits simp del: deliver_loop.simps One_nat_def)
    then show ?thesis
      by (auto simp: emit_passive_def Let_def delivers_fields split: option.splits simp del: deliver_loop.simps One_nat_def)
  qed
  have pie: "delivers h (snd (snd (emit_pieces D rcvr q h)))" for q
    unfolding emit_pieces_def by (rule delivers_loop_finish [OF delivers_refl])
  have dat: "delivers h (snd (snd (emit_data D len rcvr h)))"
    using pre pas pie by (auto simp: emit_data_def Let_def delivers_refl delivers_fields split: option.splits)
  have "delivers h (snd (emit_closed_message D h))"
    by (auto simp: emit_closed_message_def Let_def delivers_refl intro!: delivers_emit simp: neutral_def)
  then show ?thesis
    using dat delivers_trans [OF _ delivers_fields(3)] by (auto simp: emit_read_buffer_def)
qed

lemma with_env_quiet:
  assumes "\<And>w. \<exists>as. log (snd (f w)) = log w @ as \<and> harmless as" "\<And>w. main (snd (f w)) = main w"
    and "with_env f h = (r, h')"
  shows "quiet h h'"
proof -
  have "h' = h\<lparr>henv := snd (f (henv h))\<rparr>" using assms(3) snd_with_env [of f h] by simp
  then show ?thesis using assms(1,2) [of "henv h"] by (auto simp: quiet_def muted_def core_def)
qed

lemma binary_copy_quiet: "with_env (binary_copy b) h = (r, h') \<Longrightarrow> quiet h h'"
  by (rule with_env_quiet) (auto simp: binary_copy_def harmless_def split: option.splits)

section \<open>Relations that every callback respects\<close>

text \<open>Runs of libutp in which no socket is destroyed.\<close>

fun lasting_run :: "utp_run \<Rightarrow> bool"
and lasting :: "(callback \<times> utp_run list) list \<Rightarrow> bool" where
  "lasting_run (UtpRun r cbs) = lasting cbs"
| "lasting [] = True"
| "lasting ((cb, rs) # cbs) =
     (cb \<noteq> CbState UTP_STATE_DESTROYING \<and> list_all lasting_run rs \<and> lasting cbs)"

text \<open>\<open>dest_ok\<close>: whether the relation allows for the destruction of the socket.\<close>

locale callback_base =
  fixes P :: "'q platform"
    and rel :: "'q utp_handler \<Rightarrow> 'q utp_handler \<Rightarrow> bool"
    and dest_ok :: bool
  assumes rel_trans: "rel a b \<Longrightarrow> rel b c \<Longrightarrow> rel a c"
    and rel_destroying: "dest_ok \<Longrightarrow> rel a (on_destroying P a)"
    and rel_close: "rel a b \<Longrightarrow> wsz (write_q a) = 0 \<Longrightarrow> rel a (b\<lparr>utp := None\<rparr>)"
    and rel_clear: "rel a (a\<lparr>write_q := wq_clear (write_q a)\<rparr>)"
    and rel_write: "\<not> deleted a \<Longrightarrow> rel a (snd (do_write n a))"
    and rel_enqueue: "bytes \<noteq> [] \<Longrightarrow> rel a ((emit (DataIn bytes) a)\<lparr>ioq := drv_enq (api P) (ioq a) bytes,
      read_count := read_count a @ [length bytes]\<rparr>)"
    and rel_emit: "rel a (snd (snd (emit_read_buffer (api P) len rcvr q a)))"
    and rel_incoming: "utp a = None \<Longrightarrow> rel a (a\<lparr>utp := Some u\<rparr>)"
begin

lemma if_rel: "rel h x \<Longrightarrow> rel h y \<Longrightarrow> rel h (if c then x else y)"
  by simp

end

text \<open>A delivery to the process that waits in \<open>recv\<close>, with a copy of its reference.\<close>

definition deliver_waiting :: "'q platform \<Rightarrow> 'q utp_handler \<Rightarrow> nat \<times> 'q utp_handler" where
  "deliver_waiting P h =
     (let (ref, h1) = with_env (binary_copy (caller_ref h)) h;
          (sent, qsize, h2) = emit_read_buffer (api P) (recv_len h1) (ToCaller (caller h1) ref) 1 h1
      in (qsize, drop_binary ref (if sent then reset_waiting_recv h2 else h2)))"

locale callback_steps = callback_base P rel dest_ok
  for P :: "'q platform" and rel :: "'q utp_handler \<Rightarrow> 'q utp_handler \<Rightarrow> bool" and dest_ok :: bool +
  assumes rel_still: "still a b \<Longrightarrow> rel a b"
    and rel_waiting: "\<not> deleted a \<Longrightarrow> rel a (snd (deliver_waiting P a))"
begin

definition answers_ok :: "'q answers \<Rightarrow> bool" where
  "answers_ok ans \<longleftrightarrow> (\<forall>a \<in> set ans. \<forall>h. rel h (snd (a h)))"

lemma rel_refl: "rel h h"
  by (rule rel_still) simp

lemma rel_then_still: "rel a b \<Longrightarrow> still b c \<Longrightarrow> rel a c"
  by (rule rel_trans [OF _ rel_still])

lemma take_answer_rel:
  "answers_ok ans \<Longrightarrow> take_answer ans h = (r, ans', h') \<Longrightarrow> rel h h' \<and> answers_ok ans'"
  by (cases ans) (auto simp: take_answer_def answers_ok_def rel_refl split: prod.splits, metis snd_conv)

lemma call_utp_rel:
  assumes "answers_ok ans" "call_utp c ans h = (r, ans', h')"
  shows "rel h h' \<and> answers_ok ans'"
proof (cases "utp h")
  case None
  then show ?thesis using assms by (auto simp: call_utp_def rel_still)
next
  case (Some u)
  have "still h (emit (UtpCall (c u)) h)" by (rule still_emit) (simp_all add: harmless_terms)
  then show ?thesis
    using Some assms take_answer_rel [of ans "emit (UtpCall (c u)) h"] rel_trans [OF rel_still]
    by (auto simp: call_utp_def)
qed

lemma close_utp_rel:
  assumes "answers_ok ans" "close_utp ans h = (ans', h')"
  shows "rel h h' \<and> answers_ok ans'"
proof (cases "utp h \<noteq> None \<and> status h \<noteq> destroying \<and> wsz (write_q h) = 0")
  case True
  obtain r ans1 h1 where c: "call_utp UTP_Close ans (h\<lparr>status := closing\<rparr>) = (r, ans1, h1)"
    by (metis prod_cases3)
  have "rel (h\<lparr>status := closing\<rparr>) h1" "answers_ok ans1" using call_utp_rel [OF assms(1) c] by auto
  then have "rel h (touch h1)"
    using rel_trans [OF rel_still [OF still_status [OF _ still_refl]]] rel_then_still [OF _ still_touch]
    by blast
  then show ?thesis
    using True assms(2) c rel_close \<open>answers_ok ans1\<close> by (auto simp: close_utp_def)
next
  case False
  then show ?thesis using assms by (auto simp: close_utp_def rel_refl split: if_splits)
qed

lemma close_utp_rel': "answers_ok ans \<Longrightarrow> rel h (snd (close_utp ans h))"
  using close_utp_rel by (metis prod.collapse)

lemma do_error_rel: "answers_ok ans \<Longrightarrow> rel h (do_error P ans e h)"
proof -
  assume ans: "answers_ok ans"
  let ?h = "h\<lparr>error_code := e\<rparr>"
  have q: "rel h ?h" by (rule rel_still) simp
  have c: "rel h (snd (close_utp ans (h\<lparr>error_code := i\<rparr>)))" for i
    by (rule rel_trans [OF rel_still close_utp_rel' [OF ans]]) simp
  have o: "rel h (emit (OutputTerm p t) h1)" if "still h h1" "harmless [OutputTerm p t]" for p t h1
    by (rule rel_still [OF still_trans [OF that(1) still_emit [OF that(2)]]]) simp
  show ?thesis
    by (cases "status h") (simp_all add: do_error_def Let_def q c o harmless_terms rel_still)
qed

lemma do_send_to_rel: "answers_ok ans \<Longrightarrow> rel h (do_send_to P ans len os h)"
  using do_error_rel rel_still [OF still_send_loop, of h len 0 os] rel_trans rel_refl
  by (auto simp: do_send_to_def Server_do_send_to_def UtpHandler_do_send_to_def split: prod.splits option.splits)

lemma on_eof_rel: "answers_ok ans \<Longrightarrow> rel h (on_eof ans h)"
proof -
  assume ans: "answers_ok ans"
  let ?h1 = "h\<lparr>write_q := wq_clear (write_q h)\<rparr>"
  let ?h2 = "if status ?h1 \<noteq> stopped then snd (close_utp ans ?h1) else ?h1"
  have "rel h ?h2" using rel_clear rel_trans [OF rel_clear close_utp_rel' [OF ans]] by auto
  then have "rel h ((touch ?h2)\<lparr>writable := False, eof_seen := True\<rparr>)"
    by (rule rel_then_still) simp
  then show ?thesis by (simp only: on_eof_def Let_def)
qed

lemma on_writable_rel: "answers_ok ans \<Longrightarrow> rel h (on_writable ans h)"
proof -
  assume ans: "answers_ok ans"
  define h1 where "h1 = h\<lparr>writable := True\<rparr>"
  have 1: "rel h h1" unfolding h1_def by (rule rel_still) simp
  obtain ans2 h2 where st: "(if wsz (write_q h1) \<noteq> 0 then
               (case call_utp (\<lambda>u. UTP_Write u (wsz (write_q h1))) ans h1 of
                  (r, ans', h') \<Rightarrow> (ans', (touch h')\<lparr>writable := r \<noteq> 0\<rparr>))
             else (ans, h1)) = (ans2, h2)" by fastforce
  have 2: "rel h h2 \<and> answers_ok ans2"
  proof (cases "wsz (write_q h1) \<noteq> 0")
    case True
    obtain r ans' h' where c: "call_utp (\<lambda>u. UTP_Write u (wsz (write_q h1))) ans h1 = (r, ans', h')"
      by (metis prod_cases3)
    have "rel h h'" "answers_ok ans'" using call_utp_rel [OF ans c] rel_trans [OF 1] by auto
    then show ?thesis using True c st rel_then_still [of h h'] by auto
  qed (use st 1 ans in auto)
  define h3 where "h3 = (if writable h2 \<and> sender_waiting h2
      then (emit (SendTerm (port h2) (caller h2) (retry_term (port h2))) h2)\<lparr>sender_waiting := False\<rparr> else h2)"
  have "still h2 h3" by (simp add: h3_def still_emit harmless_terms)
  then have 3: "rel h h3" using 2 rel_then_still by blast
  have "on_writable ans h = (if close_pending h3 then snd (close_utp ans2 h3) else h3)"
    by (simp only: on_writable_def Let_def h1_def [symmetric] st prod.case h3_def)
  then show ?thesis using 2 3 rel_trans [OF 3 close_utp_rel'] by simp
qed

lemma do_state_change_rel:
  "answers_ok ans \<Longrightarrow> dest_ok \<or> s \<noteq> UTP_STATE_DESTROYING \<Longrightarrow> rel h (do_state_change P ans s h)"
proof -
  assume ans: "answers_ok ans" and dest: "dest_ok \<or> s \<noteq> UTP_STATE_DESTROYING"
  have d: "rel h (if s = UTP_STATE_DESTROYING then x else y)" if "dest_ok \<Longrightarrow> rel h x" "rel h y" for x y
    using that dest by (cases "s = UTP_STATE_DESTROYING") simp_all
  have q: "rel h (h\<lparr>state := s\<rparr>)" by (rule rel_still) simp
  show ?thesis
    unfolding do_state_change_def Let_def
    by (intro if_rel d rel_trans [OF q on_eof_rel [OF ans]] rel_trans [OF q on_writable_rel [OF ans]]
        rel_then_still [OF q still_on_connect] rel_trans [OF q rel_destroying] q)
qed

lemma rel_read:
  assumes "bytes \<noteq> []" "\<not> deleted h"
  shows "rel h (snd (read_deliver P bytes (emit (DataIn bytes) h)))"
proof -
  define h1 where "h1 = (emit (DataIn bytes) h)\<lparr>ioq := drv_enq (api P) (ioq h) bytes,
      read_count := read_count h @ [length bytes]\<rparr>"
  have 1: "rel h h1" unfolding h1_def by (rule rel_enqueue [OF assms(1)])
  have "read_deliver P bytes (emit (DataIn bytes) h) =
      (if active (sockopts h1) = ACTIVE_FALSE then (if receiver_waiting h1 then deliver_waiting P h1 else (1, h1))
       else snd (emit_read_buffer (api P) 0 ToConnected 1 h1))"
    by (simp add: read_deliver_def deliver_waiting_def Let_def h1_def [symmetric] del: One_nat_def
        split: prod.splits)
  moreover have "\<not> deleted h1" using assms(2) by (simp add: h1_def)
  ultimately show ?thesis using 1 rel_trans [OF 1 rel_waiting] rel_trans [OF 1 rel_emit] by simp
qed

lemma do_read_rel: "answers_ok ans \<Longrightarrow> \<not> deleted h \<Longrightarrow> rel h (do_read P ans bytes (emit (DataIn bytes) h))"
proof (cases "bytes = []")
  case True
  have "still h (emit (DataIn []) h)" by (rule still_emit) (simp_all add: harmless_def)
  then show ?thesis using True by (simp add: do_read_def rel_still)
next
  case False
  assume ans: "answers_ok ans" and del: "\<not> deleted h"
  obtain q h1 where r: "read_deliver P bytes (emit (DataIn bytes) h) = (q, h1)" by fastforce
  obtain r2 ans2 h2 where c: "call_utp UTP_RBDrained ans h1 = (r2, ans2, h2)" by (metis prod_cases3)
  have "rel h h1" using rel_read [OF False del] r by simp
  then show ?thesis
    using False r c rel_trans [of h h1 h2] call_utp_rel [OF ans c] by (simp add: do_read_def)
qed

lemma do_incoming_rel: "rel h (do_incoming u h)"
proof -
  have "rel h ((set_utp_callbacks (h\<lparr>utp := Some u\<rparr>))\<lparr>writable := True, status := connected\<rparr>)"
    if "utp h = None"
    by (intro rel_then_still [OF rel_incoming [OF that, of u]]) (simp add: still_set_utp_callbacks)
  then show ?thesis
    using rel_refl [of h]
    by (simp add: do_incoming_def Server_do_incoming_def Client_do_incoming_def)
qed

lemma do_callback_rel:
  "answers_ok ans \<Longrightarrow> dest_ok \<or> cb \<noteq> CbState UTP_STATE_DESTROYING \<Longrightarrow> rel h (do_callback P ans cb h)"
  using do_send_to_rel do_read_rel rel_write do_state_change_rel [of ans _ h] do_error_rel do_incoming_rel rel_refl
  by (cases cb) (simp_all add: do_callback_def do_overhead_def rel_still)

lemma run_rel_aux:
  "Q = P \<Longrightarrow> dest_ok \<or> lasting_run r \<Longrightarrow> rel h (snd (run_utp Q r h))"
  "Q = P \<Longrightarrow> dest_ok \<or> lasting cbs \<Longrightarrow> rel h (run_cbs Q cbs h)"
proof (induction Q r h and Q cbs h rule: run_utp_run_cbs.induct)
  case (3 Q cb rs cbs h)
  have ok: "answers_ok (map (run_utp Q) rs)"
    using 3(1,3,4) by (auto simp: answers_ok_def list_all_iff)
  show ?case
    using rel_trans [OF do_callback_rel [OF ok, of cb h]] 3 by auto
qed (simp_all add: rel_refl)

lemma lasting_ok: "list_all lasting_run rs \<Longrightarrow> answers_ok (map (run_utp P) rs)"
  by (auto simp: answers_ok_def list_all_iff intro: run_rel_aux(1))

end

text \<open>It is enough that every quiet step belongs to the relation.\<close>

locale callback_relation = callback_base P rel dest_ok
  for P :: "'q platform" and rel :: "'q utp_handler \<Rightarrow> 'q utp_handler \<Rightarrow> bool" and dest_ok :: bool +
  assumes rel_quiet: "quiet a b \<Longrightarrow> rel a b"
begin

lemma rel_then_quiet: "rel a b \<Longrightarrow> quiet b c \<Longrightarrow> rel a c"
  by (rule rel_trans [OF _ rel_quiet])

lemma quiet_waiting: "rel a (snd (deliver_waiting P a))"
proof -
  obtain ref h1 where c: "with_env (binary_copy (caller_ref a)) a = (ref, h1)" by fastforce
  obtain sent q h2 where e: "emit_read_buffer (api P) (recv_len h1) (ToCaller (caller h1) ref) 1 h1 = (sent, q, h2)"
    by (metis prod_cases3)
  have "rel a h2"
    using rel_trans [OF rel_quiet [OF binary_copy_quiet [OF c]] rel_emit] e by (metis snd_conv)
  then show ?thesis
    using rel_then_quiet [OF _ quiet_trans [OF quiet_reset_waiting_recv quiet_drop_binary]]
      rel_then_quiet [OF _ quiet_drop_binary]
    by (simp add: deliver_waiting_def c e del: One_nat_def)
qed

end

sublocale callback_relation \<subseteq> callback_steps P rel dest_ok
  by unfold_locales (simp_all add: rel_quiet still_quiet quiet_waiting)

locale handler_relation = callback_relation P rel True
  for P :: "'q platform" and rel :: "'q utp_handler \<Rightarrow> 'q utp_handler \<Rightarrow> bool"
begin

lemma run_utp_rel: "rel h (snd (run_utp P r h))"
  by (rule run_rel_aux) simp_all

lemma run_cbs_rel: "rel h (run_cbs P cbs h)"
  by (rule run_rel_aux) simp_all

lemma runs_ok: "answers_ok (map (run_utp P) rs)"
  by (simp add: answers_ok_def run_utp_rel)

end

section \<open>The received stream\<close>

text \<open>
  In raw mode the bytes sent to Erlang, followed by the bytes queued, are the bytes received.
  The relation speaks of steps without a fault, and of streams whose length fits in 32 bits.
\<close>

definition stream_inv :: "'q drv_api \<Rightarrow> ('q, 'a) sock \<Rightarrow> bool" where
  "stream_inv D h \<longleftrightarrow>
     payloads (hlog h) @ queued D h = received (hlog h) \<and> packet (sockopts h) = 0 \<and>
     sum_list (read_count h) = length (queued D h) \<and> (\<forall>c \<in> set (read_count h). 0 < c)"

definition grows :: "('q, 'a) handler_scheme \<Rightarrow> ('q, 'a) handler_scheme \<Rightarrow> bool" where
  "grows h h' \<longleftrightarrow> (\<exists>xs. faults h' = faults h @ xs) \<and> (\<exists>as. hlog h' = hlog h @ as)"

definition stream_rel :: "'q drv_api \<Rightarrow> ('q, 'a) sock \<Rightarrow> ('q, 'a) sock \<Rightarrow> bool" where
  "stream_rel D h h' \<longleftrightarrow> grows h h' \<and>
     (faults h' = faults h \<and> length (received (hlog h')) < 2 ^ 32 \<and> stream_inv D h \<longrightarrow> stream_inv D h')"

lemma stream_rel_trans:
  assumes "stream_rel D a b" "stream_rel D b c"
  shows "stream_rel D a c"
proof -
  obtain xs as where b: "faults b = faults a @ xs" "hlog b = hlog a @ as"
    using assms(1) by (auto simp: stream_rel_def grows_def)
  obtain ys cs where c: "faults c = faults b @ ys" "hlog c = hlog b @ cs"
    using assms(2) by (auto simp: stream_rel_def grows_def)
  show ?thesis
    using assms b c unfolding stream_rel_def by (auto simp: grows_def)
qed

lemma muted_stream_rel: "muted a b \<Longrightarrow> stream_rel D a b"
  by (auto simp: muted_def stream_rel_def grows_def stream_inv_def queued_def harmless_def)

lemma log_stream_rel:
  "ioq h' = ioq h \<Longrightarrow> read_count h' = read_count h \<Longrightarrow> sockopts h' = sockopts h \<Longrightarrow>
   faults h' = faults h \<Longrightarrow> hlog h' = hlog h @ as \<Longrightarrow> harmless as \<Longrightarrow> stream_rel D h h'"
  by (simp add: stream_rel_def grows_def stream_inv_def queued_def harmless_def)

lemma stream_rc_ok:
  "stream_inv D h \<Longrightarrow> length (received (hlog h)) < 2 ^ 32 \<Longrightarrow> rc_ok D h"
  unfolding stream_inv_def rc_ok_def by (metis le_add2 length_append order.strict_trans1)

lemma emit_stream_rel:
  assumes "ioq_laws D"
  shows "stream_rel D h (snd (snd (emit_read_buffer D len rcvr q0 h)))"
proof -
  obtain b q h' where r: "emit_read_buffer D len rcvr q0 h = (b, q, h')" by (metis prod_cases3)
  have "delivers h h'" using delivers_emit_read_buffer [of h D len rcvr q0] r by simp
  then obtain as xs where d: "received as = []" "hlog h' = hlog h @ as" "faults h' = faults h @ xs"
    "packet (sockopts h') = packet (sockopts h)"
    unfolding delivers_def neutral_def by auto
  have "stream_inv D h'" if "faults h' = faults h" "length (received (hlog h')) < 2 ^ 32" "stream_inv D h"
    using emit_stream_conserved [OF assms _ _ r that(1)] stream_rc_ok [OF that(3)] that d
    by (simp add: stream_inv_def rc_ok_def)
  then show ?thesis using d by (auto simp: r stream_rel_def grows_def)
qed

lemma enqueue_stream_rel:
  assumes "ioq_laws D" "bytes \<noteq> []"
  shows "stream_rel D h ((emit (DataIn bytes) h)\<lparr>ioq := drv_enq D (ioq h) bytes,
    read_count := read_count h @ [length bytes]\<rparr>)"
  using assms
  by (auto simp: stream_rel_def grows_def stream_inv_def queued_def ioq_enq)

lemma do_write_frees:
  "\<exists>as xs. hlog (snd (do_write n h)) = hlog h @ as \<and> (\<forall>a \<in> set as. \<exists>i. a = FreeBinary i) \<and>
    faults (snd (do_write n h)) = faults h @ xs"
proof -
  let ?frees = "\<lambda>as. \<forall>a \<in> set as. \<exists>i. a = FreeBinary i"
  have "\<exists>as. log w' = log w @ as \<and> ?frees as" if "wq_pop_loop n q sz off to w = Ret (bs, wq, w')"
    for n q sz off to w bs wq w'
    using that
  proof (induction n q sz off to w rule: wq_pop_loop.induct)
    case (3 n bin q sz off to w)
    let ?k = "size_sub (orig_size bin) off"
    show ?case
    proof (cases "Suc n < ?k")
      case True
      then show ?thesis using 3(2) by (auto simp: wq_pop_loop.simps Let_def)
    next
      case False
      obtain as where as: "log w' = log (free_binary bin w) @ as" "?frees as"
        using 3(1) [OF refl refl False refl] 3(2) False by (auto simp: wq_pop_loop.simps Let_def)
      then have "?frees (FreeBinary (bin_id bin) # as)" by simp
      then show ?thesis using as(1) by auto
    qed
  qed (auto simp: wq_pop_loop.simps)
  then have pop: "\<exists>as. log w' = log w @ as \<and> ?frees as" if "wq_pop_bytes n wq w = Ret (bs, wq', w')"
    for wq w bs wq' w'
    using that unfolding wq_pop_bytes_def by blast
  show ?thesis
  proof (cases "wq_pop_bytes n (write_q h) (henv h)")
    case (Ret x)
    then show ?thesis using pop by (cases x) (auto simp: do_write_def)
  qed (auto simp: do_write_def)
qed

lemma do_write_log:
  "\<exists>as xs. hlog (snd (do_write n h)) = hlog h @ as \<and> harmless as \<and> faults (snd (do_write n h)) = faults h @ xs"
  using do_write_frees [of n h] harmless_binaries by blast

lemma do_write_stream_rel: "stream_rel D h (snd (do_write n h))"
proof -
  obtain as xs where as: "hlog (snd (do_write n h)) = hlog h @ as" "harmless as"
    "faults (snd (do_write n h)) = faults h @ xs"
    using do_write_log by blast
  moreover have "ioq (snd (do_write n h)) = ioq h" "read_count (snd (do_write n h)) = read_count h"
    "sockopts (snd (do_write n h)) = sockopts h"
    by (auto simp: do_write_def split: cpp.splits)
  ultimately show ?thesis
    by (auto simp: stream_rel_def grows_def stream_inv_def queued_def harmless_def)
qed

text \<open>The stream relation for a platform whose queue behaves as documented.\<close>

definition stream_step :: "'q platform \<Rightarrow> 'q utp_handler \<Rightarrow> 'q utp_handler \<Rightarrow> bool" where
  "stream_step P a b \<longleftrightarrow> (ioq_laws (api P) \<longrightarrow> stream_rel (api P) a b)"

interpretation stream: handler_relation P "stream_step P" for P :: "'q platform"
proof unfold_locales
  fix a b c :: "'q utp_handler" and bytes n u and len rcvr q
  show "stream_step P a b \<Longrightarrow> stream_step P b c \<Longrightarrow> stream_step P a c"
    using stream_rel_trans by (auto simp: stream_step_def)
  show "quiet a b \<Longrightarrow> stream_step P a b" by (simp add: stream_step_def muted_stream_rel quiet_muted)
  show "stream_step P a (on_destroying P a)"
    by (simp add: stream_step_def muted_stream_rel muted_on_destroying)
  show "stream_step P a b \<Longrightarrow> stream_step P a (b\<lparr>utp := None\<rparr>)"
    by (simp add: stream_step_def stream_rel_def grows_def stream_inv_def queued_def)
  show "stream_step P a (a\<lparr>write_q := wq_clear (write_q a)\<rparr>)"
    by (simp add: stream_step_def stream_rel_def grows_def stream_inv_def queued_def)
  show "stream_step P a (snd (do_write n a))" by (simp add: stream_step_def do_write_stream_rel)
  show "bytes \<noteq> [] \<Longrightarrow> stream_step P a ((emit (DataIn bytes) a)\<lparr>ioq := drv_enq (api P) (ioq a) bytes,
      read_count := read_count a @ [length bytes]\<rparr>)"
    by (simp add: stream_step_def enqueue_stream_rel)
  show "stream_step P a (snd (snd (emit_read_buffer (api P) len rcvr q a)))"
    by (simp add: stream_step_def emit_stream_rel)
  show "stream_step P a (a\<lparr>utp := Some u\<rparr>)"
    by (simp add: stream_step_def stream_rel_def grows_def stream_inv_def queued_def)
qed

section \<open>Mutexes\<close>

text \<open>
  Callbacks are made while the outer mutexes are held. Without a fault they take at most the
  innermost one, and release it.
\<close>

definition inner :: "action list \<Rightarrow> bool" where
  "inner as \<longleftrightarrow> (\<forall>s. MapMutex \<notin> set s \<longrightarrow> locks s as = Some s)"

lemma inner_simps [simp]: "inner []" "inner xs \<Longrightarrow> inner ys \<Longrightarrow> inner (xs @ ys)"
  by (simp_all add: inner_def locks_append)

definition lock_step :: "'q utp_handler \<Rightarrow> 'q utp_handler \<Rightarrow> bool" where
  "lock_step a b \<longleftrightarrow> (\<exists>xs as. faults b = faults a @ xs \<and> hlog b = hlog a @ as \<and> (xs = [] \<longrightarrow> inner as))"

lemma lock_stepI:
  "faults b = faults a @ xs \<Longrightarrow> hlog b = hlog a @ as \<Longrightarrow> (xs = [] \<Longrightarrow> inner as) \<Longrightarrow> lock_step a b"
  by (auto simp: lock_step_def)

lemma lock_step_trans: "lock_step a b \<Longrightarrow> lock_step b c \<Longrightarrow> lock_step a c"
  unfolding lock_step_def by (elim exE conjE) (rule exI, rule exI, rule conjI, simp, rule conjI, simp, simp)

lemma muted_lock_step: "muted a b \<Longrightarrow> lock_step a b"
  by (auto simp: muted_def harmless_def inner_def lock_step_def)

interpretation locks: handler_relation P lock_step for P :: "'q platform"
proof unfold_locales
  fix a b c :: "'q utp_handler" and bytes n u and len rcvr q
  show "lock_step a b \<Longrightarrow> lock_step b c \<Longrightarrow> lock_step a c" by (rule lock_step_trans)
  show "quiet a b \<Longrightarrow> lock_step a b" by (rule muted_lock_step [OF quiet_muted])
  show "lock_step a (on_destroying P a)" by (rule muted_lock_step [OF muted_on_destroying])
  show "lock_step a b \<Longrightarrow> lock_step a (b\<lparr>utp := None\<rparr>)" by (simp add: lock_step_def)
  show "lock_step a (a\<lparr>write_q := wq_clear (write_q a)\<rparr>)" by (simp add: lock_step_def)
  show "lock_step a (snd (do_write n a))"
    using do_write_log [of n a] by (auto simp: lock_step_def inner_def harmless_def)
  show "bytes \<noteq> [] \<Longrightarrow> lock_step a ((emit (DataIn bytes) a)\<lparr>ioq := drv_enq (api P) (ioq a) bytes,
      read_count := read_count a @ [length bytes]\<rparr>)"
    by (simp add: lock_step_def inner_def)
  show "lock_step a (snd (snd (emit_read_buffer (api P) len rcvr q a)))"
    using delivers_emit_read_buffer [of a "api P" len rcvr q]
    by (auto simp: delivers_def lock_step_def neutral_def inner_def)
  show "lock_step a (a\<lparr>utp := Some u\<rparr>)" by (simp add: lock_step_def)
qed

section \<open>Answers to acceptors\<close>

text \<open>No connection ever answers an acceptor.\<close>

definition async_step :: "'q utp_handler \<Rightarrow> 'q utp_handler \<Rightarrow> bool" where
  "async_step a b \<longleftrightarrow> asyncs (hlog b) = asyncs (hlog a)"

interpretation answers: handler_relation P async_step for P :: "'q platform"
proof unfold_locales
  fix a b c :: "'q utp_handler" and bytes n u and len rcvr q
  show "async_step a (snd (do_write n a))"
    using do_write_log [of n a] by (auto simp: async_step_def harmless_def)
  show "async_step a (snd (snd (emit_read_buffer (api P) len rcvr q a)))"
    using delivers_emit_read_buffer [of a "api P" len rcvr q]
    by (auto simp: delivers_def async_step_def neutral_def)
next
  fix a b :: "'q utp_handler"
  have m: "async_step a b" if "muted a b" for a b :: "'q utp_handler"
    using that by (auto simp: async_step_def muted_def harmless_def)
  show "quiet a b \<Longrightarrow> async_step a b" by (rule m [OF quiet_muted])
  show "async_step a (on_destroying P a)" by (rule m [OF muted_on_destroying])
qed (auto simp: async_step_def)

section \<open>The write queue and the socket\<close>

text \<open>
  As long as bytes wait to be written there is a socket to write them to. Callbacks never add to
  the write queue.
\<close>

definition write_ok :: "'q utp_handler \<Rightarrow> bool" where
  "write_ok h \<longleftrightarrow> wq_inv (write_q h) \<and> (utp h = None \<longrightarrow> wsz (write_q h) = 0)"

definition write_step :: "'q utp_handler \<Rightarrow> 'q utp_handler \<Rightarrow> bool" where
  "write_step a b \<longleftrightarrow> (write_ok a \<longrightarrow> write_ok b \<and> wsz (write_q b) \<le> wsz (write_q a))"

lemma write_step_same:
  "write_q b = write_q a \<Longrightarrow> utp b = utp a \<Longrightarrow> write_step a b"
  by (simp add: write_step_def write_ok_def)

lemma do_write_write_step: "write_step h (snd (do_write n h))"
proof (cases "wq_pop_bytes n (write_q h) (henv h)")
  case (Ret x)
  obtain bs wq w where x: "x = (bs, wq, w)" by (metis prod_cases3)
  have h': "snd (do_write n h) = (if n = 0 then h else h\<lparr>write_q := wq, henv := w\<rparr>)"
    using Ret x by (simp add: do_write_def)
  show ?thesis
    unfolding h' write_step_def write_ok_def
    using wq_pop_bytes_RetD(3,5) [of "write_q h" n "henv h" bs wq w] Ret x by simp
qed (simp_all add: do_write_def write_step_same)

interpretation writes: handler_relation P write_step for P :: "'q platform"
proof unfold_locales
  fix a b c :: "'q utp_handler" and bytes n u and len rcvr q
  show "write_step a b \<Longrightarrow> write_step b c \<Longrightarrow> write_step a c" by (auto simp: write_step_def)
  have m: "write_step a b" if "muted a b" for a b :: "'q utp_handler"
    using that by (intro write_step_same) (auto simp: muted_def)
  show "quiet a b \<Longrightarrow> write_step a b" by (rule m [OF quiet_muted])
  show "write_step a (on_destroying P a)" by (rule m [OF muted_on_destroying])
  show "write_step a b \<Longrightarrow> wsz (write_q a) = 0 \<Longrightarrow> write_step a (b\<lparr>utp := None\<rparr>)"
    by (auto simp: write_step_def write_ok_def)
  show "write_step a (a\<lparr>write_q := wq_clear (write_q a)\<rparr>)"
    by (simp add: write_step_def write_ok_def)
  show "write_step a (snd (do_write n a))" by (rule do_write_write_step)
  show "bytes \<noteq> [] \<Longrightarrow> write_step a ((emit (DataIn bytes) a)\<lparr>ioq := drv_enq (api P) (ioq a) bytes,
      read_count := read_count a @ [length bytes]\<rparr>)"
    by (simp add: write_step_same)
  show "write_step a (snd (snd (emit_read_buffer (api P) len rcvr q a)))"
    using delivers_emit_read_buffer [of a "api P" len rcvr q]
    by (auto simp: delivers_def intro!: write_step_same)
  show "utp a = None \<Longrightarrow> write_step a (a\<lparr>utp := Some u\<rparr>)"
    by (simp add: write_step_def write_ok_def)
qed

end
