(* ===== verification/Connection.thy ===== *)
theory Connection
  imports Callbacks
begin

text \<open>
  A connection over its whole life: any sequence of operations that the Erlang runtime requests
  of a handler, interleaved with runs of libutp. The locale \<open>port_relation\<close> lifts a relation from
  callbacks to these operations; its interpretations give the stream, mutex and write-queue
  properties.
\<close>

section \<open>Steps of a connection\<close>

text \<open>
  \<open>Control\<close> carries the command, its argument, the reply buffer's size, the runs of libutp
  during the calls it makes, and the answers to \<open>getsockname\<close> and \<open>UTP_GetPeerName\<close>.
\<close>

datatype conn_op =
    Callbacks "(callback \<times> utp_run list) list"
  | Output iovec "utp_run list"
  | Control nat "byte list" nat "utp_run list" "int \<times> int \<times> SockAddr" "int \<times> SockAddr"
  | Input "int \<times> byte list" "utp_run list"
  | Exit pid
  | Set_port nat
  | Stop "utp_run list"

definition note_outcome ::
  "ctl cpp \<times> ('q, 'a) handler_scheme \<Rightarrow> ('q, 'a) handler_scheme" where
  "note_outcome r =
     (case r of
        (Ret _, h) \<Rightarrow> h
      | (Throw _, h) \<Rightarrow> fault UncaughtException h
      | (Undef, h) \<Rightarrow> fault OutOfBounds h)"

fun conn_step :: "'q platform \<Rightarrow> conn_op \<Rightarrow> 'q utp_handler \<Rightarrow> 'q utp_handler" where
  "conn_step P (Callbacks cbs) h = run_cbs P cbs h"
| "conn_step P (Output ev rs) h = outputv P (map (run_utp P) rs) ev h"
| "conn_step P (Control cmd buf rlen rs names peer) h =
     note_outcome (utp_control P
       \<lparr>cw_ans = map (run_utp P) rs, cw_sockname = names, cw_peername = peer\<rparr> cmd buf rlen h)"
| "conn_step P (Input os rs) h = input_ready P (map (run_utp P) rs) os h"
| "conn_step P (Exit proc) h = Handler_process_exited proc h"
| "conn_step P (Set_port p) h = set_port p h"
| "conn_step P (Stop rs) h = stop P (map (run_utp P) rs) h"

fun conn_run :: "'q platform \<Rightarrow> conn_op list \<Rightarrow> 'q utp_handler \<Rightarrow> 'q utp_handler" where
  "conn_run P [] h = h"
| "conn_run P (op # ops) h = conn_run P ops (conn_step P op h)"

fun is_stop :: "conn_op \<Rightarrow> bool" where
  "is_stop (Stop rs) = True"
| "is_stop _ = False"

fun is_set_port :: "conn_op \<Rightarrow> bool" where
  "is_set_port (Set_port p) = True"
| "is_set_port _ = False"

section \<open>Quiet operations\<close>

lemma binaries_quiet:
  assumes "\<And>w. only_binaries w (snd (f w))" "with_env f h = (r, h')"
  shows "quiet h h'"
proof (rule with_env_quiet [OF _ _ assms(2)])
  fix w
  show "\<exists>as. log (snd (f w)) = log w @ as \<and> harmless as" "main (snd (f w)) = main w"
    using assms(1) [of w] harmless_binaries unfolding only_binaries_def by blast+
qed

lemma SockAddr_encode_env: "only_binaries w (snd (SockAddr_encode P rlen err a w))"
  by (auto simp: SockAddr_encode_def encode_errno_def encode_error_env encode_plain_env split: cpp.splits)

lemma getopts_reply_env: "only_binaries w (snd (getopts_reply P so bs rlen w))"
  by (auto simp: getopts_reply_def Let_def encode_plain_env split: prod.splits cpp.splits)

lemma encode_errno_env: "only_binaries w (snd (encode_errno P rlen e w))"
  by (simp add: encode_errno_def encode_error_env)

lemma encode_quiet:
  "with_env (encode_plain P rlen ms) h = (r, h') \<Longrightarrow> quiet h h'"
  "with_env (encode_errno P rlen e) h = (r, h') \<Longrightarrow> quiet h h'"
  "with_env (SockAddr_encode P rlen e a) h = (r, h') \<Longrightarrow> quiet h h'"
  "with_env (getopts_reply P so bs rlen) h = (r, h') \<Longrightarrow> quiet h h'"
  "with_env (copy_to_binary D x rlen) h = (r2, h') \<Longrightarrow> quiet h h'"
  by (rule binaries_quiet, rule encode_plain_env, assumption,
      rule binaries_quiet, rule encode_errno_env, assumption,
      rule binaries_quiet, rule SockAddr_encode_env, assumption,
      rule binaries_quiet, rule getopts_reply_env, assumption,
      rule binaries_quiet, rule copy_to_binary_env, assumption)

lemma env_quiet:
  assumes "only_binaries (henv h) w" "h' = h\<lparr>henv := w\<rparr>"
  shows "quiet h h'"
  using assms quiet_binaries by simp

lemma parse_at_quiet:
  "parse_binary_at D E d b (henv h) = (r, b', w) \<Longrightarrow> quiet h (h\<lparr>henv := w\<rparr>)"
  using only_binaries_parse [of "henv h" D E d b] by (auto intro: env_quiet)

lemma parse_arg_quiet: "parse_arg P buf h = (r, b, h') \<Longrightarrow> quiet h h'"
  by (auto simp: parse_arg_def parse_binary_def split: prod.splits dest: parse_at_quiet)

lemma parse_caller_ref_quiet: "parse_caller_ref P buf h = (r, h') \<Longrightarrow> quiet h h'"
  by (auto simp: parse_caller_ref_def parse_binary_def quiet_def muted_def core_def split: prod.splits
      dest!: parse_at_quiet)

lemma parse_recv_quiet: "parse_recv P buf h = (r, n, b, h') \<Longrightarrow> quiet h h'"
  by (auto simp: parse_recv_def split: cpp.splits prod.splits if_splits dest: parse_at_quiet)

lemma getopts_quiet: "getopts P buf rlen h = (r, h') \<Longrightarrow> quiet h h'"
proof -
  assume r: "getopts P buf rlen h = (r, h')"
  obtain pr b h1 where p: "parse_arg P buf h = (pr, b, h1)" by (metis prod_cases3)
  obtain r2 h2 where g: "with_env (getopts_reply P (sockopts h1) (bin_bytes b) rlen) h1 = (r2, h2)"
    by fastforce
  have "quiet h h1" "quiet h h2"
    using parse_arg_quiet [OF p] quiet_trans [OF parse_arg_quiet [OF p] encode_quiet(4) [OF g]] by auto
  then show ?thesis
    using r p g quiet_trans [OF _ quiet_drop_binary] by (cases pr) (auto simp: getopts_def)
qed

lemma sockname_quiet: "sockname P os rlen h = (r, h') \<Longrightarrow> quiet h h'"
  by (auto simp: sockname_def split: prod.splits if_splits dest: encode_quiet)

lemma cancel_quiet:
  "quiet (emit (Lock UtpMutex) h) ((emit (Lock UtpMutex) h)\<lparr>sender_waiting := b, caller := c\<rparr>)"
  by simp

lemma harmless_replies [simp]:
  "harmless [SendTerm p c (reply_term q a)]" "harmless [SendTerm p c (timeout_term P q)]"
  "harmless [SendTerm p c (wait_term q tm)]" "harmless [SendTerm p c (not_connected_term P q)]"
  "harmless [UtpCall u]" "harmless [FailureEof n]" "harmless [SetPortBinary n]"
  by (simp_all add: harmless_def reply_term_def timeout_term_def wait_term_def not_connected_term_def)

lemma quiet_send_not_connected: "quiet h (on_env (send_not_connected P p) h)"
  by (rule quiet_env) (simp_all add: calm_def send_not_connected_def)

lemma quiet_exit: "quiet h (Handler_process_exited proc h)"
  by (simp add: Handler_process_exited_def Let_def quiet_emit)

lemma muted_set_port: "muted h (set_port p h)"
proof -
  have 1: "muted h (Handler_set_port p h)"
    using muted_trans [OF muted_fields(13) muted_emit, of "SetPortBinary p" h p]
    by (simp add: Handler_set_port_def Let_def)
  have 2: "muted h (on_env (start_input fd i) (Handler_set_port p h))" for fd i
    by (rule muted_trans [OF 1 muted_env [OF calm_start_input]])
  show ?thesis
    using 1 2 by (simp add: set_port_def Let_def)
qed

section \<open>Relations that every operation respects\<close>

text \<open>
  \<open>pk_ok\<close> restricts how \<open>setopts\<close> may change the packet size.
\<close>

locale port_relation = handler_relation +
  fixes prel :: "'a utp_handler \<Rightarrow> 'a utp_handler \<Rightarrow> bool"
    and pk_ok :: "nat \<Rightarrow> nat \<Rightarrow> bool"
    and drop_ok :: bool
    and port_ok :: bool
  assumes prel_rel: "rel a b \<Longrightarrow> prel a b"
    and prel_trans: "prel a b \<Longrightarrow> prel b c \<Longrightarrow> prel a c"
    and prel_bracket: "rel (emit (Lock UtpMutex) a) b \<Longrightarrow> prel a (emit (Unlock UtpMutex) b)"
    and prel_stuck: "rel (emit (Lock UtpMutex) a) b \<Longrightarrow> prel a (fault x b)"
    and prel_push: "utp a \<noteq> None \<Longrightarrow> prel a (a\<lparr>write_q := wq_push_back bn (write_q a)\<rparr>)"
    and prel_opts: "pk_ok (packet (sockopts a)) (packet so) \<Longrightarrow> prel a (a\<lparr>sockopts := so\<rparr>)"
    and prel_drop: "drop_ok \<Longrightarrow> prel a (a\<lparr>ioq := q\<rparr>)"
    and prel_delete: "status a = destroying \<Longrightarrow> prel a (delete_utp_handler a)"
    and prel_port: "port_ok \<Longrightarrow> prel a (set_port p a)"
begin

lemma prel_quiet: "quiet a b \<Longrightarrow> prel a b"
  by (rule prel_rel [OF rel_quiet])

lemma prel_refl: "prel a a"
  by (rule prel_quiet) simp

lemma prel_then_quiet: "prel a b \<Longrightarrow> quiet b c \<Longrightarrow> prel a c"
  by (rule prel_trans [OF _ prel_quiet])

lemma push_new_prel:
  "utp h \<noteq> None \<Longrightarrow> prel h (push_new P bs h) \<and> utp (push_new P bs h) = utp h"
proof -
  assume u: "utp h \<noteq> None"
  obtain r h' where w: "with_env (alloc_binary (api P) (length bs)) h = (r, h')" by fastforce
  have "\<exists>as. log (snd (alloc_binary (api P) n w)) = log w @ as \<and> harmless as"
    "main (snd (alloc_binary (api P) n w)) = main w" for n w
    by (auto simp: alloc_binary_def Let_def harmless_def env_log_def)
  then have q: "quiet h h'" by (rule with_env_quiet [OF _ _ w])
  then have "utp h' = utp h" by (simp add: quiet_def muted_def)
  then show ?thesis
    using w q u prel_quiet [OF quiet_trans [OF q quiet_fault]] prel_trans [OF prel_quiet [OF q] prel_push]
    by (auto simp: push_new_def split: option.splits)
qed

lemma push_iov_prel:
  "utp h \<noteq> None \<Longrightarrow> prel h (push_iov P e h) \<and> utp (push_iov P e h) = utp h"
proof -
  assume u: "utp h \<noteq> None"
  have "prel h ((on_env (inc_refc b) h)\<lparr>write_q := wq_push_back b (write_q h)\<rparr>)" for b
    using prel_trans [OF prel_quiet [OF quiet_env [OF calm_inc]] prel_push, of b h b] u by simp
  then show ?thesis
    using push_new_prel [OF u] u prel_refl
    by (auto simp: push_iov_def Let_def split: prod.splits option.splits)
qed

lemma fold_push_iov_prel:
  "utp h \<noteq> None \<Longrightarrow> prel h (fold (push_iov P) ev h) \<and> utp (fold (push_iov P) ev h) = utp h"
proof (induction ev arbitrary: h)
  case (Cons e ev)
  then show ?case
    using push_iov_prel [OF Cons(2), of e] Cons(1) [of "push_iov P e h"] prel_trans by auto
qed (simp add: prel_refl)

lemma enqueue_output_prel:
  assumes "utp h \<noteq> None" "enqueue_output P ev h = (n, h')"
  shows "prel h h' \<and> utp h' = utp h"
proof -
  let ?h1 = "if packet (sockopts h) > 0 then push_new P (packet_bytes (packet (sockopts h)) (iov_size ev)) h else h"
  have "prel h ?h1 \<and> utp ?h1 = utp h" using push_new_prel [OF assms(1)] prel_refl by simp
  then have 1: "prel h ?h1" "utp ?h1 = utp h" by blast+
  then have "utp ?h1 \<noteq> None" using assms(1) by metis
  then have 2: "prel ?h1 (fold (push_iov P) ev ?h1)" "utp (fold (push_iov P) ev ?h1) = utp ?h1"
    using fold_push_iov_prel [of ?h1 ev] by blast+
  have "prel h (fold (push_iov P) ev ?h1) \<and> utp (fold (push_iov P) ev ?h1) = utp h"
    using prel_trans [OF 1(1) 2(1)] 1(2) 2(2) by (simp only: simp_thms)
  moreover have "h' = fold (push_iov P) ev ?h1 \<or> h' = h"
    using assms(2) by (auto simp: enqueue_output_def Let_def split: if_splits)
  ultimately show ?thesis using prel_refl by auto
qed

lemma outputv_prel: "answers_ok ans \<Longrightarrow> prel h (outputv P ans ev h)"
proof -
  assume ans: "answers_ok ans"
  consider "status h \<noteq> connected \<or> utp h = None"
    | "status h = connected" "utp h \<noteq> None" "writable h"
    | "status h = connected" "utp h \<noteq> None" "\<not> writable h"
    by blast
  then show ?thesis
  proof cases
    case 1
    then show ?thesis by (simp add: outputv_def prel_quiet quiet_send_not_connected)
  next
    case 2
    obtain n h1 where e: "enqueue_output P ev h = (n, h1)" by fastforce
    obtain r ans2 h2 where c: "call_utp (\<lambda>u. UTP_Write u n) ans (emit (Lock UtpMutex) h1) = (r, ans2, h2)"
      by (metis prod_cases3)
    define h3 where "h3 = (touch h2)\<lparr>writable := r \<noteq> 0\<rparr>"
    have "rel (emit (Lock UtpMutex) h1) h3"
      by (rule rel_then_quiet [OF conjunct1 [OF call_utp_rel [OF ans c]]]) (simp add: h3_def)
    then have "prel h1 (emit (Unlock UtpMutex) h3)" by (rule prel_bracket)
    then have 3: "prel h (emit (Unlock UtpMutex) h3)"
      by (rule prel_trans [OF conjunct1 [OF enqueue_output_prel [OF 2(2) e]]])
    obtain u where u: "utp h = Some u" using 2(2) by blast
    have "outputv P ans ev h = emit (SendTerm (port (emit (Unlock UtpMutex) h3)) (hcaller h)
        (reply_term (port (emit (Unlock UtpMutex) h3)) ''ok'')) (emit (Unlock UtpMutex) h3)"
      using 2(1,3) u e c by (simp add: outputv_def Let_def h3_def)
    then show ?thesis
      using prel_then_quiet [OF 3 quiet_emit] by simp
  next
    case 3
    have "prel h (emit (Unlock UtpMutex) ((emit (Lock UtpMutex) h)\<lparr>caller := c, sender_waiting := b\<rparr>))" for c b
      by (rule prel_bracket, rule rel_quiet) simp
    then have "prel h (emit (SendTerm q d (wait_term p tm))
        (emit (Unlock UtpMutex) ((emit (Lock UtpMutex) h)\<lparr>caller := c, sender_waiting := b\<rparr>)))" for c b q d p tm
      by (rule prel_then_quiet [OF _ quiet_emit]) simp_all
    moreover have "prel h (emit (SendTerm q d (timeout_term P p)) h)" for q d p
      by (rule prel_quiet [OF quiet_emit]) simp
    moreover obtain u where "utp h = Some u" using 3(2) by blast
    ultimately show ?thesis
      using 3(1,3) by (simp add: outputv_def Let_def)
  qed
qed

lemma input_ready_prel: "answers_ok ans \<Longrightarrow> prel h (input_ready P ans os h)"
proof -
  assume ans: "answers_ok ans"
  obtain len bytes where os: "os = (len, bytes)" by fastforce
  let ?h = "emit (Lock UtpMutex) h"
  obtain r ans2 h2 where t: "take_answer ans (emit (UtpCall (UTP_IsIncomingUTP bytes)) ?h) = (r, ans2, h2)"
    by (metis prod_cases3)
  have "rel ?h h2"
    using rel_trans [OF rel_quiet [OF quiet_emit] conjunct1 [OF take_answer_rel [OF ans t]]] by simp
  then have "prel h (emit (Unlock UtpMutex) h2)" by (rule prel_bracket)
  then show ?thesis using t prel_refl by (simp add: input_ready_def os)
qed

lemma cancel_prel: "prel h (snd (cancel_send h))" "prel h (snd (cancel_recv h))"
  by (simp_all add: cancel_send_def cancel_recv_def prel_bracket rel_quiet quiet_reset_waiting_recv)

lemma peername_prel: "prel h (snd (peername P os rlen h))"
proof -
  have e: "prel x (snd (with_env (encode_errno P rlen n) x))" for x n
    using encode_quiet(2) prel_quiet by (metis prod.collapse)
  have a: "prel x (snd (with_env (SockAddr_encode P rlen n ad) x))" for x n ad
    using encode_quiet(3) prel_quiet by (metis prod.collapse)
  have "prel h (emit (Unlock UtpMutex) (emit (UtpCall u) (emit (Lock UtpMutex) h)))" for u
    by (intro prel_bracket rel_quiet quiet_emit) simp
  then show ?thesis
    using e prel_trans [OF _ a] by (simp add: peername_def Let_def)
qed

lemma note_outcome_prel:
  "(\<And>x. fst r = Ret x \<Longrightarrow> prel h (snd r)) \<Longrightarrow> (\<And>e. fst r = Throw e \<Longrightarrow> prel h (snd r)) \<Longrightarrow>
   (fst r = Undef \<Longrightarrow> prel h (fault OutOfBounds (snd r))) \<Longrightarrow> prel h (note_outcome r)"
  using prel_then_quiet [OF _ quiet_fault]
  by (cases r; cases "fst r") (auto simp: note_outcome_def)

lemma note_outcome_prel_all: "prel h (snd r) \<Longrightarrow> prel h (note_outcome r)"
  using prel_then_quiet [OF _ quiet_fault] by (intro note_outcome_prel) auto

lemma reply_prel: "prel x (snd (with_env (encode_plain P rlen ms) x))"
  using encode_quiet(1) prel_quiet by (metis prod.collapse)

lemma close_prel: "answers_ok ans \<Longrightarrow> prel h (note_outcome (close P ans buf rlen h))"
proof -
  assume ans: "answers_ok ans"
  let ?l = "(emit (Lock UtpMutex) h)\<lparr>status := closing, close_pending := True, eof_seen := False\<rparr>"
  obtain r h1 where p: "parse_caller_ref P buf ?l = (r, h1)" by fastforce
  have q: "quiet (emit (Lock UtpMutex) h) h1"
    by (rule quiet_trans [OF _ parse_caller_ref_quiet [OF p]]) simp
  have bad: "prel h (emit (Unlock UtpMutex) h1)" by (rule prel_bracket [OF rel_quiet [OF q]])
  have stuck: "prel h (fault OutOfBounds h1)" by (rule prel_stuck [OF rel_quiet [OF q]])
  have "prel h (emit (Unlock UtpMutex) (snd (close_utp ans (h1\<lparr>caller := c\<rparr>))))" for c
    by (rule prel_bracket, rule rel_trans [OF rel_quiet close_utp_rel' [OF ans]]) (simp add: q)
  then have ok: "prel h (snd (with_env (encode_plain P rlen ms)
      (emit (Unlock UtpMutex) (snd (close_utp ans (h1\<lparr>caller := c\<rparr>))))))" for ms c
    by (rule prel_trans [OF _ reply_prel])
  show ?thesis
  proof (cases "\<not> close_pending h \<and> (eof_seen h \<or> status h \<noteq> closing \<and> status h \<noteq> destroying)")
    case True
    then show ?thesis
      using p bad stuck ok note_outcome_prel_all
      by (cases r) (simp_all add: close_def Let_def, simp add: note_outcome_def)
  next
    case False
    have "close P ans buf rlen h = with_env (encode_plain P rlen [enc_atom (ei P) ''ok'']) h"
      using False by (auto simp: close_def Let_def)
    then show ?thesis using note_outcome_prel_all [OF reply_prel] by simp
  qed
qed

lemma recv_prel: "answers_ok ans \<Longrightarrow> prel h (snd (recv P ans buf rlen h))"
proof -
  assume ans: "answers_ok ans"
  obtain pr len ref h1 where p: "parse_recv P buf h = (pr, len, ref, h1)" by (metis prod_cases4)
  have q1: "quiet h h1" by (rule parse_recv_quiet [OF p])
  obtain rref h2 where b: "with_env (binary_copy ref) h1 = (rref, h2)" by fastforce
  have q2: "quiet h h2" by (rule quiet_trans [OF q1 binary_copy_quiet [OF b]])
  obtain sent qsize h3 where e: "emit_read_buffer (api P) len (ToCaller (hcaller h1) rref) 1 h2 = (sent, qsize, h3)"
    by (metis prod_cases3)
  have 3: "prel h h3"
    using prel_trans [OF prel_quiet [OF q2] prel_rel [OF rel_emit]] e by (metis snd_conv)
  obtain r4 ans4 h4' where c: "call_utp UTP_RBDrained ans (emit (Lock UtpMutex) h3) = (r4, ans4, h4')"
    by (metis prod_cases3)
  define h4 where "h4 = (if sent \<and> qsize = 0 then emit (Unlock UtpMutex) h4' else h3)"
  have "prel h3 (emit (Unlock UtpMutex) h4')"
    by (rule prel_bracket) (use call_utp_rel [OF ans c] in simp)
  then have 4: "prel h h4" using 3 prel_trans by (auto simp: h4_def)
  obtain ref5 h5 where s5: "(if \<not> sent then
      (let (ref', cref') = binary_swap ref (caller_ref h4)
       in (ref', emit (Unlock UtpMutex) ((emit (Lock UtpMutex) h4)
             \<lparr>caller_ref := cref', caller := hcaller h1, recv_len := len, receiver_waiting := True\<rparr>)))
    else (ref, h4)) = (ref5, h5)" by fastforce
  have "prel h4 (emit (Unlock UtpMutex) ((emit (Lock UtpMutex) h4)
      \<lparr>caller_ref := cref', caller := c, recv_len := n, receiver_waiting := True\<rparr>))" for cref' c n
    by (rule prel_bracket, rule rel_quiet) simp
  then have 5: "prel h h5" using s5 4 prel_trans by (auto simp: binary_swap_def split: if_splits)
  obtain r6 h6 where w: "with_env (encode_plain P rlen [enc_atom (ei P) ''wait'']) h5 = (r6, h6)" by fastforce
  have 6: "prel h (drop_binary ref5 (drop_binary rref h6))"
    using prel_then_quiet [OF 5 quiet_trans [OF encode_quiet(1) [OF w] quiet_trans [OF quiet_drop_binary quiet_drop_binary]]] .
  have "pr = ParseOk \<Longrightarrow> active (sockopts h) = ACTIVE_FALSE \<Longrightarrow>
      recv P ans buf rlen h = (r6, drop_binary ref5 (drop_binary rref h6))"
    using p by (simp only: recv_def if_False simp_thms prod.case parse.case b e c h4_def [symmetric]
        snd_conv Let_def s5 [unfolded Let_def] w)
  then show ?thesis
    using 6 p prel_quiet [OF q1] prel_quiet [OF quiet_trans [OF q1 quiet_drop_binary]] prel_refl
    by (cases pr; cases "active (sockopts h) = ACTIVE_FALSE") (simp_all add: recv_def)
qed

lemma SocketHandler_setopts_prel:
  assumes "SocketHandler_setopts P buf rlen h = (res, h')" "pk_ok (packet (sockopts h)) (packet (sockopts h'))"
  shows "prel h h'"
proof -
  obtain pr b h1 where p: "parse_arg P buf h = (pr, b, h1)" by (metis prod_cases3)
  have q: "quiet h h1" by (rule parse_arg_quiet [OF p])
  have q': "quiet h (drop_binary b h1)" by (rule quiet_trans [OF q quiet_drop_binary])
  show ?thesis
  proof (cases "\<exists>so. pr = ParseOk \<and> decode_and_merge (net P) (bin_bytes b) (sockopts h1) = Ret so")
    case False
    then have "h' = drop_binary b h1 \<or> h' = h1"
      using assms(1) p by (auto simp: SocketHandler_setopts_def split: parse.splits cpp.splits exn.splits)
    then show ?thesis using prel_quiet [OF q] prel_quiet [OF q'] by blast
  next
    case True
    then obtain so where so: "pr = ParseOk" "decode_and_merge (net P) (bin_bytes b) (sockopts h1) = Ret so"
      by blast
    define h2 where "h2 = h1\<lparr>sockopts := so\<rparr>"
    define h3 where "h3 = (if setopts_send (active (sockopts h1)) (active so) (read_count h2)
      then snd (snd (emit_read_buffer (api P) 0 ToConnected 0 (emit (Lock UtpMutex) h2)))
      else emit (Lock UtpMutex) h2)"
    obtain r h4 where w: "with_env (encode_plain P rlen [enc_atom (ei P) ''ok'']) h3 = (r, h4)" by fastforce
    have h': "h' = drop_binary b (emit (Unlock UtpMutex) h4)"
      using assms(1) p so w unfolding h3_def h2_def by (simp add: SocketHandler_setopts_def Let_def)
    have "delivers (emit (Lock UtpMutex) h2) h3"
      unfolding h3_def by (cases "setopts_send (active (sockopts h1)) (active so) (read_count h2)")
        (simp_all only: if_True if_False delivers_emit_read_buffer delivers_refl)
    then have "packet (sockopts h3) = packet so"
      by (auto simp: delivers_def h2_def)
    moreover have q34: "quiet h3 h4" by (rule encode_quiet(1) [OF w])
    ultimately have "packet (sockopts h') = packet so"
      using quiet_drop_binary [of "emit (Unlock UtpMutex) h4" b] by (simp add: h' quiet_def muted_def)
    then have "prel h1 h2"
      unfolding h2_def using assms(2) q by (intro prel_opts) (simp add: quiet_def muted_def)
    moreover have "rel (emit (Lock UtpMutex) h2) h3"
      by (simp add: h3_def rel_emit rel_refl)
    then have "prel h2 (emit (Unlock UtpMutex) h4)"
      by (rule prel_bracket [OF rel_then_quiet [OF _ q34]])
    ultimately show ?thesis
      unfolding h'
      by (rule prel_trans [OF prel_quiet [OF q] prel_trans [OF _ prel_then_quiet [OF _ quiet_drop_binary]]])
  qed
qed

lemma setopts_prel:
  assumes "setopts P buf rlen h = (res, h')" "pk_ok (packet (sockopts h)) (packet (sockopts h'))"
  shows "prel h h'"
proof -
  obtain r h1 where s: "SocketHandler_setopts P buf rlen h = (r, h1)" by fastforce
  have "quiet h1 h'"
    using assms(1) s quiet_set_sockopt [of h1] quiet_trans [OF quiet_set_sockopt quiet_set_sockopt, of h1]
    by (auto simp: setopts_def Let_def split: cpp.splits)
  moreover have "prel h h1"
    by (rule SocketHandler_setopts_prel [OF s]) (use assms(2) calculation in \<open>simp add: quiet_def muted_def\<close>)
  ultimately show ?thesis by (rule prel_then_quiet [rotated])
qed

lemma connect_validate_prel: "prel h (snd (connect_validate P buf rlen h))"
proof -
  obtain pr b h1 where p: "parse_arg P buf h = (pr, b, h1)" by (metis prod_cases3)
  have q: "quiet h h1" by (rule parse_arg_quiet [OF p])
  have q': "quiet h (drop_binary b h1)" by (rule quiet_trans [OF q quiet_drop_binary])
  define x where "x = (case status h1 of
      connect_pending \<Rightarrow> (let (b', r) = binary_swap b (caller_ref h1) in (b', h1\<lparr>caller_ref := r\<rparr>))
    | connect_failed \<Rightarrow> (b, h1\<lparr>status := not_connected\<rparr>)
    | _ \<Rightarrow> (b, h1))"
  have x: "quiet h1 (snd x)" by (auto simp: x_def binary_swap_def split: utp_status.splits)
  have "quiet h (snd (case x of (b', h2) \<Rightarrow>
      (case with_env (copy_to_binary (api P) enc rlen) h2 of (r, h3) \<Rightarrow> (ctl_of r, drop_binary b' h3))))" for enc
    using quiet_trans [OF quiet_trans [OF q x] quiet_trans [OF encode_quiet(5) quiet_drop_binary]]
    by (auto split: prod.splits)
  then have "quiet h (snd (connect_validate P buf rlen h))"
    using p q q' by (auto simp: connect_validate_def x_def Let_def split: parse.splits cpp.splits)
  then show ?thesis by (rule prel_quiet)
qed

text \<open>The control operation, whatever the command.\<close>

lemma sockname_prel: "prel h (snd (sockname P os rlen h))"
  using sockname_quiet [of P os rlen h] prel_quiet by (metis prod.collapse)

lemma getopts_prel: "prel h (snd (getopts P buf rlen h))"
  using getopts_quiet [of P buf rlen h] prel_quiet by (metis prod.collapse)

lemma errno_prel: "prel x (snd (with_env (encode_errno P rlen n) x))"
  using encode_quiet(2) prel_quiet by (metis prod.collapse)

lemma note_outcome_opts: "sockopts (note_outcome r) = sockopts (snd r)"
  by (cases r; cases "fst r") (auto simp: note_outcome_def)

lemma UtpHandler_control_prel:
  assumes "answers_ok (cw_ans c)"
    and "pk_ok (packet (sockopts h)) (packet (sockopts (snd (UtpHandler_control P c cmd buf rlen h))))"
  shows "prel h (note_outcome (UtpHandler_control P c cmd buf rlen h))"
proof -
  have so: "prel h (snd (setopts P buf rlen h))"
    if "pk_ok (packet (sockopts h)) (packet (sockopts (snd (setopts P buf rlen h))))"
    by (rule setopts_prel [OF prod.collapse [symmetric] that])
  note all = close_prel [OF assms(1)] note_outcome_prel_all [OF recv_prel [OF assms(1)]]
    note_outcome_prel_all [OF cancel_prel(1)] note_outcome_prel_all [OF cancel_prel(2)]
    note_outcome_prel_all [OF peername_prel] note_outcome_prel_all [OF sockname_prel]
    note_outcome_prel_all [OF getopts_prel] note_outcome_prel_all [OF errno_prel]
  show ?thesis
    using assms(2) note_outcome_prel_all [OF so]
    by (cases "command_of cmd")
      (simp_all add: UtpHandler_control_def SocketHandler_control_def all, simp_all add: note_outcome_def prel_refl)
qed

lemma utp_control_prel:
  assumes "answers_ok (cw_ans c)"
    and "pk_ok (packet (sockopts h)) (packet (sockopts (note_outcome (utp_control P c cmd buf rlen h))))"
  shows "prel h (note_outcome (utp_control P c cmd buf rlen h))"
  using UtpHandler_control_prel [OF assms(1), of h cmd buf rlen] assms(2)
    note_outcome_prel_all [OF connect_validate_prel]
  by (cases "server h"; cases "command_of cmd = UTP_CONNECT_VALIDATE")
    (simp_all add: utp_control_def Client_control_def note_outcome_opts)

lemma stop_prel:
  assumes "drop_ok" "answers_ok ans"
  shows "prel h (stop P ans h)"
proof -
  define h1 where "h1 = (if utp h \<noteq> None
    then emit (Unlock UtpMutex) (snd (close_utp ans (emit (Lock UtpMutex) h))) else h)"
  have "prel h (emit (Unlock UtpMutex) (snd (close_utp ans (emit (Lock UtpMutex) h))))"
    by (rule prel_bracket [OF close_utp_rel' [OF assms(2)]])
  then have 1: "prel h h1" by (simp add: h1_def prel_refl)
  define h3 where "h3 = (if drv_sizeq (api P) (ioq (touch h1)) \<noteq> 0
    then (touch h1)\<lparr>ioq := drv_deq (api P) (ioq (touch h1)) (drv_sizeq (api P) (ioq (touch h1)))\<rparr>
    else touch h1)"
  have "prel (touch h1) h3" by (simp add: h3_def prel_refl prel_drop [OF assms(1)])
  then have 3: "prel h h3" by (rule prel_trans [OF prel_then_quiet [OF 1 quiet_touch]])
  have "stop P ans h = (if status h3 = destroying then delete_utp_handler h3 else h3\<lparr>status := stopped\<rparr>)"
    by (simp only: stop_def Let_def h1_def [symmetric] h3_def [symmetric])
  then show ?thesis
    using prel_trans [OF 3 prel_delete] prel_then_quiet [OF 3 quiet_status [OF _ quiet_refl]] by simp
qed

lemma conn_step_prel:
  assumes "is_stop op \<Longrightarrow> drop_ok" "pk_ok (packet (sockopts h)) (packet (sockopts (conn_step P op h)))"
    and "is_set_port op \<Longrightarrow> port_ok"
  shows "prel h (conn_step P op h)"
proof (cases op)
  case (Control cmd buf rlen rs names peer)
  then show ?thesis using assms(2) by (auto intro!: utp_control_prel simp: runs_ok)
qed (use assms(1,3) in \<open>auto simp: runs_ok prel_rel run_cbs_rel outputv_prel input_ready_prel prel_quiet
      quiet_exit prel_port stop_prel\<close>)

text \<open>Runs in which every step's packet setting is acceptable.\<close>

lemma conn_run_prel:
  assumes "\<And>k. k < length ops \<Longrightarrow> is_stop (ops ! k) \<Longrightarrow> drop_ok"
    and "\<And>k. k < length ops \<Longrightarrow> pk_ok (packet (sockopts (conn_run P (take k ops) h)))
      (packet (sockopts (conn_run P (take (Suc k) ops) h)))"
    and port_ok
  shows "prel h (conn_run P ops h)"
  using assms
proof (induction ops arbitrary: h)
  case (Cons op ops)
  have "prel h (conn_step P op h)"
    using Cons(2,3) [of 0] Cons(4) by (intro conn_step_prel) simp_all
  moreover have "prel (conn_step P op h) (conn_run P ops (conn_step P op h))"
  proof (rule Cons(1))
    fix k
    assume k: "k < length ops"
    show "is_stop (ops ! k) \<Longrightarrow> drop_ok" using Cons(2) [of "Suc k"] k by simp
    show "pk_ok (packet (sockopts (conn_run P (take k ops) (conn_step P op h))))
      (packet (sockopts (conn_run P (take (Suc k) ops) (conn_step P op h))))"
      using Cons(3) [of "Suc k"] k by simp
  qed (rule Cons(4))
  ultimately show ?case by (simp add: prel_trans)
qed (simp add: prel_refl)

end

section \<open>The relations of the previous theory\<close>

interpretation stream_port: port_relation P "stream_step P" "stream_step P" "\<lambda>_ n. n = 0" False True
  for P :: "'q platform"
proof unfold_locales
  fix a b c :: "'q utp_handler" and x bn so
  show "stream_step P (emit (Lock UtpMutex) a) b \<Longrightarrow> stream_step P a (emit (Unlock UtpMutex) b)"
    by (auto simp: stream_step_def stream_rel_def grows_def stream_inv_def queued_def)
  show "stream_step P (emit (Lock UtpMutex) a) b \<Longrightarrow> stream_step P a (fault x b)"
    by (auto simp: stream_step_def stream_rel_def grows_def)
  show "stream_step P a (a\<lparr>write_q := wq_push_back bn (write_q a)\<rparr>)"
    by (simp add: stream_step_def stream_rel_def grows_def stream_inv_def queued_def)
  show "packet so = 0 \<Longrightarrow> stream_step P a (a\<lparr>sockopts := so\<rparr>)"
    by (simp add: stream_step_def stream_rel_def grows_def stream_inv_def queued_def)
  have m: "stream_step P a b" if "muted a b" for a b :: "'q utp_handler"
    using that by (simp add: stream_step_def muted_stream_rel)
  show "stream_step P a (delete_utp_handler a)" by (rule m [OF muted_delete])
  show "stream_step P a (set_port n a)" for n by (rule m [OF muted_set_port])
qed (auto simp: stream_step_def intro: stream_rel_trans)

text \<open>
  Operations take the mutex of libutp themselves: without a fault they are well nested wherever at
  most a listener's queue is locked.
\<close>

definition outer :: "action list \<Rightarrow> bool" where
  "outer as \<longleftrightarrow> (\<forall>s. set s \<subseteq> {QueueMutex} \<longrightarrow> locks s as = Some s)"

lemma outer_append: "outer xs \<Longrightarrow> outer ys \<Longrightarrow> outer (xs @ ys)"
  by (simp add: outer_def locks_append)

lemma outer_inner: "inner as \<Longrightarrow> outer as"
  by (auto simp: outer_def inner_def)

lemma outer_bracket: "inner as \<Longrightarrow> outer (Lock UtpMutex # as @ [Unlock UtpMutex])"
proof (unfold outer_def, intro allI impI)
  fix s
  assume as: "inner as" and s: "set s \<subseteq> {QueueMutex}"
  then have "MapMutex \<notin> set (UtpMutex # s)" by auto
  then have "locks (UtpMutex # s) as = Some (UtpMutex # s)" using as unfolding inner_def by blast
  moreover have "\<forall>m' \<in> set s. rank m' < rank UtpMutex" using s by auto
  ultimately show "locks s (Lock UtpMutex # as @ [Unlock UtpMutex]) = Some s"
    by (simp add: locks_append)
qed

definition lock_op :: "'q utp_handler \<Rightarrow> 'q utp_handler \<Rightarrow> bool" where
  "lock_op a b \<longleftrightarrow> (\<exists>xs as. faults b = faults a @ xs \<and> hlog b = hlog a @ as \<and> (xs = [] \<longrightarrow> outer as))"

lemma lock_opI:
  "faults b = faults a @ xs \<Longrightarrow> hlog b = hlog a @ as \<Longrightarrow> (xs = [] \<Longrightarrow> outer as) \<Longrightarrow> lock_op a b"
  by (auto simp: lock_op_def)

interpretation lock_port: port_relation P lock_step lock_op "\<lambda>_ _. True" True True
  for P :: "'q platform"
proof unfold_locales
  fix a b c :: "'q utp_handler" and x bn so q
  show "lock_step a b \<Longrightarrow> lock_op a b" by (auto simp: lock_step_def lock_op_def intro: outer_inner)
  show "lock_op a b \<Longrightarrow> lock_op b c \<Longrightarrow> lock_op a c"
    by (auto simp: lock_op_def intro: outer_append)
  show "lock_step (emit (Lock UtpMutex) a) b \<Longrightarrow> lock_op a (emit (Unlock UtpMutex) b)"
    by (auto simp: lock_step_def intro!: lock_opI outer_bracket)
  show "lock_step (emit (Lock UtpMutex) a) b \<Longrightarrow> lock_op a (fault x b)"
    by (auto simp: lock_step_def intro!: lock_opI)
  show "lock_op a (a\<lparr>write_q := wq_push_back bn (write_q a)\<rparr>)"
    "lock_op a (a\<lparr>sockopts := so\<rparr>)" "lock_op a (a\<lparr>ioq := q\<rparr>)"
    by (rule lock_opI [where xs = "[]" and as = "[]"]; simp add: outer_def)+
  have m: "lock_op a b" if "muted a b" for a b :: "'q utp_handler"
    using muted_lock_step [OF that] by (auto simp: lock_step_def lock_op_def intro: outer_inner)
  show "lock_op a (delete_utp_handler a)" by (rule m [OF muted_delete])
  show "lock_op a (set_port n a)" for n by (rule m [OF muted_set_port])
qed

interpretation answer_port: port_relation P async_step async_step "\<lambda>_ _. True" True True
  for P :: "'q platform"
proof unfold_locales
  fix a :: "'q utp_handler" and n
  have m: "async_step a b" if "muted a b" for a b :: "'q utp_handler"
    using that by (auto simp: async_step_def muted_def harmless_def)
  show "async_step a (delete_utp_handler a)" by (rule m [OF muted_delete])
  show "async_step a (set_port n a)" by (rule m [OF muted_set_port])
qed (auto simp: async_step_def)

definition write_kept :: "'q utp_handler \<Rightarrow> 'q utp_handler \<Rightarrow> bool" where
  "write_kept a b \<longleftrightarrow> (write_ok a \<longrightarrow> write_ok b)"

lemma write_ok_emit [simp]:
  "write_ok (emit x a) = write_ok a" "write_ok (fault f a) = write_ok a"
  by (simp_all add: write_ok_def)

interpretation write_port: port_relation P write_step write_kept "\<lambda>_ _. True" True True
  for P :: "'q platform"
proof unfold_locales
  fix a b c :: "'q utp_handler" and x bn so q
  show "write_step a b \<Longrightarrow> write_kept a b" by (simp add: write_step_def write_kept_def)
  show "write_kept a b \<Longrightarrow> write_kept b c \<Longrightarrow> write_kept a c" by (simp add: write_kept_def)
  show "write_step (emit (Lock UtpMutex) a) b \<Longrightarrow> write_kept a (emit (Unlock UtpMutex) b)"
    "write_step (emit (Lock UtpMutex) a) b \<Longrightarrow> write_kept a (fault x b)"
    by (simp_all add: write_kept_def write_step_def)
  show "write_kept a (a\<lparr>sockopts := so\<rparr>)" "write_kept a (a\<lparr>ioq := q\<rparr>)"
    by (simp_all add: write_kept_def write_ok_def)
  show "utp a \<noteq> None \<Longrightarrow> write_kept a (a\<lparr>write_q := wq_push_back bn (write_q a)\<rparr>)"
    by (auto simp: write_kept_def write_ok_def)
  have m: "write_kept a b" if "muted a b" for a b :: "'q utp_handler"
    using that by (auto simp: write_kept_def write_ok_def muted_def)
  show "write_kept a (delete_utp_handler a)" by (rule m [OF muted_delete])
  show "write_kept a (set_port n a)" for n by (rule m [OF muted_set_port])
qed

section \<open>Whole-life properties\<close>

text \<open>C1: in raw mode, along every sequence of operations and callbacks without \<open>stop\<close> and without
  undefined behaviour, the payloads of the messages sent to Erlang followed by the bytes still
  queued are exactly the bytes libutp delivered: nothing is lost, reordered or duplicated,
  whether the data was sent actively, once, or on request.\<close>

theorem received_stream:
  assumes "ioq_laws (api P)"
    and "h = UtpHandler_new srv i q w sock so" "packet so = 0"
    and "queue_bytes (api P) q = []" "payloads (log w) = []" "received (log w) = []"
    and "\<forall>op \<in> set ops. \<not> is_stop op"
    and "\<forall>k \<le> length ops. packet (sockopts (conn_run P (take k ops) h)) = 0"
    and "faults (conn_run P ops h) = []" "length (received (hlog (conn_run P ops h))) < 2 ^ 32"
  shows "payloads (hlog (conn_run P ops h)) @ queue_bytes (api P) (ioq (conn_run P ops h)) =
    received (hlog (conn_run P ops h))"
proof -
  have "stream_step P h (conn_run P ops h)"
  proof (rule stream_port.conn_run_prel)
    fix k
    assume "k < length ops"
    then show "packet (sockopts (conn_run P (take (Suc k) ops) h)) = 0"
      using assms(8) Suc_leI by blast
  qed (use assms(7) nth_mem in blast, simp)
  moreover have "stream_inv (api P) h"
    using assms(2-6) by (simp add: stream_inv_def UtpHandler_new_def queued_def)
  moreover have "faults h = []" using assms(2) by (simp add: UtpHandler_new_def)
  ultimately show ?thesis
    using assms(1,9,10) by (simp add: stream_step_def stream_rel_def stream_inv_def queued_def)
qed

text \<open>C2: the write queue is consistent after any sequence of operations and callbacks, stop and
  faults included: its size is the number of bytes it holds, and as long as bytes wait to be
  written the handler keeps its libutp socket.\<close>

theorem waiting_bytes_have_socket:
  "let h = conn_run P ops (UtpHandler_new srv i q w sock so)
   in wsz (write_q h) = length (wq_bytes (write_q h)) \<and>
      (wq_bytes (write_q h) = [] \<or> utp h \<noteq> None)"
proof -
  let ?h = "UtpHandler_new srv i q w sock so"
  have "write_kept ?h (conn_run P ops ?h)" by (rule write_port.conn_run_prel) simp_all
  moreover have "write_ok ?h"
    using wq_inv_new by (simp add: write_ok_def UtpHandler_new_def, simp add: wq_new_def)
  ultimately have "write_ok (conn_run P ops ?h)" by (simp add: write_kept_def)
  then show ?thesis using wq_inv_size by (auto simp: write_ok_def Let_def)
qed

section \<open>A sample connection\<close>

definition sample_conn :: "byte list list utp_handler" where
  "sample_conn = Server_new 2 [] env0 5 SockOpts_new"

lemma sample_conn_eq: "sample_conn = UtpHandler_new True 2 [] env0 5 SockOpts_new"
  by (simp add: sample_conn_def Server_new_def)

definition sample_ops :: "conn_op list" where
  "sample_ops = [Callbacks [(CbIncoming 1, [])], Callbacks [(CbRead [7, 8], [])], Output [([3], None)] []]"
theorem received_stream_witness:
  "payloads (hlog (conn_run sample_platform sample_ops sample_conn)) = [7, 8] \<and>
   received (hlog (conn_run sample_platform sample_ops sample_conn)) = [7, 8]"
proof -
  have f: "faults (conn_run sample_platform sample_ops sample_conn) = []" by code_simp
  have r: "received (hlog (conn_run sample_platform sample_ops sample_conn)) = [7, 8]" by code_simp
  have q: "queue_bytes (api sample_platform) (ioq (conn_run sample_platform sample_ops sample_conn)) = []"
    by code_simp
  have l: "ioq_laws (api sample_platform)" "queue_bytes (api sample_platform) [] = []"
    by (simp add: sample_platform_def) (simp add: sample_platform_def queue_bytes_def chunk_api_def)
  have p0: "packet (sockopts (conn_run sample_platform [] sample_conn)) = 0"
    and p1: "packet (sockopts (conn_run sample_platform [Callbacks [(CbIncoming 1, [])]] sample_conn)) = 0"
    and p2: "packet (sockopts (conn_run sample_platform
      [Callbacks [(CbIncoming 1, [])], Callbacks [(CbRead [7, 8], [])]] sample_conn)) = 0"
    and p3: "packet (sockopts (conn_run sample_platform sample_ops sample_conn)) = 0"
    by code_simp+
  have pk: "packet (sockopts (conn_run sample_platform (take k sample_ops) sample_conn)) = 0" for k
  proof -
    consider "k = 0" | "k = 1" | "k = 2" | "3 \<le> k" by linarith
    then show ?thesis
      using p0 p1 p2 p3 by cases (simp_all add: sample_ops_def del: conn_run.simps)
  qed
  have ns: "\<forall>op \<in> set sample_ops. \<not> is_stop op" by code_simp
  have so: "packet SockOpts_new = 0" "payloads (log env0) = []" "received (log env0) = []"
    by code_simp+
  show ?thesis
    using received_stream [OF l(1) sample_conn_eq so(1) l(2) so(2,3) ns _ f] pk q r by simp
qed

theorem waiting_bytes_have_socket_witness:
  "utp (conn_run sample_platform sample_ops sample_conn) = Some 1 \<and>
   wsz (write_q (conn_run sample_platform sample_ops sample_conn)) = 1"
proof -
  have "wq_bytes (write_q (conn_run sample_platform sample_ops sample_conn)) = [3]"
    "utp (conn_run sample_platform sample_ops sample_conn) = Some 1"
    by code_simp+
  then show ?thesis
    using waiting_bytes_have_socket [of sample_platform sample_ops True 2 "[]" env0 5 SockOpts_new]
    by (simp add: sample_conn_eq Let_def)
qed
end
