(* ===== verification/References.thy ===== *)
theory References
  imports Connection
begin

text \<open>
  Reference counts over the life of a handler. A handler refers to binaries (a connection through
  \<open>caller_ref\<close> and its write queue, a listener through its acceptors), an operation through its
  local \<open>Binary\<close> objects. The relation \<open>keeps\<close> accounts for all of them against the log. The locale
  \<open>owner\<close> derives what every kind of handler has in common; for connections the relation is then
  one of \<open>callback_steps\<close>, so that no callback of libutp and no operation gives back a reference
  that is still needed.
\<close>

section \<open>The account\<close>

text \<open>
  What the log leaves outstanding beyond the handler's own references \<open>refs h\<close> and the locals \<open>ls\<close>.
\<close>

definition spare ::
  "(('q, 'a) handler_scheme \<Rightarrow> binary list) \<Rightarrow> nat \<Rightarrow> binary list \<Rightarrow> ('q, 'a) handler_scheme \<Rightarrow> int" where
  "spare refs k ls h = refc k (hlog h) - holders k (refs h) - holders k ls"

definition keeps ::
  "(('q, 'a) handler_scheme \<Rightarrow> binary list) \<Rightarrow> binary list \<Rightarrow> ('q, 'a) handler_scheme \<Rightarrow>
   binary list \<Rightarrow> ('q, 'a) handler_scheme \<Rightarrow> bool" where
  "keeps refs ls a ls' b \<longleftrightarrow>
     (deleted a \<longrightarrow> deleted b) \<and> (\<forall>k. spare refs k ls a \<le> spare refs k ls' b)"

lemma keeps_refl [simp]: "keeps r ls a ls a"
  by (simp add: keeps_def)

lemma keeps_trans: "keeps r ls a ls' b \<Longrightarrow> keeps r ls' b ls'' c \<Longrightarrow> keeps r ls a ls'' c"
  unfolding keeps_def by (meson order.trans)

lemma keepsI:
  "(deleted a \<longrightarrow> deleted b) \<Longrightarrow> (\<And>k. spare r k ls a \<le> spare r k ls' b) \<Longrightarrow> keeps r ls a ls' b"
  by (auto simp: keeps_def)

lemma keeps_cong:
  "r b' = r b \<Longrightarrow> deleted b' = deleted b \<Longrightarrow> (\<And>k. refc k (hlog b') = refc k (hlog b)) \<Longrightarrow>
   keeps r ls a ls' b' = keeps r ls a ls' b"
  by (simp add: keeps_def spare_def)

lemma holds_nonneg [simp]: "0 \<le> holds k b"
  by (simp add: holds_def split: option.split)

lemma holders_nonneg [simp]: "0 \<le> holders k bs"
  by (induction bs) simp_all

lemma keeps_lose: "keeps r ls a (b # ls') c \<Longrightarrow> keeps r ls a ls' c"
proof -
  have "spare r k (b # ls') c \<le> spare r k ls' c" for k
    using holds_nonneg [of k b] by (simp add: spare_def)
  then show "keeps r ls a (b # ls') c \<Longrightarrow> ?thesis" unfolding keeps_def by (meson order.trans)
qed

lemma keeps_bytes: "keeps r ls a (Some (b\<lparr>orig_bytes := bs\<rparr>) # ls') c = keeps r ls a (Some b # ls') c"
  by (simp add: keeps_def spare_def holds_def)

lemma keeps_note [simp]:
  "(\<And>x h. r (fault x h) = r h) \<Longrightarrow> keeps r ls a ls' (note_outcome x) = keeps r ls a ls' (snd x)"
  by (rule keeps_cong; cases x; cases "fst x"; simp add: note_outcome_def)

section \<open>Counts in the shared state\<close>

lemma refc_stop_input [simp]: "refc k (log (stop_input fd w)) = refc k (log w)"
  by (simp add: stop_input_def deselect_def Let_def split: option.split)

lemma refc_start_input [simp]: "refc k (log (start_input fd i w)) = refc k (log w)"
  by (simp add: start_input_def select_def Let_def split: option.split)

lemma refc_add_monitor [simp]: "refc k (log (snd (add_monitor D p i w))) = refc k (log w)"
  by (auto simp: add_monitor_def add_mon_def Let_def split: option.splits)

lemma refc_del_monitor [simp]: "refc k (log (del_monitor p w)) = refc k (log w)"
  by (simp add: del_monitor_def del_mon_def Let_def split: option.split)

lemma refc_del_procs: "refc k (log (snd (del_procs mon ps w))) = refc k (log w)"
  by (induction mon ps w rule: del_procs.induct) (auto split: prod.splits)

lemma refc_del_mons_loop: "refc k (log (snd (snd (del_mons_loop h ms pm w)))) = refc k (log w)"
proof (induction h ms pm w rule: del_mons_loop.induct)
  case (2 h mon h' ms pm w)
  then show ?case using refc_del_procs [of k mon pm w] by (auto split: prod.splits)
qed simp

lemma refc_del_monitors [simp]: "refc k (log (del_monitors h w)) = refc k (log w)"
proof (cases "main w")
  case (Some m)
  then show ?thesis
    using refc_del_mons_loop [of k h "mon_map m" "proc_mon_map m" "env_log (Lock MapMutex) w"]
    by (auto simp: del_monitors_def del_mons_def split: prod.splits)
qed (simp add: del_monitors_def)

lemma refc_terms [simp]:
  "refc k [SendTerm p c ts] = 0" "refc k [OutputTerm p ts] = 0" "refc k [UtpCall u] = 0"
  by simp_all

text \<open>A reply is a binary that the runtime takes over.\<close>

definition gains :: "env \<Rightarrow> env \<Rightarrow> bool" where
  "gains w w' \<longleftrightarrow> (\<forall>k. refc k (log w) \<le> refc k (log w'))"

lemma gains_refl [simp]: "gains w w"
  by (simp add: gains_def)

lemma gains_copy_to_binary: "gains w (snd (copy_to_binary D x rlen w))"
  by (auto simp: gains_def copy_to_binary_def alloc_binary_def Let_def split: option.splits)

lemma gains_encode_plain: "gains w (snd (encode_plain P rlen ms w))"
  using gains_copy_to_binary [of w "api P" _ rlen]
  by (auto simp: encode_plain_def encode_reply_def split: prod.splits cpp.splits) (metis snd_conv)

lemma gains_encode_errno: "gains w (snd (encode_errno P rlen e w))"
  using gains_copy_to_binary [of w "api P" _ rlen]
  by (auto simp: encode_errno_def encode_error_def encode_caught_def split: prod.splits cpp.splits)
    (metis snd_conv)+

lemma gains_SockAddr_encode: "gains w (snd (SockAddr_encode P rlen e a w))"
  using gains_encode_errno gains_encode_plain by (auto simp: SockAddr_encode_def split: cpp.splits)

lemma gains_getopts: "gains w (snd (getopts_reply P so bs rlen w))"
  using gains_encode_plain by (auto simp: getopts_reply_def Let_def split: prod.splits cpp.splits)

lemma refc_decode:
  "binary_decode D E d n this w = (r, b, w') \<Longrightarrow>
   refc k (log w') - holds k b = refc k (log w) - holds k this"
  using refc_binary_alloc [of k D n this w]
  by (auto simp: binary_decode_def holds_def split: prod.splits option.splits cpp.splits if_splits)

lemma refc_parse_at:
  "parse_binary_at D E d this w = (r, b, w') \<Longrightarrow>
   refc k (log w') - holds k b = refc k (log w) - holds k this"
  by (auto simp: parse_binary_at_def split: cpp.splits prod.splits if_splits dest: refc_decode [of _ _ _ _ _ _ _ _ _ k])


section \<open>What all handlers have in common\<close>

text \<open>The handler's references are in fields of its own class.\<close>

locale holder =
  fixes refs :: "('q, 'a) handler_scheme \<Rightarrow> binary list"
  assumes refs_env: "refs (h\<lparr>henv := w\<rparr>) = refs h"
    and refs_faults: "refs (h\<lparr>faults := xs\<rparr>) = refs h"
    and refs_port: "refs (h\<lparr>port := p\<rparr>) = refs h"
begin

lemma refs_steps [simp]:
  "refs (emit a h) = refs h" "refs (fault x h) = refs h" "refs (on_env f h) = refs h"
  by (simp_all add: emit_def fault_def on_env_def refs_env refs_faults)

lemma keeps_base [simp]:
  "keeps refs ls a ls' (fault e h) = keeps refs ls a ls' h"
  "keeps refs ls a ls' (h\<lparr>port := p\<rparr>) = keeps refs ls a ls' h"
  by (rule keeps_cong; simp add: refs_port)+

lemma keeps_emit [simp]:
  "(\<And>k. refc k [a] = 0) \<Longrightarrow> keeps refs ls x ls' (emit a h) = keeps refs ls x ls' h"
  "(\<And>k. refc k [a] = 0) \<Longrightarrow> keeps refs ls (emit a h) ls' x = keeps refs ls h ls' x"
  by (simp_all add: keeps_def spare_def)

lemma keeps_on_env [simp]:
  "(\<And>k w. refc k (log (f w)) = refc k (log w)) \<Longrightarrow>
   keeps refs ls x ls' (on_env f h) = keeps refs ls x ls' h"
  by (rule keeps_cong) simp_all

lemma keeps_env:
  assumes "\<And>k. refc k (hlog h) - holders k ls \<le> refc k (log w) - holders k ls'"
  shows "keeps refs ls h ls' (h\<lparr>henv := w\<rparr>)"
proof (rule keepsI)
  fix k
  show "spare refs k ls h \<le> spare refs k ls' (h\<lparr>henv := w\<rparr>)"
    using assms [of k] by (simp add: spare_def refs_env)
qed simp

lemma keeps_gains: "(\<And>w. gains w (snd (f w))) \<Longrightarrow> with_env f h = (r, h') \<Longrightarrow> keeps refs ls h ls h'"
  using snd_with_env [of f h] keeps_env [of h ls "snd (f (henv h))" ls] by (auto simp: gains_def)

lemma keeps_reply: "keeps refs ls h ls (snd (with_env (encode_plain P rlen ms) h))"
  by (rule keeps_gains [OF gains_encode_plain prod.collapse [symmetric]])

lemma keeps_errno: "keeps refs ls h ls (snd (with_env (encode_errno P rlen e) h))"
  by (rule keeps_gains [OF gains_encode_errno prod.collapse [symmetric]])

lemma keeps_address: "keeps refs ls h ls (snd (with_env (SockAddr_encode P rlen e a) h))"
  by (rule keeps_gains [OF gains_SockAddr_encode prod.collapse [symmetric]])

lemma keeps_drop: "keeps refs (b # ls) h ls (drop_binary b h)"
  using keeps_env [of h "b # ls" "binary_destroy b (henv h)" ls]
  by (simp add: drop_binary_def on_env_def refc_binary_destroy)

text \<open>A local \<open>Binary\<close> is destroyed at the end of an operation.\<close>

lemma keeps_finish: "keeps refs [] h [b] h1 \<Longrightarrow> keeps refs [] h [] (drop_binary b h1)"
  by (rule keeps_trans [OF _ keeps_drop])

lemma keeps_copy: "with_env (binary_copy b) h = (r, h') \<Longrightarrow> r = b \<and> keeps refs ls h (b # ls) h'"
  using keeps_env [of h ls "snd (binary_copy b (henv h))" "b # ls"] snd_with_env [of "binary_copy b" h]
    fst_with_env [of "binary_copy b" h]
  by (auto simp: refc_binary_copy)

lemma keeps_none: "keeps refs [] h [binary_new] h"
  by (simp add: keeps_def spare_def binary_new_def)

lemma keeps_parse_at:
  "parse_binary_at D E d binary_new (henv h) = (r, b, w) \<Longrightarrow> keeps refs [] h [b] (h\<lparr>henv := w\<rparr>)"
  using refc_parse_at [of D E d binary_new "henv h" r b w] by (intro keeps_env) (simp add: binary_new_def)

lemma keeps_parse_arg: "parse_arg P buf h = (r, b, h') \<Longrightarrow> keeps refs [] h [b] h'"
  by (auto simp: parse_arg_def parse_binary_def split: prod.splits dest: keeps_parse_at)

lemma keeps_not_connected: "keeps refs [] h [] (on_env (send_not_connected P p) h)"
  by (simp add: send_not_connected_def)

lemma keeps_exit: "keeps refs [] h [] (Handler_process_exited proc h)"
  by (simp add: Handler_process_exited_def Let_def)

end

text \<open>The same for handlers with a socket.\<close>

locale owner = holder refs for refs :: "('q, 'a) sock \<Rightarrow> binary list" +
  assumes refs_ioq: "refs (h\<lparr>ioq := q\<rparr>) = refs h"
    and refs_opts: "refs (h\<lparr>sockopts := so\<rparr>) = refs h"
    and refs_read: "refs (h\<lparr>read_count := rc\<rparr>) = refs h"
    and refs_pending: "refs (h\<lparr>close_pending := b\<rparr>) = refs h"
    and refs_selected: "refs (h\<lparr>selected := b\<rparr>) = refs h"
begin

lemmas refs_fields = refs_env refs_faults refs_ioq refs_port refs_opts refs_read refs_pending refs_selected

lemma keeps_fields [simp]:
  "keeps refs ls a ls' (h\<lparr>sockopts := so\<rparr>) = keeps refs ls a ls' h"
  "keeps refs ls a ls' (h\<lparr>ioq := q\<rparr>) = keeps refs ls a ls' h"
  "keeps refs ls a ls' (h\<lparr>read_count := rc\<rparr>) = keeps refs ls a ls' h"
  "keeps refs ls a ls' (h\<lparr>close_pending := b\<rparr>) = keeps refs ls a ls' h"
  "keeps refs ls a ls' (h\<lparr>selected := b\<rparr>) = keeps refs ls a ls' h"
  by (rule keeps_cong; simp add: refs_fields)+

lemma keeps_closed_message: "keeps refs ls x ls' (snd (emit_closed_message D h)) = keeps refs ls x ls' h"
  by (simp add: emit_closed_message_def Let_def)

lemma keeps_read_buffer: "keeps refs ls h ls (snd (snd (emit_read_buffer D len rcvr q h)))"
proof -
  obtain i rc ac cp as xs where d: "neutral as" "snd (snd (emit_read_buffer D len rcvr q h)) =
      h\<lparr>ioq := i, read_count := rc, sockopts := (sockopts h)\<lparr>active := ac\<rparr>, close_pending := cp,
        henv := (henv h)\<lparr>log := hlog h @ as\<rparr>, faults := faults h @ xs\<rparr>"
    using delivers_emit_read_buffer [of h D len rcvr q] unfolding delivers_def by blast
  then have "keeps refs ls h ls (snd (snd (emit_read_buffer D len rcvr q h))) = keeps refs ls h ls h"
    by (intro keeps_cong) (simp_all add: d(2) refs_fields neutral_def)
  then show ?thesis by simp
qed

lemma keeps_sockname: "keeps refs [] h [] (snd (sockname P os rlen h))"
  by (auto simp: sockname_def keeps_errno keeps_address split: prod.splits)

lemma keeps_getopts: "keeps refs [] h [] (snd (getopts P buf rlen h))"
proof -
  obtain pr b h1 where p: "parse_arg P buf h = (pr, b, h1)" by (metis prod_cases3)
  obtain r h2 where g: "with_env (getopts_reply P (sockopts h1) (bin_bytes b) rlen) h1 = (r, h2)" by fastforce
  note 1 = keeps_parse_arg [OF p]
  note 2 = keeps_trans [OF 1 keeps_gains [OF gains_getopts g]]
  show ?thesis
    using p g keeps_lose [OF 1] keeps_finish [OF 1] keeps_finish [OF 2] by (cases pr) (simp_all add: getopts_def)
qed

lemma keeps_setopts: "keeps refs [] h [] (snd (SocketHandler_setopts P buf rlen h))"
proof -
  obtain pr b h1 where p: "parse_arg P buf h = (pr, b, h1)" by (metis prod_cases3)
  note 1 = keeps_parse_arg [OF p]
  have fin: "keeps refs [] h [] (drop_binary b (emit (Unlock UtpMutex) h4))"
    if "keeps refs [] h [b] h3" "with_env (encode_plain P rlen ms) h3 = (r, h4)" for h3 ms r h4
    using keeps_trans [OF that(1) keeps_gains [OF gains_encode_plain that(2)]] by (intro keeps_finish) simp
  have 2: "keeps refs [] h [b] (emit (Lock UtpMutex) (h1\<lparr>sockopts := so\<rparr>))" for so
    using 1 by simp
  note 3 = keeps_trans [OF 2 keeps_read_buffer]
  show ?thesis
    using p keeps_lose [OF 1] keeps_finish [OF 1] fin [OF 2] fin [OF 3]
    by (auto simp: SocketHandler_setopts_def Let_def split: parse.splits cpp.splits exn.splits prod.splits)
qed

lemma keeps_set_port: "keeps refs [] h [] (set_port p h)"
  by (simp add: set_port_def Handler_set_port_def Let_def)

end

section \<open>Connections\<close>

text \<open>Once the handler is deleted its destructor has given the references back.\<close>

definition conn_refs :: "'q utp_handler \<Rightarrow> binary list" where
  "conn_refs h = (if deleted h then [] else caller_ref h # map Some (wqueue (write_q h)))"

interpretation conn: owner conn_refs
  by unfold_locales (simp_all add: conn_refs_def)

lemma conn_refs_fields [simp]:
  "conn_refs (h\<lparr>status := s\<rparr>) = conn_refs h" "conn_refs (h\<lparr>utp := u\<rparr>) = conn_refs h"
  "conn_refs (h\<lparr>writable := b\<rparr>) = conn_refs h" "conn_refs (h\<lparr>eof_seen := b\<rparr>) = conn_refs h"
  "conn_refs (h\<lparr>caller := c\<rparr>) = conn_refs h" "conn_refs (h\<lparr>sender_waiting := b\<rparr>) = conn_refs h"
  "conn_refs (h\<lparr>receiver_waiting := b\<rparr>) = conn_refs h" "conn_refs (h\<lparr>recv_len := n\<rparr>) = conn_refs h"
  by (simp_all add: conn_refs_def)

lemma conn_keeps_fields [simp]:
  "keeps conn_refs ls a ls' (h\<lparr>status := s\<rparr>) = keeps conn_refs ls a ls' h"
  "keeps conn_refs ls a ls' (h\<lparr>utp := u\<rparr>) = keeps conn_refs ls a ls' h"
  "keeps conn_refs ls a ls' (h\<lparr>writable := b\<rparr>) = keeps conn_refs ls a ls' h"
  "keeps conn_refs ls a ls' (h\<lparr>eof_seen := b\<rparr>) = keeps conn_refs ls a ls' h"
  "keeps conn_refs ls a ls' (h\<lparr>caller := c\<rparr>) = keeps conn_refs ls a ls' h"
  "keeps conn_refs ls a ls' (h\<lparr>sender_waiting := b\<rparr>) = keeps conn_refs ls a ls' h"
  "keeps conn_refs ls a ls' (h\<lparr>receiver_waiting := b\<rparr>) = keeps conn_refs ls a ls' h"
  "keeps conn_refs ls a ls' (h\<lparr>recv_len := n\<rparr>) = keeps conn_refs ls a ls' h"
  by (rule keeps_cong; simp)+

lemma keeps_same: "same_refs a b \<Longrightarrow> keeps conn_refs ls a ls b"
  by (simp add: keeps_def spare_def conn_refs_def same_refs_def)

lemma keeps_still: "still a b \<Longrightarrow> keeps conn_refs ls a ls b"
  by (simp add: still_def keeps_same)

lemma keeps_touch [simp]: "keeps conn_refs ls x ls' (touch h) = keeps conn_refs ls x ls' h"
  by (simp add: touch_def)

lemma holders_queue: "holders k (map Some bs) = int (count_list (map bin_id bs) k)"
  by (induction bs) (simp_all add: holds_def)

text \<open>The destructor gives back the handler's references, no more and no less.\<close>

lemma deleted_delete [simp]: "deleted (delete_utp_handler h)"
  by (simp add: delete_utp_handler_def UtpHandler_destroy_def SocketHandler_destroy_def
      Handler_destroy_def delete_this_def)

lemma conn_refs_deleted: "conn_refs (delete_utp_handler h) = []"
  by (simp add: conn_refs_def)

lemma delete_gives_back:
  "refc k (hlog (delete_utp_handler h)) = refc k (hlog h) - holders k (conn_refs h)"
  by (simp add: delete_utp_handler_def UtpHandler_destroy_def SocketHandler_destroy_def Handler_destroy_def
      delete_this_def wq_destroy_def refc_free_list refc_binary_destroy conn_refs_def holders_queue)

lemma keeps_delete: "keeps conn_refs ls h ls (delete_utp_handler h)"
  by (simp add: keeps_def spare_def delete_gives_back conn_refs_deleted)

section \<open>Callbacks\<close>

lemma keeps_on_destroying: "keeps conn_refs ls h ls (on_destroying P h)"
proof -
  define h1 where "h1 = (if selected h then (on_env (stop_input (udp_sock h)) h)\<lparr>selected := False\<rparr> else h)"
  have 1: "keeps conn_refs ls h ls h1" by (simp add: h1_def)
  define h2 where "h2 =
      (if close_pending h1 \<and> binary_bool (caller_ref h1) then
         (let t = ref_ok_term (caller_ref h1);
              h3 = (if caller h1 \<noteq> NilTerm then emit (SendTerm (port h1) (caller h1) t) h1
                    else emit (OutputTerm (port h1) t) h1)
          in h3\<lparr>caller := NilTerm, close_pending := False\<rparr>)
       else if active (sockopts h1) \<noteq> ACTIVE_FALSE then snd (emit_closed_message (api P) h1)
       else h1)"
  have 2: "keeps conn_refs ls h ls h2" using 1 by (simp add: h2_def Let_def conn.keeps_closed_message)
  have "on_destroying P h =
      (if status h1 = closing then h2\<lparr>writable := False, status := destroying, eof_seen := False\<rparr>
       else if status h1 = stopped then delete_utp_handler h1 else h1)"
    by (simp only: on_destroying_def Let_def h1_def [symmetric] h2_def)
  then show ?thesis using 1 2 keeps_trans [OF 1 keeps_delete] by simp
qed

lemma keeps_clear: "keeps conn_refs ls h ls (h\<lparr>write_q := wq_clear (write_q h)\<rparr>)"
  by (simp add: keeps_def spare_def conn_refs_def wq_clear_def)

lemma pop_loop_refs:
  "wq_pop_loop n q sz off to w = Ret (bs, wq, w') \<Longrightarrow>
   refc k (log w') - holders k (map Some (wqueue wq)) = refc k (log w) - holders k (map Some q)"
proof (induction n q sz off to w rule: wq_pop_loop.induct)
  case (3 n bin q sz off to w)
  show ?case
  proof (cases "Suc n < size_sub (orig_size bin) off")
    case True
    then show ?thesis using 3(2) by (auto simp: wq_pop_loop.simps Let_def)
  next
    case False
    then show ?thesis
      using 3(1) [OF refl refl False refl] 3(2) by (auto simp: wq_pop_loop.simps Let_def holds_def)
  qed
qed (auto simp: wq_pop_loop.simps)

lemma keeps_do_write: "\<not> deleted h \<Longrightarrow> keeps conn_refs ls h ls (snd (do_write n h))"
proof (cases "wq_pop_bytes n (write_q h) (henv h)")
  case (Ret x)
  assume del: "\<not> deleted h"
  obtain bs wq w where x: "x = (bs, wq, w)" by (metis prod_cases3)
  have "spare conn_refs k ls (h\<lparr>write_q := wq, henv := w\<rparr>) = spare conn_refs k ls h" for k
    using pop_loop_refs [of n "wqueue (write_q h)" "wsz (write_q h)" "woffset (write_q h)" "[]" "henv h" bs wq w k]
      Ret del
    by (simp add: spare_def conn_refs_def wq_pop_bytes_def x)
  then show ?thesis using Ret by (simp add: do_write_def keeps_def x)
qed (simp_all add: do_write_def)

lemma keeps_reset_recv: "\<not> deleted h \<Longrightarrow> keeps conn_refs ls h ls (reset_waiting_recv h)"
  by (simp add: reset_waiting_recv_def with_env_def keeps_def spare_def conn_refs_def refc_binary_reset split_beta)

lemma read_buffer_deleted: "deleted (snd (snd (emit_read_buffer D len rcvr q h))) = deleted h"
  using delivers_emit_read_buffer [of h D len rcvr q] by (auto simp: delivers_def)

lemma copy_deleted: "with_env (binary_copy b) h = (r, h') \<Longrightarrow> deleted h' = deleted h"
  by (auto simp: with_env_def split: prod.splits)

lemma keeps_waiting: "\<not> deleted h \<Longrightarrow> keeps conn_refs ls h ls (snd (deliver_waiting P h))"
proof -
  assume del: "\<not> deleted h"
  obtain ref h1 where c: "with_env (binary_copy (caller_ref h)) h = (ref, h1)" by fastforce
  obtain sent q h2 where e: "emit_read_buffer (api P) (recv_len h1) (ToCaller (caller h1) ref) 1 h1 = (sent, q, h2)"
    by (metis prod_cases3)
  let ?h3 = "if sent then reset_waiting_recv h2 else h2"
  have "\<not> deleted h2" using del copy_deleted [OF c] read_buffer_deleted e by (metis snd_conv)
  then have "keeps conn_refs (ref # ls) h2 (ref # ls) ?h3" by (simp add: keeps_reset_recv)
  moreover have "keeps conn_refs ls h (ref # ls) h1" using conn.keeps_copy [OF c] by blast
  moreover have "keeps conn_refs (ref # ls) h1 (ref # ls) h2" using conn.keeps_read_buffer e by (metis snd_conv)
  moreover have "keeps conn_refs (ref # ls) ?h3 ls (drop_binary ref ?h3)" by (rule conn.keeps_drop)
  ultimately have "keeps conn_refs ls h ls (drop_binary ref ?h3)" by (meson keeps_trans)
  then show ?thesis by (simp add: deliver_waiting_def c e del: One_nat_def)
qed

text \<open>A relation on the handler alone: the locals of an operation are not touched by callbacks.\<close>

definition keeps_all :: "'q utp_handler \<Rightarrow> 'q utp_handler \<Rightarrow> bool" where
  "keeps_all a b \<longleftrightarrow> (\<forall>ls. keeps conn_refs ls a ls b)"

interpretation refs: callback_steps P keeps_all True for P :: "'q platform"
proof unfold_locales
  fix a b c :: "'q utp_handler" and bytes n u and len rcvr q
  show "keeps_all a b \<Longrightarrow> keeps_all b c \<Longrightarrow> keeps_all a c"
    unfolding keeps_all_def using keeps_trans by blast
  show "bytes \<noteq> [] \<Longrightarrow> keeps_all a ((emit (DataIn bytes) a)\<lparr>ioq := drv_enq (api P) (ioq a) bytes,
      read_count := read_count a @ [length bytes]\<rparr>)"
    by (simp add: keeps_all_def)
qed (simp_all add: keeps_all_def keeps_on_destroying keeps_clear keeps_do_write conn.keeps_read_buffer
    keeps_waiting keeps_still)

lemma keeps_runs: "refs.answers_ok (map (run_utp P) rs)"
  by (simp add: refs.answers_ok_def refs.run_rel_aux(1))

lemma keeps_call:
  "refs.answers_ok ans \<Longrightarrow> call_utp c ans h = (r, ans', h') \<Longrightarrow> keeps conn_refs ls h ls h'"
  using refs.call_utp_rel unfolding keeps_all_def by blast

lemma keeps_close_utp: "refs.answers_ok ans \<Longrightarrow> keeps conn_refs ls h ls (snd (close_utp ans h))"
  using refs.close_utp_rel' unfolding keeps_all_def by blast

section \<open>Operations\<close>

text \<open>A new reference goes into the queue.\<close>

lemma keeps_push: "keeps conn_refs [] h [Some b] h1 \<Longrightarrow> keeps conn_refs [] h [] (h1\<lparr>write_q := wq_push_back b (write_q h1)\<rparr>)"
proof -
  have "spare conn_refs k [Some b] h1 \<le> spare conn_refs k [] (h1\<lparr>write_q := wq_push_back b (write_q h1)\<rparr>)" for k
    by (simp add: spare_def conn_refs_def wq_push_back_def)
  then have "keeps conn_refs [Some b] h1 [] (h1\<lparr>write_q := wq_push_back b (write_q h1)\<rparr>)"
    by (simp add: keeps_def)
  then show "keeps conn_refs [] h [Some b] h1 \<Longrightarrow> ?thesis" by (rule keeps_trans [rotated])
qed

lemma keeps_alloc:
  "with_env (alloc_binary D n) h = (r, h1) \<Longrightarrow> keeps conn_refs [] h [r] h1"
  by (cases "alloc_ok D (n_allocs (henv h)) n")
    (auto simp: with_env_def alloc_binary_def Let_def holds_def intro!: conn.keeps_env)

lemma keeps_push_new: "keeps conn_refs [] h [] (push_new P bs h)"
proof -
  obtain r h1 where a: "with_env (alloc_binary (api P) (length bs)) h = (r, h1)" by fastforce
  note k = keeps_alloc [OF a]
  show ?thesis
    using a keeps_lose [OF k] keeps_push [of h "x\<lparr>orig_bytes := bs\<rparr>" h1 for x] k
    by (auto simp: push_new_def keeps_bytes split: option.splits)
qed

lemma keeps_inc: "keeps conn_refs [] h [Some b] (on_env (inc_refc b) h)"
  using conn.keeps_env [of h "[]" "inc_refc b (henv h)" "[Some b]"] by (simp add: on_env_def holds_def)

lemma keeps_push_iov: "keeps conn_refs [] h [] (push_iov P e h)"
  using keeps_push [OF keeps_inc] keeps_push_new
  by (auto simp: push_iov_def Let_def split: prod.splits option.splits)

lemma keeps_fold_push: "keeps conn_refs [] h [] (fold (push_iov P) ev h)"
proof (induction ev arbitrary: h)
  case (Cons e ev)
  show ?case using keeps_trans [OF keeps_push_iov Cons.IH] by simp
qed simp

lemma keeps_enqueue: "enqueue_output P ev h = (n, h') \<Longrightarrow> keeps conn_refs [] h [] h'"
  using keeps_trans [OF keeps_push_new keeps_fold_push] keeps_fold_push
  by (auto simp: enqueue_output_def Let_def split: if_splits)

lemma keeps_outputv: "refs.answers_ok ans \<Longrightarrow> keeps conn_refs [] h [] (outputv P ans ev h)"
proof -
  assume ans: "refs.answers_ok ans"
  obtain n h1 where e: "enqueue_output P ev h = (n, h1)" by fastforce
  obtain r ans2 h2 where c: "call_utp (\<lambda>u. UTP_Write u n) ans (emit (Lock UtpMutex) h1) = (r, ans2, h2)"
    by (metis prod_cases3)
  have "keeps conn_refs [] h [] h2"
    using keeps_trans [OF keeps_enqueue [OF e]] keeps_call [OF ans c, of "[]"] by simp
  then show ?thesis using e c by (simp add: outputv_def Let_def conn.keeps_not_connected)
qed

lemma keeps_input: "refs.answers_ok ans \<Longrightarrow> keeps conn_refs [] h [] (input_ready P ans os h)"
proof -
  assume ans: "refs.answers_ok ans"
  obtain len bytes where os: "os = (len, bytes)" by fastforce
  let ?h = "emit (UtpCall (UTP_IsIncomingUTP bytes)) (emit (Lock UtpMutex) h)"
  obtain r ans2 h2 where t: "take_answer ans ?h = (r, ans2, h2)" by (metis prod_cases3)
  have "keeps_all ?h h2" using refs.take_answer_rel [OF ans t] by blast
  then have "keeps conn_refs [] h [] h2" by (simp add: keeps_all_def)
  then show ?thesis using t by (simp add: input_ready_def os)
qed

lemma keeps_peername: "keeps conn_refs [] h [] (snd (peername P os rlen h))"
proof -
  let ?h = "emit (Unlock UtpMutex) (emit (UtpCall (UTP_GetPeerName (the (utp h)))) (emit (Lock UtpMutex) h))"
  have "keeps conn_refs [] h [] ?h" by simp
  then show ?thesis
    using conn.keeps_errno [of "[]" h P rlen ENOTCONN] keeps_trans [OF _ conn.keeps_address, of "[]" h "[]" ?h P rlen "fst os" "snd os"]
    by (simp add: peername_def Let_def)
qed

lemma keeps_cancel_send: "keeps conn_refs [] h [] (snd (cancel_send h))"
  by (simp add: cancel_send_def)

lemma keeps_cancel_recv: "\<not> deleted h \<Longrightarrow> keeps conn_refs [] h [] (snd (cancel_recv h))"
proof -
  assume "\<not> deleted h"
  then have "keeps conn_refs [] h [] (reset_waiting_recv (emit (Lock UtpMutex) h))"
    using keeps_reset_recv [of "emit (Lock UtpMutex) h" "[]"] by simp
  then show ?thesis by (simp add: cancel_recv_def)
qed

lemma keeps_utp_setopts: "keeps conn_refs [] h [] (snd (setopts P buf rlen h))"
proof -
  obtain r h1 where s: "SocketHandler_setopts P buf rlen h = (r, h1)" by fastforce
  have 1: "keeps conn_refs [] h [] h1" using conn.keeps_setopts [of h P buf rlen] s by simp
  note 2 = keeps_trans [OF 1 keeps_still [OF still_set_sockopt]]
  note 3 = keeps_trans [OF 2 keeps_still [OF still_set_sockopt]]
  show ?thesis using s 1 2 3 by (auto simp: setopts_def Let_def split: cpp.splits)
qed

lemma keeps_swap:
  "\<not> deleted h1 \<Longrightarrow> keeps conn_refs ls h (xs @ [b]) h1 \<Longrightarrow> keeps conn_refs ls h (xs @ [caller_ref h1]) (h1\<lparr>caller_ref := b\<rparr>)"
proof -
  assume "\<not> deleted h1"
  then have "spare conn_refs k (xs @ [caller_ref h1]) (h1\<lparr>caller_ref := b\<rparr>) = spare conn_refs k (xs @ [b]) h1" for k
    by (simp add: spare_def conn_refs_def)
  then show "keeps conn_refs ls h (xs @ [b]) h1 \<Longrightarrow> ?thesis" by (simp add: keeps_def)
qed

lemma quiet_deleted: "quiet h h' \<Longrightarrow> deleted h' = deleted h"
  by (simp add: quiet_def core_def)

lemma keeps_parse_recv: "parse_recv P buf h = (r, n, b, h') \<Longrightarrow> keeps conn_refs [] h [b] h'"
  by (auto simp: parse_recv_def conn.keeps_none split: cpp.splits prod.splits if_splits
      dest!: conn.keeps_parse_at)

lemma keeps_parse_caller_ref:
  assumes "\<not> deleted h" "parse_caller_ref P buf h = (r, h')"
  shows "keeps conn_refs ls h ls h'"
proof -
  obtain b w where b: "parse_binary (api P) (ei P) buf (caller_ref h) (henv h) = (r, b, w)"
    "h' = h\<lparr>caller_ref := b, henv := w\<rparr>"
    using assms(2) by (auto simp: parse_caller_ref_def split: prod.splits)
  have "refc k (log w) - holds k b = refc k (hlog h) - holds k (caller_ref h)" for k
    using b(1) refc_parse_at unfolding parse_binary_def by blast
  then have "spare conn_refs k ls h' = spare conn_refs k ls h" for k
    using assms(1) by (simp add: b(2) spare_def conn_refs_def algebra_simps)
  then show ?thesis by (simp add: keeps_def b(2))
qed

lemma keeps_connect_validate: "\<not> deleted h \<Longrightarrow> keeps conn_refs [] h [] (snd (connect_validate P buf rlen h))"
proof -
  assume del: "\<not> deleted h"
  obtain pr b h1 where p: "parse_arg P buf h = (pr, b, h1)" by (metis prod_cases3)
  note 1 = conn.keeps_parse_arg [OF p]
  have "\<not> deleted h1" using quiet_deleted [OF parse_arg_quiet [OF p]] del by simp
  define x where "x = (case status h1 of
      connect_pending \<Rightarrow> (let (b', r) = binary_swap b (caller_ref h1) in (b', h1\<lparr>caller_ref := r\<rparr>))
    | connect_failed \<Rightarrow> (b, h1\<lparr>status := not_connected\<rparr>)
    | _ \<Rightarrow> (b, h1))"
  have x: "keeps conn_refs [] h [fst x] (snd x)"
    using 1 keeps_swap [OF \<open>\<not> deleted h1\<close>, of "[]" h "[]" b]
    by (auto simp: x_def binary_swap_def split: utp_status.splits)
  have "keeps conn_refs [] h [] (snd (case x of (b', h2) \<Rightarrow>
      (case with_env (copy_to_binary (api P) enc rlen) h2 of (r, h3) \<Rightarrow> (ctl_of r, drop_binary b' h3))))" for enc
    using conn.keeps_finish [OF keeps_trans [OF x conn.keeps_gains [OF gains_copy_to_binary]]] by (auto split: prod.splits)
  then show ?thesis
    using p keeps_lose [OF 1] conn.keeps_finish [OF 1]
    by (auto simp: connect_validate_def x_def Let_def split: parse.splits cpp.splits)
qed

lemma keeps_close: "refs.answers_ok ans \<Longrightarrow> \<not> deleted h \<Longrightarrow> keeps conn_refs [] h [] (snd (close P ans buf rlen h))"
proof -
  assume ans: "refs.answers_ok ans" and del: "\<not> deleted h"
  let ?l = "(emit (Lock UtpMutex) h)\<lparr>status := closing, close_pending := True, eof_seen := False\<rparr>"
  obtain pr h1 where p: "parse_caller_ref P buf ?l = (pr, h1)" by fastforce
  have "keeps conn_refs [] h [] ?l" by simp
  then have 1: "keeps conn_refs [] h [] h1"
    using keeps_trans [OF _ keeps_parse_caller_ref [OF _ p]] del by simp
  have "keeps conn_refs [] h [] (h1\<lparr>caller := c\<rparr>)" for c using 1 by simp
  note 2 = keeps_trans [OF this keeps_close_utp [OF ans]]
  have "keeps conn_refs [] h [] (emit (Unlock UtpMutex) (snd (close_utp ans (h1\<lparr>caller := c\<rparr>))))" for c
    using 2 by simp
  note 3 = keeps_trans [OF this conn.keeps_reply [of _ _ P]]
  show ?thesis using p 1 3 by (cases pr) (simp_all add: close_def Let_def conn.keeps_reply)
qed

lemma keeps_recv: "refs.answers_ok ans \<Longrightarrow> \<not> deleted h \<Longrightarrow> keeps conn_refs [] h [] (snd (recv P ans buf rlen h))"
proof -
  assume ans: "refs.answers_ok ans" and del: "\<not> deleted h"
  obtain pr len ref h1 where p: "parse_recv P buf h = (pr, len, ref, h1)" by (metis prod_cases4)
  note 1 = keeps_parse_recv [OF p]
  obtain rref h2 where b: "with_env (binary_copy ref) h1 = (rref, h2)" by fastforce
  have 2: "keeps conn_refs [] h [rref, ref] h2" using keeps_trans [OF 1] conn.keeps_copy [OF b] by blast
  obtain sent qsize h3 where e: "emit_read_buffer (api P) len (ToCaller (hcaller h1) rref) 1 h2 = (sent, qsize, h3)"
    by (metis prod_cases3)
  have 3: "keeps conn_refs [] h [rref, ref] h3"
    using keeps_trans [OF 2 conn.keeps_read_buffer] e by (metis snd_conv)
  have del3: "\<not> deleted h3"
    using del quiet_deleted [OF parse_recv_quiet [OF p]] copy_deleted [OF b] read_buffer_deleted e by (metis snd_conv)
  obtain r4 ans4 h4' where c: "call_utp UTP_RBDrained ans (emit (Lock UtpMutex) h3) = (r4, ans4, h4')"
    by (metis prod_cases3)
  define h4 where "h4 = (if sent \<and> qsize = 0 then emit (Unlock UtpMutex) h4' else h3)"
  have 4: "keeps conn_refs [] h [rref, ref] h4"
    using 3 keeps_trans [OF 3, of "[rref, ref]" h4'] keeps_call [OF ans c, of "[rref, ref]"]
    by (simp add: h4_def)
  obtain ref5 h5 where s5: "(if \<not> sent then
      (let (ref', cref') = binary_swap ref (caller_ref h4)
       in (ref', emit (Unlock UtpMutex) ((emit (Lock UtpMutex) h4)
             \<lparr>caller_ref := cref', caller := hcaller h1, recv_len := len, receiver_waiting := True\<rparr>)))
    else (ref, h4)) = (ref5, h5)" by fastforce
  have "keeps conn_refs [] h [rref, ref] (emit (Lock UtpMutex) h4)" using 4 by simp
  then have 5: "keeps conn_refs [] h [rref, ref5] h5"
    using s5 4 del3 keeps_swap [of "emit (Lock UtpMutex) h4" "[]" h "[rref]" ref]
    by (auto simp: binary_swap_def h4_def split: if_splits)
  obtain r6 h6 where w: "with_env (encode_plain P rlen [enc_atom (ei P) ''wait'']) h5 = (r6, h6)" by fastforce
  have 6: "keeps conn_refs [] h [] (drop_binary ref5 (drop_binary rref h6))"
    by (rule conn.keeps_finish [OF keeps_trans [OF keeps_trans [OF 5 conn.keeps_gains [OF gains_encode_plain w]] conn.keeps_drop]])
  have "pr = ParseOk \<Longrightarrow> active (sockopts h) = ACTIVE_FALSE \<Longrightarrow>
      recv P ans buf rlen h = (r6, drop_binary ref5 (drop_binary rref h6))"
    using p by (simp only: recv_def if_False simp_thms prod.case parse.case b e c h4_def [symmetric]
        snd_conv Let_def s5 [unfolded Let_def] w)
  then show ?thesis
    using 6 p keeps_lose [OF 1] conn.keeps_finish [OF 1]
    by (cases pr; cases "active (sockopts h) = ACTIVE_FALSE") (simp_all add: recv_def)
qed

lemma keeps_control:
  assumes "refs.answers_ok (cw_ans c)" "\<not> deleted h"
  shows "keeps conn_refs [] h [] (snd (utp_control P c cmd buf rlen h))"
  using assms
  by (cases "command_of cmd")
    (simp_all add: utp_control_def Client_control_def UtpHandler_control_def SocketHandler_control_def
      keeps_recv keeps_close keeps_cancel_send keeps_cancel_recv keeps_utp_setopts keeps_connect_validate
      conn.keeps_getopts conn.keeps_sockname keeps_peername conn.keeps_errno)

lemma keeps_stop: "refs.answers_ok ans \<Longrightarrow> keeps conn_refs [] h [] (stop P ans h)"
proof -
  assume ans: "refs.answers_ok ans"
  define h1 where "h1 = (if utp h \<noteq> None
    then emit (Unlock UtpMutex) (snd (close_utp ans (emit (Lock UtpMutex) h))) else h)"
  have "keeps conn_refs [] h [] h1"
    using keeps_close_utp [OF ans, of "[]" "emit (Lock UtpMutex) h"] by (simp add: h1_def)
  then have 1: "keeps conn_refs [] h [] (touch h1)" by simp
  define h3 where "h3 = (if drv_sizeq (api P) (ioq (touch h1)) \<noteq> 0
    then (touch h1)\<lparr>ioq := drv_deq (api P) (ioq (touch h1)) (drv_sizeq (api P) (ioq (touch h1)))\<rparr>
    else touch h1)"
  have 3: "keeps conn_refs [] h [] h3" using 1 by (simp add: h3_def)
  have "stop P ans h = (if status h3 = destroying then delete_utp_handler h3 else h3\<lparr>status := stopped\<rparr>)"
    by (simp only: stop_def Let_def h1_def [symmetric] h3_def [symmetric])
  then show ?thesis using 3 keeps_trans [OF 3 keeps_delete] by simp
qed

lemma keeps_connect_to: "refs.answers_ok ans \<Longrightarrow> keeps conn_refs [] h [] (connect_to ans u h)"
proof -
  assume ans: "refs.answers_ok ans"
  let ?h1 = "(emit (UtpCall UTP_Create) (emit (Lock UtpMutex) (h\<lparr>status := connect_pending\<rparr>)))\<lparr>utp := u\<rparr>"
  obtain r ans' h3 where c: "call_utp UTP_Connect ans (set_utp_callbacks ?h1) = (r, ans', h3)"
    by (metis prod_cases3)
  have "keeps conn_refs [] h [] ?h1" by simp
  then have "keeps conn_refs [] h [] h3"
    by (rule keeps_trans [OF keeps_trans [OF _ keeps_still [OF still_set_utp_callbacks]] keeps_call [OF ans c]])
  then show ?thesis using c by (simp add: connect_to_def Let_def)
qed

text \<open>Every step of a connection, until it is deleted.\<close>

lemma keeps_conn_step: "\<not> deleted h \<Longrightarrow> keeps conn_refs [] h [] (conn_step P op h)"
proof (cases op)
  case (Callbacks cbs)
  then show ?thesis using refs.run_rel_aux(2) [of P P cbs h] by (simp add: keeps_all_def)
qed (simp_all add: keeps_runs keeps_outputv keeps_input keeps_control keeps_stop conn.keeps_set_port conn.keeps_exit)

end
