(* ===== verification/Listener.thy ===== *)
theory Listener
  imports Utp_Handler
begin

text \<open>
  \<open>Listener\<close> (\<open>listener.cc\<close>): a listening socket with the queue of processes that wait in
  \<open>accept\<close>. A datagram from a new peer opens a connected socket for that peer, wraps it in a
  \<open>Server\<close>, and hands it to the first waiting process. Processes leave the queue by being served,
  by cancelling, and by dying.
\<close>

section \<open>The class\<close>

record acceptor =
  acc_caller :: pid
  acc_ref :: binary

record 'q listener = "'q sock_handler" +
  acceptor_queue :: "acceptor list"
  my_addr :: SockAddr

text \<open>The constructor: \<open>os\<close> is the result of \<open>getsockname\<close>, its \<open>errno\<close> and the address.\<close>

definition Listener_new ::
  "handler_id \<Rightarrow> 'q \<Rightarrow> env \<Rightarrow> int \<times> int \<times> SockAddr \<Rightarrow> int \<Rightarrow> SockOpts \<Rightarrow> 'q listener cpp" where
  "Listener_new i q w os sock so =
     (case os of (res, err, a) \<Rightarrow>
        if res < 0 then Throw (SocketFailure err)
        else Ret \<lparr>hid = i, port = 0, ioq = q, henv = w, faults = [], deleted = False,
                  read_count = [], sockopts = so, udp_sock = sock, close_pending = False,
                  selected = False, acceptor_queue = [], my_addr = a\<rparr>)"

text \<open>The destructor: the references in the queue go with it.\<close>

definition Listener_destroy :: "'q listener \<Rightarrow> 'q listener" where
  "Listener_destroy h =
     SocketHandler_destroy (on_env (fold (binary_destroy \<circ> acc_ref) (acceptor_queue h)) h)"

definition delete_listener :: "'q listener \<Rightarrow> 'q listener" where
  "delete_listener h = (if deleted h then fault DoubleFree h else delete_this (Listener_destroy h))"

lemma listener_frame [simp]:
  fixes h :: "'q listener"
  shows
  "acceptor_queue (emit a h) = acceptor_queue h" "my_addr (emit a h) = my_addr h"
  "acceptor_queue (fault x h) = acceptor_queue h" "my_addr (fault x h) = my_addr h"
  "acceptor_queue (on_env f h) = acceptor_queue h" "my_addr (on_env f h) = my_addr h"
  by (simp_all add: emit_def fault_def on_env_def)

section \<open>Simple operations\<close>

definition Listener_outputv :: "'q platform \<Rightarrow> iovec \<Rightarrow> 'q listener \<Rightarrow> 'q listener" where
  "Listener_outputv P ev h = on_env (send_not_connected P (port h)) h"

definition Listener_stop :: "'q listener \<Rightarrow> 'q listener" where
  "Listener_stop h =
     (let h1 = (if selected h then (on_env (stop_input (udp_sock h)) h)\<lparr>selected := False\<rparr> else h)
      in delete_listener h1)"

definition Listener_close :: "'q platform \<Rightarrow> byte list \<Rightarrow> nat \<Rightarrow> 'q listener \<Rightarrow> ctl cpp \<times> 'q listener" where
  "Listener_close P buf rlen h = with_env (encode_plain P rlen [enc_atom (ei P) ''ok'']) h"

definition Listener_peername :: "'q platform \<Rightarrow> nat \<Rightarrow> 'q listener \<Rightarrow> ctl cpp \<times> 'q listener" where
  "Listener_peername P rlen h = with_env (encode_errno P rlen ENOTCONN) h"

definition Listener_do_write :: "nat \<Rightarrow> 'q listener \<Rightarrow> 'q listener" where
  "Listener_do_write n h = h"

definition Listener_do_incoming :: "utp_socket \<Rightarrow> 'q listener \<Rightarrow> 'q listener" where
  "Listener_do_incoming u h = h"

section \<open>The queue of acceptors\<close>

definition accept :: "'q platform \<Rightarrow> byte list \<Rightarrow> nat \<Rightarrow> 'q listener \<Rightarrow> ctl cpp \<times> 'q listener" where
  "accept P buf rlen h =
     (case parse_arg P buf h of
        (ParseBadArg, b, h1) \<Rightarrow> (Ret CtlBadArg, drop_binary b h1)
      | (ParseUndef, b, h1) \<Rightarrow> (Undef, h1)
      | (ParseOk, b, h1) \<Rightarrow>
          (let proc = cur_caller (henv h1);
               (ok, h2) = with_env (add_monitor (api P) proc (hid h1)) h1
           in if ok then
                (let (ref, h3) = with_env (binary_copy b) (emit (Lock QueueMutex) h2);
                     h4 = emit (Unlock QueueMutex)
                            (h3\<lparr>acceptor_queue := acceptor_queue h3 @ [\<lparr>acc_caller = proc, acc_ref = ref\<rparr>]\<rparr>);
                     (r, h5) = with_env (encode_plain P rlen
                        [enc_tuple_header (ei P) 2, enc_atom (ei P) ''ok'',
                         enc_binary (ei P) (bin_bytes b) (int (binary_size b))]) h4
                 in (r, drop_binary b h5))
              else (Ret CtlZero, drop_binary b h2)))"

text \<open>The loop of \<open>cancel_accept\<close>, which ends at the first acceptor with that reference.\<close>

fun cancel_loop :: "binary \<Rightarrow> acceptor list \<Rightarrow> env \<Rightarrow> acceptor list \<times> env" where
  "cancel_loop ref [] w = ([], w)"
| "cancel_loop ref (a # as) w =
     (if binary_eq (acc_ref a) ref
      then (as, binary_destroy (acc_ref a) (del_monitor (acc_caller a) w))
      else (case cancel_loop ref as w of (as', w') \<Rightarrow> (a # as', w')))"

definition cancel_accept :: "'q platform \<Rightarrow> byte list \<Rightarrow> 'q listener \<Rightarrow> ctl cpp \<times> 'q listener" where
  "cancel_accept P buf h =
     (case parse_arg P buf h of
        (ParseBadArg, b, h1) \<Rightarrow> (Ret CtlBadArg, drop_binary b h1)
      | (ParseUndef, b, h1) \<Rightarrow> (Undef, h1)
      | (ParseOk, b, h1) \<Rightarrow>
          (let (q, h2) = with_env (cancel_loop b (acceptor_queue h1)) (emit (Lock QueueMutex) h1)
           in (Ret CtlZero, drop_binary b (emit (Unlock QueueMutex) (h2\<lparr>acceptor_queue := q\<rparr>)))))"

text \<open>The loop of \<open>process_exited\<close>, which removes every acceptor of that process.\<close>

fun exited_loop :: "pid \<Rightarrow> acceptor list \<Rightarrow> env \<Rightarrow> acceptor list \<times> env" where
  "exited_loop proc [] w = ([], w)"
| "exited_loop proc (a # as) w =
     (if acc_caller a = proc then exited_loop proc as (binary_destroy (acc_ref a) w)
      else (case exited_loop proc as w of (as', w') \<Rightarrow> (a # as', w')))"

definition Listener_process_exited :: "pid \<Rightarrow> 'q listener \<Rightarrow> 'q listener" where
  "Listener_process_exited proc h =
     (let (q, h1) = with_env (exited_loop proc (acceptor_queue h)) (emit (Lock QueueMutex) h)
      in emit (Unlock QueueMutex) (h1\<lparr>acceptor_queue := q\<rparr>))"

section \<open>A datagram arrives\<close>

text \<open>
  What the surroundings answer: \<open>recvfrom\<close>, the calls that open a socket, the results of
  \<open>connect\<close> with their \<open>errno\<close>, the run of libutp, and the port that is created with its queue;
  then the identities of the two new objects.
\<close>

record 'q datagram =
  dg_recv :: "int \<times> byte list \<times> SockAddr"
  dg_open :: os_open
  dg_connect :: "(int \<times> int) list"
  dg_ans :: "'q answers"
  dg_port :: nat
  dg_queue :: 'q
  dg_server :: handler_id
  dg_main :: handler_id

text \<open>The loop over \<open>connect\<close>: no error, or the error it ends with; \<open>None\<close> has not ended.\<close>

fun connect_loop :: "(int \<times> int) list \<Rightarrow> int option option" where
  "connect_loop [] = None"
| "connect_loop ((res, err) # os) =
     (if res = 0 then Some None
      else if res < 0 \<and> err \<noteq> EINTR then Some (Some err)
      else connect_loop os)"

definition async_error_term :: "'q platform \<Rightarrow> nat \<Rightarrow> binary \<Rightarrow> int \<Rightarrow> term_spec list" where
  "async_error_term P p ref err =
     [T_ATOM ''utp_async'', T_PORT p, T_EXT2TERM (binary_term_data ref), T_ATOM ''error'',
      T_ATOM (errno_id (api P) err), T_TUPLE 2, T_TUPLE 4]"

definition async_ok_term :: "nat \<Rightarrow> binary \<Rightarrow> nat \<Rightarrow> term_spec list" where
  "async_ok_term p ref new_port =
     [T_ATOM ''utp_async'', T_PORT p, T_EXT2TERM (binary_term_data ref), T_ATOM ''ok'',
      T_PORT new_port, T_TUPLE 2, T_TUPLE 4]"

text \<open>Removing the first acceptor after telling it.\<close>

definition answer_front :: "(nat \<Rightarrow> binary \<Rightarrow> term_spec list) \<Rightarrow> 'q listener \<Rightarrow> 'q listener" where
  "answer_front t h =
     (case acceptor_queue h of
        [] \<Rightarrow> fault EmptyFront h
      | a # as \<Rightarrow>
          (let h1 = emit (SendTerm (port h) (Proc (acc_caller a)) (t (port h) (acc_ref a))) h
           in (drop_binary (acc_ref a) h1)\<lparr>acceptor_queue := as\<rparr>))"

definition del_front_monitor :: "'q listener \<Rightarrow> 'q listener" where
  "del_front_monitor h =
     (case acceptor_queue h of [] \<Rightarrow> fault EmptyFront h | a # _ \<Rightarrow> on_env (del_monitor (acc_caller a)) h)"

text \<open>Deleting the \<open>MainHandler\<close> that wraps a server deletes the server, its \<open>delegatee\<close>, first.\<close>

definition delete_wrapper :: "handler_id \<Rightarrow> 'q utp_handler \<Rightarrow> 'q utp_handler" where
  "delete_wrapper i s = emit (Delete i) (delete_utp_handler s)"

text \<open>The new server: what libutp says of the datagram, with the callbacks it makes.\<close>

definition offer_datagram :: "'q answers \<Rightarrow> byte list \<Rightarrow> 'q utp_handler \<Rightarrow> bool \<times> 'q utp_handler" where
  "offer_datagram ans bytes s =
     (case take_answer ans (emit (UtpCall (UTP_IsIncomingUTP bytes)) (emit (Lock UtpMutex) s)) of
        (r, _, s1) \<Rightarrow> (r \<noteq> 0, emit (Unlock UtpMutex) s1))"

text \<open>\<open>MainHandler::drv_port\<close>: the port of the singleton, which must exist.\<close>

definition drv_port :: "env \<Rightarrow> nat option" where
  "drv_port w = map_option mh_port (main w)"

definition create_port :: "'q listener \<Rightarrow> 'q listener" where
  "create_port h =
     (if drv_port (henv h) = None then fault NullDeref h
      else emit (CreatePort (Proc (acc_caller (hd (acceptor_queue h))))) h)"

text \<open>
  The result is the listener and the new server, unless there is none; the server of the last
  branch has been deleted.
\<close>

abbreviation new_server :: "'q datagram \<Rightarrow> int \<Rightarrow> 'q listener \<Rightarrow> 'q utp_handler" where
  "new_server d sock h \<equiv> Server_new (dg_server d) (dg_queue d) (henv h) sock (sockopts h)"

definition serve_datagram ::
  "'q platform \<Rightarrow> 'q datagram \<Rightarrow> int \<Rightarrow> byte list \<Rightarrow> 'q listener \<Rightarrow> 'q listener \<times> 'q utp_handler option" where
  "serve_datagram P d sock bytes h =
     (let (is_utp, s1) = offer_datagram (dg_ans d) bytes (new_server d sock h);
          h1 = h\<lparr>henv := henv s1\<rparr>
      in if is_utp then
           (let h3 = create_port (del_front_monitor h1);
                s2 = set_port (dg_port d) (touch (s1\<lparr>henv := henv h3\<rparr>));
                h4 = answer_front (\<lambda>p ref. async_ok_term p ref (dg_port d)) (h3\<lparr>henv := henv s2\<rparr>)
            in (h4, Some (s2\<lparr>henv := henv h4\<rparr>)))
         else
           (let s2 = delete_wrapper (dg_main d) (delete_utp_handler (emit (CloseFd sock) s1))
            in (h1\<lparr>henv := henv s2\<rparr>, Some s2)))"

definition Listener_input_ready ::
  "'q platform \<Rightarrow> 'q datagram \<Rightarrow> 'q listener \<Rightarrow> 'q listener \<times> 'q utp_handler option" where
  "Listener_input_ready P d h =
     (case dg_recv d of (len, bytes, from) \<Rightarrow>
        if len \<le> 0 then (h, None)
        else
          (let h1 = emit (Lock QueueMutex) h
           in if acceptor_queue h1 = [] then (emit (Unlock QueueMutex) h1, None)
              else
                (case open_udp_socket (dg_open d) (my_addr h1) True (henv h1) of (err, sock, w) \<Rightarrow>
                   let h2 = h1\<lparr>henv := w\<rparr>
                   in if err < 0 then (emit (Unlock QueueMutex) h2, None)
                      else
                        (case connect_loop (dg_connect d) of
                           None \<Rightarrow> (fault StillLooping h2, None)
                         | Some (Some e) \<Rightarrow>
                             (let h3 = answer_front (\<lambda>p ref. async_error_term P p ref e)
                                         (del_front_monitor (emit (CloseFd sock) h2))
                              in (emit (Unlock QueueMutex) h3, None))
                         | Some None \<Rightarrow>
                             (case serve_datagram P d sock bytes h2 of
                                (h3, s) \<Rightarrow> (emit (Unlock QueueMutex) h3,
                                            map_option (emit (Unlock QueueMutex)) s))))))"

text \<open>The ways in which a datagram is served, and in which input is handled.\<close>

lemma serve_datagram_cases:
  assumes "serve_datagram P d sock bytes h = (h', srv)"
  obtains (refused) s1 s2 where "offer_datagram (dg_ans d) bytes (new_server d sock h) = (False, s1)"
      "s2 = delete_wrapper (dg_main d) (delete_utp_handler (emit (CloseFd sock) s1))"
      "h' = h\<lparr>henv := henv s2\<rparr>" "srv = Some s2"
  | (accepted) s1 h3 s2 where "offer_datagram (dg_ans d) bytes (new_server d sock h) = (True, s1)"
      "h3 = create_port (del_front_monitor (h\<lparr>henv := henv s1\<rparr>))"
      "s2 = set_port (dg_port d) (touch (s1\<lparr>henv := henv h3\<rparr>))"
      "h' = answer_front (\<lambda>p ref. async_ok_term p ref (dg_port d)) (h3\<lparr>henv := henv s2\<rparr>)"
      "srv = Some (s2\<lparr>henv := henv h'\<rparr>)"
proof -
  obtain is_utp s1 where o: "offer_datagram (dg_ans d) bytes (new_server d sock h) = (is_utp, s1)" by fastforce
  show thesis
  proof (cases is_utp)
    case True
    define h3 where "h3 = create_port (del_front_monitor (h\<lparr>henv := henv s1\<rparr>))"
    define s2 where "s2 = set_port (dg_port d) (touch (s1\<lparr>henv := henv h3\<rparr>))"
    show thesis
      by (rule accepted [OF _ h3_def s2_def])
        (use assms o True in \<open>auto simp: serve_datagram_def Let_def h3_def [symmetric] s2_def [symmetric]\<close>)
  next
    case False
    then show thesis using assms o by (intro refused) (auto simp: serve_datagram_def Let_def)
  qed
qed

lemma Listener_input_cases:
  assumes "Listener_input_ready P d h = (h', srv)"
  obtains (nothing) "fst (dg_recv d) \<le> 0" "h' = h" "srv = None"
  | (nobody) "0 < fst (dg_recv d)" "acceptor_queue h = []"
      "h' = emit (Unlock QueueMutex) (emit (Lock QueueMutex) h)" "srv = None"
  | (unopened) err sock w where "0 < fst (dg_recv d)" "acceptor_queue h \<noteq> []"
      "open_udp_socket (dg_open d) (my_addr h) True (henv (emit (Lock QueueMutex) h)) = (err, sock, w)" "err < 0"
      "h' = emit (Unlock QueueMutex) (h\<lparr>henv := w\<rparr>)" "srv = None"
  | (looping) err sock w where "0 < fst (dg_recv d)" "acceptor_queue h \<noteq> []"
      "open_udp_socket (dg_open d) (my_addr h) True (henv (emit (Lock QueueMutex) h)) = (err, sock, w)" "0 \<le> err"
      "connect_loop (dg_connect d) = None" "h' = fault StillLooping (h\<lparr>henv := w\<rparr>)" "srv = None"
  | (unconnected) err sock w e h3 where "0 < fst (dg_recv d)" "acceptor_queue h \<noteq> []"
      "open_udp_socket (dg_open d) (my_addr h) True (henv (emit (Lock QueueMutex) h)) = (err, sock, w)" "0 \<le> err"
      "connect_loop (dg_connect d) = Some (Some e)"
      "h3 = answer_front (\<lambda>p ref. async_error_term P p ref e) (del_front_monitor (emit (CloseFd sock) (h\<lparr>henv := w\<rparr>)))"
      "h' = emit (Unlock QueueMutex) h3" "srv = None"
  | (serving) err sock w bytes h3 s where "0 < fst (dg_recv d)" "acceptor_queue h \<noteq> []"
      "open_udp_socket (dg_open d) (my_addr h) True (henv (emit (Lock QueueMutex) h)) = (err, sock, w)" "0 \<le> err"
      "connect_loop (dg_connect d) = Some None" "bytes = fst (snd (dg_recv d))"
      "serve_datagram P d sock bytes (h\<lparr>henv := w\<rparr>) = (h3, s)"
      "h' = emit (Unlock QueueMutex) h3" "srv = map_option (emit (Unlock QueueMutex)) s"
proof -
  obtain len bytes sender where rc: "dg_recv d = (len, bytes, sender)" by (metis prod_cases3)
  have fields: "acceptor_queue (emit a h) = acceptor_queue h" "my_addr (emit a h) = my_addr h"
    "(emit a h)\<lparr>henv := w\<rparr> = h\<lparr>henv := w\<rparr>" for a w
    by (simp_all add: emit_def)
  show thesis
  proof (cases "len \<le> 0")
    case True
    show thesis by (rule nothing) (use assms True in \<open>simp_all add: Listener_input_ready_def rc\<close>)
  next
    case False
    then show thesis
      using assms nobody unopened looping unconnected serving
      by (auto simp: Listener_input_ready_def rc fields Let_def split: if_splits prod.splits option.splits)
  qed
qed

section \<open>Dispatch\<close>

definition Listener_control ::
  "'q platform \<Rightarrow> int \<times> int \<times> SockAddr \<Rightarrow> nat \<Rightarrow> byte list \<Rightarrow> nat \<Rightarrow> 'q listener \<Rightarrow> ctl cpp \<times> 'q listener" where
  "Listener_control P names cmd buf rlen h =
     (case command_of cmd of
        UTP_ACCEPT \<Rightarrow> accept P buf rlen h
      | UTP_CANCEL_ACCEPT \<Rightarrow> cancel_accept P buf h
      | _ \<Rightarrow> SocketHandler_control P names (Listener_close P) (Listener_peername P)
               (SocketHandler_setopts P) cmd buf rlen h)"

end
