(* ===== verification/Table_Owners.thy ===== *)
theory Table_Owners
  imports Connection Listener
begin

text \<open>
  Who owns the entries of the singleton's tables. A handler's entries are its own business: no
  operation on one handler adds an entry for another, and a handler that is deleted leaves none
  behind. The relation is proved for connections through the locale \<open>port_relation\<close>, for listeners
  operation by operation.
\<close>

section \<open>Entries of the tables\<close>

text \<open>The entries of handler \<open>i\<close>, which reads from \<open>fd\<close> while it is selected.\<close>

definition owned :: "handler_id \<Rightarrow> int \<Rightarrow> bool \<Rightarrow> bool \<Rightarrow> env \<Rightarrow> bool" where
  "owned i fd sel del w \<longleftrightarrow> fd \<noteq> INVALID_SOCKET \<and> (del \<longrightarrow> \<not> sel) \<and>
     (\<forall>m. main w = Some m \<longrightarrow> mh_id m \<noteq> i \<and>
        (\<forall>k. (k, i) \<in> set (fdmap m) \<longrightarrow> k = fd \<and> sel) \<and>
        (\<forall>k. (k, i) \<in> set (mon_map m) \<longrightarrow> \<not> del))"

text \<open>From one state to the next only entries of the handlers in \<open>J\<close> may be new.\<close>

definition others_kept :: "handler_id set \<Rightarrow> env \<Rightarrow> env \<Rightarrow> bool" where
  "others_kept J w w' \<longleftrightarrow> (\<forall>m'. main w' = Some m' \<longrightarrow>
     (\<exists>m. main w = Some m \<and> mh_id m' = mh_id m \<and>
        (\<forall>k j. j \<notin> J \<longrightarrow> (k, j) \<in> set (fdmap m') \<longrightarrow> (k, j) \<in> set (fdmap m)) \<and>
        (\<forall>k j. j \<notin> J \<longrightarrow> (k, j) \<in> set (mon_map m') \<longrightarrow> (k, j) \<in> set (mon_map m))))"

abbreviation shrunk :: "env \<Rightarrow> env \<Rightarrow> bool" where
  "shrunk \<equiv> others_kept {}"

lemma tables_env_log [simp]:
  "owned i fd sel del (env_log a w) = owned i fd sel del w"
  "others_kept J w (env_log a w') = others_kept J w w'" "others_kept J (env_log a w) w' = others_kept J w w'"
  by (simp_all add: owned_def others_kept_def)

lemma kept_main: "main w' = main w \<Longrightarrow> others_kept J w w'"
  by (simp add: others_kept_def)

lemma kept_None: "main w' = None \<Longrightarrow> others_kept J w w'"
  by (simp add: others_kept_def)

lemma others_kept_trans: "others_kept J w w1 \<Longrightarrow> others_kept J w1 w2 \<Longrightarrow> others_kept J w w2"
  unfolding others_kept_def by (metis (no_types, lifting))

lemma kept_shrunk: "others_kept J w w1 \<Longrightarrow> shrunk w1 w2 \<Longrightarrow> others_kept J w w2"
  by (erule others_kept_trans) (auto simp: others_kept_def)

lemma shrunk_kept: "shrunk w w1 \<Longrightarrow> others_kept J w w1"
  by (auto simp: others_kept_def)

lemma others_owned: "others_kept J w w' \<Longrightarrow> i \<notin> J \<Longrightarrow> owned i fd sel del w \<Longrightarrow> owned i fd sel del w'"
  unfolding others_kept_def owned_def by metis

lemma shrunk_owned: "shrunk w w' \<Longrightarrow> owned i fd sel del w \<Longrightarrow> owned i fd sel del w'"
  by (erule others_owned) simp

section \<open>The operations on the tables\<close>

lemma main_stop_input:
  "main (stop_input fd w) = map_option (\<lambda>m. if fd \<noteq> INVALID_SOCKET
     then m\<lparr>fdmap := smap_erase fd (fdmap m)\<rparr> else m) (main w)"
  by (simp add: stop_input_def deselect_def Let_def split: option.splits)

lemma main_start_input:
  "main (start_input fd i w) = map_option (\<lambda>m. m\<lparr>fdmap := smap_insert fd i (fdmap m)\<rparr>) (main w)"
  by (simp add: start_input_def select_def Let_def split: option.splits)

lemma main_del_monitors:
  "main (del_monitors i w) = map_option (\<lambda>m. if i \<noteq> mh_id m
     then m\<lparr>mon_map := filter (\<lambda>e. snd e \<noteq> i) (mon_map m),
            proc_mon_map := filter (\<lambda>e. snd e \<notin> set (mons_of i (mon_map m))) (proc_mon_map m)\<rparr>
     else m) (main w)"
  using del_mons_loop_maps(1) [of i] del_mons_loop_maps(2) [of i]
  by (auto simp: del_monitors_def del_mons_def split: option.splits prod.splits) (metis fst_conv snd_conv)+

lemma shrunk_stop_input: "shrunk w (stop_input fd w)"
  by (auto simp: others_kept_def main_stop_input smap_erase_def)

lemma shrunk_del_monitors: "shrunk w (del_monitors i w)"
  by (auto simp: others_kept_def main_del_monitors)

lemma shrunk_del_monitor: "shrunk w (del_monitor p w)"
  by (auto simp: others_kept_def del_monitor_def del_mon_def smap_erase_def Let_def split: option.splits)

lemma add_monitor_others:
  "others_kept {i} w (snd (add_monitor D p i w)) \<and>
   (owned i fd sel False w \<longrightarrow> owned i fd sel False (snd (add_monitor D p i w)))"
  using set_smap_insert_subset
  by (auto simp: others_kept_def owned_def add_monitor_def add_mon_def Let_def split: option.splits) fastforce+

lemma start_input_others: "others_kept {i} w (start_input fd i w)"
  using set_smap_insert_subset by (auto simp: others_kept_def main_start_input) fastforce+

lemma start_input_owned: "owned i fd sel False w \<Longrightarrow> owned i fd True False (start_input fd i w)"
  using set_smap_insert_subset by (auto simp: owned_def main_start_input) fastforce+

lemma stop_input_owned: "owned i fd sel del w \<Longrightarrow> owned i fd False del (stop_input fd w)"
  by (auto simp: owned_def main_stop_input smap_erase_def)

lemma del_monitors_owned: "owned i fd False del w \<Longrightarrow> owned i fd False True (del_monitors i w)"
proof -
  assume o: "owned i fd False del w"
  have "(k, i) \<notin> set (fdmap m')" "(k', i) \<notin> set (mon_map m')" "mh_id m' \<noteq> i"
    if m': "main (del_monitors i w) = Some m'" for m' k k'
  proof -
    obtain m where m: "main w = Some m" using m' by (auto simp: main_del_monitors)
    then have "mh_id m \<noteq> i" "(k, i) \<notin> set (fdmap m)" using o by (simp_all add: owned_def)
    then show "(k, i) \<notin> set (fdmap m')" "(k', i) \<notin> set (mon_map m')" "mh_id m' \<noteq> i"
      using m' m by (auto simp: main_del_monitors)
  qed
  then show ?thesis using o by (simp add: owned_def)
qed

section \<open>Steps of a handler\<close>

definition tab_ok :: "('q, 'a) sock \<Rightarrow> bool" where
  "tab_ok h \<longleftrightarrow> owned (hid h) (udp_sock h) (selected h) (deleted h) (henv h)"

definition tab_frame :: "('q, 'a) sock \<Rightarrow> ('q, 'a) sock \<Rightarrow> bool" where
  "tab_frame a b \<longleftrightarrow> hid b = hid a \<and> udp_sock b = udp_sock a \<and> others_kept {hid a} (henv a) (henv b)"

lemma tab_frame_trans: "tab_frame a b \<Longrightarrow> tab_frame b c \<Longrightarrow> tab_frame a c"
  unfolding tab_frame_def using others_kept_trans by metis

definition tab_step :: "('q, 'a) sock \<Rightarrow> ('q, 'a) sock \<Rightarrow> bool" where
  "tab_step a b \<longleftrightarrow> tab_frame a b \<and> (tab_ok a \<longrightarrow> tab_ok b)"

lemma tab_step_trans: "tab_step a b \<Longrightarrow> tab_step b c \<Longrightarrow> tab_step a c"
  unfolding tab_step_def using tab_frame_trans by metis

lemma tab_step_shrunk:
  "shrunk (henv a) (henv b) \<Longrightarrow> hid b = hid a \<Longrightarrow> udp_sock b = udp_sock a \<Longrightarrow>
   selected b = selected a \<Longrightarrow> deleted b = deleted a \<Longrightarrow> tab_step a b"
  by (simp add: tab_step_def tab_frame_def tab_ok_def shrunk_kept shrunk_owned)

lemma tab_step_same:
  "main (henv b) = main (henv a) \<Longrightarrow> hid b = hid a \<Longrightarrow> udp_sock b = udp_sock a \<Longrightarrow>
   selected b = selected a \<Longrightarrow> deleted b = deleted a \<Longrightarrow> tab_step a b"
  by (simp add: tab_step_shrunk kept_main)

lemma tab_step_refl [simp]: "tab_step a a"
  by (rule tab_step_same) simp_all

lemma tab_step_env: "shrunk (henv h) (f (henv h)) \<Longrightarrow> tab_step h (on_env f h)"
  by (rule tab_step_shrunk) simp_all

text \<open>Leaving the table of sockets, and the end of the handler.\<close>

definition unselect :: "('q, 'a) sock \<Rightarrow> ('q, 'a) sock" where
  "unselect h = (if selected h then (on_env (stop_input (udp_sock h)) h)\<lparr>selected := False\<rparr> else h)"

lemma tab_step_unselect: "tab_step h (unselect h)" "\<not> selected (unselect h)" "deleted (unselect h) = deleted h"
  using stop_input_owned [of "hid h" "udp_sock h" "selected h" "deleted h" "henv h"]
    shrunk_kept [OF shrunk_stop_input, of "{hid h}" "henv h" "udp_sock h"]
  by (simp_all add: unselect_def tab_step_def tab_frame_def tab_ok_def shrunk_kept [OF kept_main])

lemma SocketHandler_destroy_simps [simp]:
  "hid (SocketHandler_destroy h) = hid h" "udp_sock (SocketHandler_destroy h) = udp_sock h"
  "selected (SocketHandler_destroy h) = selected h" "deleted (SocketHandler_destroy h) = deleted h"
  "henv (SocketHandler_destroy h) = del_monitors (hid h) (henv h)"
  by (simp_all add: SocketHandler_destroy_def Handler_destroy_def)

text \<open>\<open>w1\<close> is the state after the members' destructors.\<close>

lemma tab_step_deleted:
  assumes "main w1 = main (henv h)" "\<not> deleted h" "\<not> selected h"
  shows "tab_step h (delete_this (SocketHandler_destroy (h\<lparr>henv := w1\<rparr>)))"
proof -
  have "shrunk (henv h) w1" using assms(1) by (rule kept_main)
  then have "shrunk (henv h) (del_monitors (hid h) w1)" by (rule others_kept_trans [OF _ shrunk_del_monitors])
  moreover have "owned (hid h) (udp_sock h) False True (del_monitors (hid h) w1)" if "tab_ok h"
    using that assms(2,3) shrunk_owned [OF \<open>shrunk (henv h) w1\<close>]
    by (intro del_monitors_owned [where del = False]) (simp add: tab_ok_def)
  ultimately show ?thesis
    using assms(2,3)
    by (simp add: tab_step_def tab_frame_def tab_ok_def delete_this_def shrunk_kept)
qed

lemma tab_step_set_port:
  assumes "\<not> deleted h"
  shows "tab_step h (set_port p h) \<and> deleted (set_port p h) = deleted h"
proof -
  let ?h = "Handler_set_port p h"
  have f: "hid ?h = hid h" "udp_sock ?h = udp_sock h" "selected ?h = selected h" "deleted ?h = deleted h"
    "main (henv ?h) = main (henv h)"
    by (simp_all add: Handler_set_port_def Let_def)
  have 1: "tab_step h ?h" by (rule tab_step_same) (simp_all add: f)
  have "tab_step ?h ((on_env (start_input (udp_sock ?h) (hid ?h)) ?h)\<lparr>selected := True\<rparr>)"
    using start_input_others [of "hid ?h" "henv ?h" "udp_sock ?h"]
      start_input_owned [of "hid ?h" "udp_sock ?h" "selected ?h" "henv ?h"] assms
    by (simp add: tab_step_def tab_frame_def tab_ok_def f)
  then show ?thesis
    using 1 tab_step_trans [OF 1] by (simp add: set_port_def Let_def f)
qed

section \<open>Connections\<close>

text \<open>A connection that libutp has let go of is not selected any more.\<close>

definition conn_ok :: "'q utp_handler \<Rightarrow> bool" where
  "conn_ok h \<longleftrightarrow> tab_ok h \<and> (status h = destroying \<longrightarrow> \<not> selected h)"

definition conn_tab :: "'q utp_handler \<Rightarrow> 'q utp_handler \<Rightarrow> bool" where
  "conn_tab a b \<longleftrightarrow> tab_frame a b \<and> (conn_ok a \<longrightarrow> conn_ok b)"

lemma conn_tab_trans: "conn_tab a b \<Longrightarrow> conn_tab b c \<Longrightarrow> conn_tab a c"
  unfolding conn_tab_def using tab_frame_trans by metis

lemma conn_tab_step:
  "tab_step a b \<Longrightarrow> (status b = destroying \<Longrightarrow> selected b \<Longrightarrow> status a = destroying \<and> selected a) \<Longrightarrow> conn_tab a b"
  by (auto simp: conn_tab_def conn_ok_def tab_step_def)

lemma conn_tab_core: "core a b \<Longrightarrow> conn_tab a b"
  by (rule conn_tab_step [OF tab_step_same]) (auto simp: core_def)

lemma conn_tab_same:
  "main (henv b) = main (henv a) \<Longrightarrow> hid b = hid a \<Longrightarrow> udp_sock b = udp_sock a \<Longrightarrow>
   selected b = selected a \<Longrightarrow> deleted b = deleted a \<Longrightarrow> status b = status a \<Longrightarrow> conn_tab a b"
  by (rule conn_tab_core) (simp add: core_def)

lemma main_fold_free: "main (fold free_binary bs w) = main w"
  by (induction bs arbitrary: w) simp_all

lemma main_destroyed: "main (wq_destroy q (binary_destroy b w)) = main w"
  using only_binaries_reset [of w None b]
  by (simp add: wq_destroy_def main_fold_free binary_destroy_def only_binaries_def)

lemma conn_tab_delete: "\<not> selected h \<Longrightarrow> conn_tab h (delete_utp_handler h)"
proof (rule conn_tab_step)
  assume sel: "\<not> selected h"
  have "tab_step h (delete_this (SocketHandler_destroy
      (h\<lparr>henv := wq_destroy (write_q h) (binary_destroy (caller_ref h) (henv h))\<rparr>)))" if "\<not> deleted h"
    by (rule tab_step_deleted [OF main_destroyed that sel])
  then show "tab_step h (delete_utp_handler h)"
    by (simp add: delete_utp_handler_def UtpHandler_destroy_def on_env_def tab_step_same)
  have "\<not> selected (delete_utp_handler h)"
    using sel by (simp add: delete_utp_handler_def delete_this_def UtpHandler_destroy_def)
  then show "selected (delete_utp_handler h) \<Longrightarrow> status h = destroying \<and> selected h" by simp
qed

lemma delete_frame: "tab_frame h (delete_utp_handler h)"
  using shrunk_kept [OF others_kept_trans [OF kept_main [OF main_destroyed] shrunk_del_monitors]]
    shrunk_kept [OF kept_main]
  by (simp add: tab_frame_def delete_utp_handler_def UtpHandler_destroy_def delete_this_def)

lemma conn_tab_on_destroying: "conn_tab h (on_destroying P h)"
proof -
  define h1 where "h1 = unselect h"
  have 1: "conn_tab h h1" "\<not> selected h1"
    using tab_step_unselect [of h] by (auto simp: h1_def intro: conn_tab_step)
  define h2 where "h2 =
      (if close_pending h1 \<and> binary_bool (caller_ref h1) then
         (let t = ref_ok_term (caller_ref h1);
              h3 = (if caller h1 \<noteq> NilTerm then emit (SendTerm (port h1) (caller h1) t) h1
                    else emit (OutputTerm (port h1) t) h1)
          in h3\<lparr>caller := NilTerm, close_pending := False\<rparr>)
       else if active (sockopts h1) \<noteq> ACTIVE_FALSE then snd (emit_closed_message (api P) h1)
       else h1)"
  have f: "main (henv h2) = main (henv h1)" "hid h2 = hid h1" "udp_sock h2 = udp_sock h1"
    "selected h2 = selected h1" "deleted h2 = deleted h1"
    by (auto simp: h2_def Let_def emit_closed_message_def)
  have "tab_step h1 (h2\<lparr>writable := False, status := destroying, eof_seen := False\<rparr>)"
    by (rule tab_step_same) (simp_all add: f)
  then have 2: "conn_tab h1 (h2\<lparr>writable := False, status := destroying, eof_seen := False\<rparr>)"
    by (rule conn_tab_step) (simp add: f 1)
  have "on_destroying P h =
      (if status h1 = closing then h2\<lparr>writable := False, status := destroying, eof_seen := False\<rparr>
       else if status h1 = stopped then delete_utp_handler h1 else h1)"
    by (simp only: on_destroying_def Let_def h1_def unselect_def h2_def)
  then show ?thesis
    using 1 conn_tab_trans [OF 1(1) 2] conn_tab_trans [OF 1(1) conn_tab_delete] by simp
qed

lemma do_write_core: "core h (snd (do_write n h))"
proof -
  have "main w' = main w" if "wq_pop_loop n q sz off to w = Ret (bs, wq, w')" for n q sz off to w bs wq w'
    using that
    by (induction n q sz off to w rule: wq_pop_loop.induct)
      (auto simp: wq_pop_loop.simps Let_def split: if_splits)
  then have "main w' = main w" if "wq_pop_bytes n wq w = Ret (bs, wq', w')" for wq w bs wq' w'
    using that unfolding wq_pop_bytes_def by blast
  then show ?thesis
    by (auto simp: do_write_def core_def split: cpp.splits)
qed

lemma emit_read_buffer_core: "core h (snd (snd (emit_read_buffer D len rcvr q (h :: 'q utp_handler))))"
  using delivers_emit_read_buffer [of h D len rcvr q] by (auto simp: delivers_def core_def)

interpretation tables: handler_relation P conn_tab for P :: "'q platform"
proof unfold_locales
  fix a b c :: "'q utp_handler" and bytes n u and len rcvr q
  show "conn_tab a b \<Longrightarrow> conn_tab b c \<Longrightarrow> conn_tab a c" by (rule conn_tab_trans)
  show "quiet a b \<Longrightarrow> conn_tab a b" by (rule conn_tab_core) (simp add: quiet_def)
  show "conn_tab a (on_destroying P a)" by (rule conn_tab_on_destroying)
  show "conn_tab a b \<Longrightarrow> conn_tab a (b\<lparr>utp := None\<rparr>)"
    by (rule conn_tab_trans, assumption, rule conn_tab_same) simp_all
  show "conn_tab a (snd (do_write n a))" by (rule conn_tab_core [OF do_write_core])
  show "conn_tab a (snd (snd (emit_read_buffer (api P) len rcvr q a)))"
    by (rule conn_tab_core [OF emit_read_buffer_core])
qed (rule conn_tab_same; simp)+

interpretation tables_port: port_relation P conn_tab conn_tab "\<lambda>_ _. True" True False
  for P :: "'q platform"
proof unfold_locales
  fix a b c :: "'q utp_handler" and x
  show "conn_tab a b \<Longrightarrow> conn_tab b c \<Longrightarrow> conn_tab a c" by (rule conn_tab_trans)
  show "conn_tab (emit (Lock UtpMutex) a) b \<Longrightarrow> conn_tab a (emit (Unlock UtpMutex) b)"
    "conn_tab (emit (Lock UtpMutex) a) b \<Longrightarrow> conn_tab a (fault x b)"
    using conn_tab_trans [OF conn_tab_trans [OF conn_tab_same [of "emit (Lock UtpMutex) a" a]]
      conn_tab_same [of "emit (Unlock UtpMutex) b" b]]
      conn_tab_trans [OF conn_tab_trans [OF conn_tab_same [of "emit (Lock UtpMutex) a" a]]
      conn_tab_same [of "fault x b" b]]
    by simp_all
  show "status a = destroying \<Longrightarrow> conn_tab a (delete_utp_handler a)"
  proof (cases "selected a")
    case True
    assume st: "status a = destroying"
    then have "\<not> conn_ok a" using True by (simp add: conn_ok_def)
    then show "conn_tab a (delete_utp_handler a)" by (simp add: conn_tab_def delete_frame)
  qed (rule conn_tab_delete)
qed (simp_all add: conn_tab_same)

text \<open>Every operation of a connection but \<open>set_port\<close>.\<close>

lemma conn_step_tab: "\<not> is_set_port op \<Longrightarrow> conn_tab h (conn_step P op h)"
  by (rule tables_port.conn_step_prel) simp_all

text \<open>A server that libutp does not destroy while it looks at its first datagram.\<close>

definition lives :: "'q utp_handler \<Rightarrow> 'q utp_handler \<Rightarrow> bool" where
  "lives a b \<longleftrightarrow> deleted b = deleted a \<and> selected b = selected a \<and> (status b = destroying \<longrightarrow> status a = destroying)"

interpretation living: callback_relation P lives False for P :: "'q platform"
proof unfold_locales
  fix a b c :: "'q utp_handler" and n len rcvr q
  show "quiet a b \<Longrightarrow> lives a b" by (simp add: quiet_def core_def lives_def)
  show "lives a (snd (do_write n a))" using do_write_core [of a n] by (simp add: core_def lives_def)
  show "lives a (snd (snd (emit_read_buffer (api P) len rcvr q a)))"
    using emit_read_buffer_core [of a "api P" len rcvr q] by (simp add: core_def lives_def)
qed (auto simp: lives_def)

end
