(* ===== verification/Main_Handler.thy ===== *)
theory Main_Handler
  imports Listener
begin

text \<open>
  \<open>MainHandler\<close> (\<open>main_handler.cc\<close>): the object behind every port. The first one started is the
  singleton, which owns the timer and the tables of \<open>Main_Maps\<close>; every one turns into a
  connection or a listener by delegating to it, and then gives it its port. The port's I/O queue
  goes with the port.
\<close>

section \<open>The class\<close>

datatype 'q delegate = ConnD "'q utp_handler" | ListD "'q listener"

text \<open>\<open>has_map_mutex\<close>: whether \<open>map_mutex\<close> is a mutex that exists; only the singleton has one.\<close>

record 'q main_obj = "'q handler" +
  delegatee :: "'q delegate option"
  has_map_mutex :: bool

fun delegate_hid :: "'q delegate \<Rightarrow> handler_id" where
  "delegate_hid (ConnD h) = hid h"
| "delegate_hid (ListD h) = hid h"

fun delegate_deleted :: "'q delegate \<Rightarrow> bool" where
  "delegate_deleted (ConnD h) = deleted h"
| "delegate_deleted (ListD h) = deleted h"

fun delegate_env :: "'q delegate \<Rightarrow> env" where
  "delegate_env (ConnD h) = henv h"
| "delegate_env (ListD h) = henv h"

fun delegate_faults :: "'q delegate \<Rightarrow> fault list" where
  "delegate_faults (ConnD h) = faults h"
| "delegate_faults (ListD h) = faults h"

lemma main_obj_frame [simp]:
  fixes o1 :: "'q main_obj"
  shows
  "delegatee (emit a o1) = delegatee o1" "has_map_mutex (emit a o1) = has_map_mutex o1"
  "delegatee (fault x o1) = delegatee o1" "has_map_mutex (fault x o1) = has_map_mutex o1"
  "delegatee (on_env f o1) = delegatee o1" "has_map_mutex (on_env f o1) = has_map_mutex o1"
  by (simp_all add: emit_def fault_def on_env_def)

text \<open>
  Calling a method of the object a pointer refers to: in the shared state of the caller, and only
  if the object has not been deleted.
\<close>

fun set_delegate_env :: "env \<Rightarrow> 'q delegate \<Rightarrow> 'q delegate" where
  "set_delegate_env w (ConnD h) = ConnD (h\<lparr>henv := w\<rparr>)"
| "set_delegate_env w (ListD h) = ListD (h\<lparr>henv := w\<rparr>)"

definition MainHandler_new :: "handler_id \<Rightarrow> nat \<Rightarrow> 'q \<Rightarrow> env \<Rightarrow> 'q main_obj" where
  "MainHandler_new i p q w =
     Handler_set_port p
       \<lparr>hid = i, port = 0, ioq = q, henv = w, faults = [], deleted = False,
        delegatee = None, has_map_mutex = False\<rparr>"

definition MainHandler_wrap :: "handler_id \<Rightarrow> 'q delegate \<Rightarrow> 'q \<Rightarrow> env \<Rightarrow> 'q main_obj" where
  "MainHandler_wrap i d q w =
     Handler_set_port 0
       \<lparr>hid = i, port = 0, ioq = q, henv = w, faults = [], deleted = False,
        delegatee = Some d, has_map_mutex = False\<rparr>"

section \<open>The singleton\<close>

definition timeout_check :: nat where "timeout_check = 10"

definition is_main :: "'q main_obj \<Rightarrow> bool" where
  "is_main o1 \<longleftrightarrow> (case main (henv o1) of None \<Rightarrow> False | Some m \<Rightarrow> mh_id m = hid o1)"

definition start :: "'q main_obj \<Rightarrow> 'q main_obj" where
  "start o1 =
     (let o2 = emit (Lock UtpMutex) o1
      in emit (Unlock UtpMutex)
        (if main (henv o2) = None then
           (emit (CreateMutex MapMutex) (emit (SetTimer timeout_check)
             (on_env (\<lambda>w. w\<lparr>main := Some \<lparr>mh_id = hid o2, mh_port = port o2, fdmap = [],
                                        mon_map = [], proc_mon_map = []\<rparr>\<rparr>) o2)))\<lparr>has_map_mutex := True\<rparr>
         else o2))"

text \<open>The loop over the sockets at the end of the singleton.\<close>

fun deselect_all :: "(int \<times> handler_id) list \<Rightarrow> env \<Rightarrow> env" where
  "deselect_all [] w = w"
| "deselect_all ((fd, h) # m) w = deselect_all m (env_log (Select fd False) w)"

definition stop_main :: "'q main_obj \<Rightarrow> 'q main_obj" where
  "stop_main o1 =
     (let o2 = emit (Lock UtpMutex) o1
      in emit (Unlock UtpMutex)
        (case main (henv o2) of
           None \<Rightarrow> o2
         | Some m \<Rightarrow>
             if mh_id m = hid o2 then
               (let o3 = on_env (\<lambda>w. w\<lparr>main := None\<rparr>) o2;
                    o4 = (if port o3 \<noteq> 0 then on_env (deselect_all (fdmap m)) o3 else o3)
                in (emit (DestroyMutex MapMutex) (emit CancelTimer o4))\<lparr>has_map_mutex := False\<rparr>)
             else o2))"

text \<open>When a delegatee takes over the port, the field of the singleton that other objects see changes.\<close>

definition clear_port :: "'q main_obj \<Rightarrow> 'q main_obj" where
  "clear_port o1 =
     (on_env (\<lambda>w. case main w of
                    None \<Rightarrow> w
                  | Some m \<Rightarrow> if mh_id m = hid o1 then w\<lparr>main := Some (m\<lparr>mh_port := 0\<rparr>)\<rparr> else w) o1)
       \<lparr>port := 0\<rparr>"

text \<open>
  \<open>ready_input\<close> and \<open>process_exit\<close> up to the call of the handler they find. An object other than
  the singleton would lock a null mutex.
\<close>

definition find_input :: "int \<Rightarrow> 'q main_obj \<Rightarrow> handler_id option \<times> 'q main_obj" where
  "find_input fd o1 =
     (case (if has_map_mutex o1 then main (henv o1) else None) of
        None \<Rightarrow> (None, fault NullDeref o1)
      | Some m \<Rightarrow> (case input_handler fd m (henv o1) of (h, w) \<Rightarrow> (h, o1\<lparr>henv := w\<rparr>)))"

definition find_exit :: "monitor \<Rightarrow> pid \<Rightarrow> 'q main_obj \<Rightarrow> handler_id option \<times> 'q main_obj" where
  "find_exit mon proc o1 =
     (case (if has_map_mutex o1 then main (henv o1) else None) of
        None \<Rightarrow> (None, fault NullDeref o1)
      | Some m \<Rightarrow>
          (case exit_handler mon proc m (henv o1) of
             (h, m', w) \<Rightarrow> (h, o1\<lparr>henv := w\<lparr>main := Some m'\<rparr>\<rparr>)))"

section \<open>Delegation\<close>

text \<open>
  The call through \<open>delegatee\<close>. What the handler is asked to do comes as two functions; the
  results are its own and the object with the delegatee as it is afterwards.
\<close>

definition delegate ::
  "('q utp_handler \<Rightarrow> 'r \<times> 'q utp_handler) \<Rightarrow> ('q listener \<Rightarrow> 'r \<times> 'q listener) \<Rightarrow>
   'q main_obj \<Rightarrow> 'r option \<times> 'q main_obj" where
  "delegate f g o1 =
     (case delegatee o1 of
        None \<Rightarrow> (None, o1)
      | Some (ConnD h) \<Rightarrow>
          if deleted h then (None, fault UseAfterFree o1)
          else (case f (h\<lparr>henv := henv o1\<rparr>) of
                  (r, h') \<Rightarrow> (Some r, o1\<lparr>delegatee := Some (ConnD h'), henv := henv h'\<rparr>))
      | Some (ListD h) \<Rightarrow>
          if deleted h then (None, fault UseAfterFree o1)
          else (case g (h\<lparr>henv := henv o1\<rparr>) of
                  (r, h') \<Rightarrow> (Some r, o1\<lparr>delegatee := Some (ListD h'), henv := henv h'\<rparr>)))"

definition MainHandler_outputv :: "'q platform \<Rightarrow> 'q answers \<Rightarrow> iovec \<Rightarrow> 'q main_obj \<Rightarrow> 'q main_obj" where
  "MainHandler_outputv P ans ev o1 =
     snd (delegate (\<lambda>h. ((), outputv P ans ev h)) (\<lambda>h. ((), Listener_outputv P ev h)) o1)"

definition MainHandler_stop :: "'q platform \<Rightarrow> 'q answers \<Rightarrow> 'q main_obj \<Rightarrow> 'q main_obj" where
  "MainHandler_stop P ans o1 =
     stop_main (snd (delegate (\<lambda>h. ((), stop P ans h)) (\<lambda>h. ((), Listener_stop h)) o1))"

section \<open>Becoming a connection or a listener\<close>

text \<open>
  What the surroundings answer: \<open>getsockname\<close> on a given descriptor (result, \<open>errno\<close>), the calls
  that open a socket, what \<open>getsockname\<close> answers in the constructor of \<open>Listener\<close>, what
  \<open>UTP_Create\<close> returns, the runs of libutp, and the identity of the new handler.
\<close>

record 'q opener =
  op_fdname :: "int \<times> int"
  op_open :: os_open
  op_myaddr :: "int \<times> int \<times> SockAddr"
  op_utp :: "utp_socket option"
  op_ans :: "'q answers"
  op_id :: handler_id

text \<open>
  The choice of the socket, which both operations make: a descriptor that was given, or a socket
  opened on the address, on the IPv6 wildcard address, or on the port.
\<close>

definition choose_socket ::
  "'q platform \<Rightarrow> 'q opener \<Rightarrow> SockOpts \<Rightarrow> bool \<Rightarrow> env \<Rightarrow> (int \<times> int) cpp \<times> env" where
  "choose_socket P c so reuse w =
     (if so_fd so \<noteq> INVALID_SOCKET then
        (Ret (if fst (op_fdname c) < 0 then snd (op_fdname c) else 0, so_fd so), w)
      else if addr_set so then
        (case open_udp_socket (op_open c) (so_addr so) reuse w of (err, s, w') \<Rightarrow> (Ret (err, s), w'))
      else if inet6 so then
        (case SockAddr_str (net P) ''::'' 0 of
           Throw e \<Rightarrow> (Throw e, w)
         | Undef \<Rightarrow> (Undef, w)
         | Ret a \<Rightarrow>
             (case open_udp_socket (op_open c) a reuse w of (err, s, w') \<Rightarrow> (Ret (err, s), w')))
      else
        (case open_udp_socket_port (op_open c) (so_port so) reuse w of (err, s, w') \<Rightarrow> (Ret (err, s), w')))"

text \<open>The argument of \<open>connect_start\<close>: address, port number and options. A long string overflows
  the array \<open>addrstr\<close>.\<close>

definition parse_connect ::
  "'q platform \<Rightarrow> byte list \<Rightarrow> 'q main_obj \<Rightarrow> parse \<times> string \<times> nat \<times> binary \<times> 'q main_obj" where
  "parse_connect P buf o1 =
     (case cpp_bind (EiDecoder (ei P) buf (length buf)) (dec_tuple_header (ei P)) of
        Throw _ \<Rightarrow> (ParseBadArg, [], 0, binary_new, o1)
      | Undef \<Rightarrow> (ParseUndef, [], 0, binary_new, o1)
      | Ret (arity, d) \<Rightarrow>
          if arity \<noteq> 3 then (ParseBadArg, [], 0, binary_new, o1)
          else (case dec_string (ei P) d of
                  Throw _ \<Rightarrow> (ParseBadArg, [], 0, binary_new, o1)
                | Undef \<Rightarrow> (ParseUndef, [], 0, binary_new, o1)
                | Ret (s, d1) \<Rightarrow>
                    if INET6_ADDRSTRLEN \<le> length s then (ParseUndef, [], 0, binary_new, o1)
                    else (case dec_ulongval (ei P) d1 of
                            Throw _ \<Rightarrow> (ParseBadArg, [], 0, binary_new, o1)
                          | Undef \<Rightarrow> (ParseUndef, [], 0, binary_new, o1)
                          | Ret (n, d2) \<Rightarrow>
                              (case parse_binary_at (api P) (ei P) (Ret d2) binary_new (henv o1) of
                                 (r, b, w) \<Rightarrow> (r, s, n, b, o1\<lparr>henv := w\<rparr>)))))"

text \<open>The new client takes the port over, and connects.\<close>

definition become_client ::
  "'q platform \<Rightarrow> 'q opener \<Rightarrow> SockOpts \<Rightarrow> int \<Rightarrow> 'q main_obj \<Rightarrow> 'q main_obj" where
  "become_client P c so sock o1 =
     (let client = set_port (port o1) (Client_new (op_id c) (ioq o1) (henv o1) sock so);
          o2 = clear_port (o1\<lparr>henv := henv client\<rparr>);
          client2 = connect_to (op_ans c) (op_utp c) (client\<lparr>henv := henv o2\<rparr>)
      in o2\<lparr>delegatee := Some (ConnD client2), henv := henv client2\<rparr>)"

definition connect_start ::
  "'q platform \<Rightarrow> 'q opener \<Rightarrow> byte list \<Rightarrow> nat \<Rightarrow> 'q main_obj \<Rightarrow> ctl cpp \<times> 'q main_obj" where
  "connect_start P c buf rlen o1 =
     (case parse_connect P buf o1 of
        (ParseBadArg, _, _, b, o2) \<Rightarrow> (Ret CtlBadArg, drop_binary b o2)
      | (ParseUndef, _, _, b, o2) \<Rightarrow> (Undef, o2)
      | (ParseOk, str, n, b, o2) \<Rightarrow>
          (case SockAddr_str (net P) str (n mod 2 ^ 16) of
             Throw e \<Rightarrow>
               if e = BadSockAddr then (Ret CtlBadArg, drop_binary b o2) else (Throw e, drop_binary b o2)
           | Undef \<Rightarrow> (Undef, o2)
           | Ret a \<Rightarrow>
               (case decode (net P) (bin_bytes b) SockOpts_new of
                  Throw e \<Rightarrow> (Throw e, drop_binary b o2)
                | Undef \<Rightarrow> (Undef, o2)
                | Ret (so, _) \<Rightarrow>
                    (case choose_socket P c so False (henv o2) of
                       (Throw e, w) \<Rightarrow> (Throw e, drop_binary b (o2\<lparr>henv := w\<rparr>))
                     | (Undef, w) \<Rightarrow> (Undef, o2\<lparr>henv := w\<rparr>)
                     | (Ret (err, sock), w) \<Rightarrow>
                         (let o3 = o2\<lparr>henv := w\<rparr>
                          in if err \<noteq> 0 then
                               (case with_env (encode_error P rlen (errno_id (api P) err)) o3 of
                                  (r, o4) \<Rightarrow> (r, drop_binary b o4))
                             else
                               (case with_env (encode_atom P rlen ''ok'') (become_client P c so sock o3) of
                                  (r, o4) \<Rightarrow> (r, drop_binary b o4)))))))"

text \<open>The new listener takes the port over; its constructor may throw, which nothing catches.\<close>

definition become_listener ::
  "'q platform \<Rightarrow> 'q opener \<Rightarrow> SockOpts \<Rightarrow> int \<Rightarrow> 'q main_obj \<Rightarrow> unit cpp \<times> 'q main_obj" where
  "become_listener P c so sock o1 =
     (case Listener_new (op_id c) (ioq o1) (henv o1) (op_myaddr c) sock so of
        Throw e \<Rightarrow> (Throw e, o1)
      | Undef \<Rightarrow> (Undef, o1)
      | Ret l \<Rightarrow>
          (let l1 = set_port (port o1) l;
               o2 = clear_port (o1\<lparr>henv := henv l1\<rparr>)
           in (Ret (), o2\<lparr>delegatee := Some (ListD (l1\<lparr>henv := henv o2\<rparr>))\<rparr>)))"

definition listen ::
  "'q platform \<Rightarrow> 'q opener \<Rightarrow> byte list \<Rightarrow> nat \<Rightarrow> 'q main_obj \<Rightarrow> ctl cpp \<times> 'q main_obj" where
  "listen P c buf rlen o1 =
     (case parse_arg P buf o1 of
        (ParseBadArg, b, o2) \<Rightarrow> (Ret CtlBadArg, drop_binary b o2)
      | (ParseUndef, b, o2) \<Rightarrow> (Undef, o2)
      | (ParseOk, b, o2) \<Rightarrow>
          (case decode (net P) (bin_bytes b) SockOpts_new of
             Throw e \<Rightarrow> (Throw e, drop_binary b o2)
           | Undef \<Rightarrow> (Undef, o2)
           | Ret (so, _) \<Rightarrow>
               (case choose_socket P c so True (henv o2) of
                  (Throw e, w) \<Rightarrow> (Throw e, drop_binary b (o2\<lparr>henv := w\<rparr>))
                | (Undef, w) \<Rightarrow> (Undef, o2\<lparr>henv := w\<rparr>)
                | (Ret (err, sock), w) \<Rightarrow>
                    (let o3 = o2\<lparr>henv := w\<rparr>
                     in if err \<noteq> 0 then
                          (case with_env (encode_error P rlen (errno_id (api P) err)) o3 of
                             (r, o4) \<Rightarrow> (r, drop_binary b o4))
                        else
                          (case become_listener P c so sock o3 of
                             (Throw e, o4) \<Rightarrow> (Throw e, drop_binary b o4)
                           | (Undef, o4) \<Rightarrow> (Undef, o4)
                           | (Ret _, o4) \<Rightarrow>
                               (case with_env (encode_atom P rlen ''ok'') o4 of
                                  (r, o5) \<Rightarrow> (r, drop_binary b o5)))))))"

text \<open>The dispatch: everything goes to the delegatee, once there is one.\<close>

definition MainHandler_control ::
  "'q platform \<Rightarrow> 'q opener \<Rightarrow> 'q ctl_world \<Rightarrow> nat \<Rightarrow> byte list \<Rightarrow> nat \<Rightarrow> 'q main_obj \<Rightarrow>
   ctl cpp \<times> 'q main_obj" where
  "MainHandler_control P c cw cmd buf rlen o1 =
     (if delegatee o1 \<noteq> None then
        (case delegate (utp_control P cw cmd buf rlen) (Listener_control P (cw_sockname cw) cmd buf rlen) o1 of
           (None, o2) \<Rightarrow> (Undef, o2)
         | (Some r, o2) \<Rightarrow> (r, o2))
      else
        (case command_of cmd of
           UTP_LISTEN \<Rightarrow> listen P c buf rlen o1
         | UTP_CONNECT_START \<Rightarrow> connect_start P c buf rlen o1
         | _ \<Rightarrow> with_env (encode_error P rlen ''enotsup'') o1))"

section \<open>Whatever a start leads to\<close>

text \<open>
  \<open>connect_start\<close> and \<open>listen\<close> have the same course: the argument is parsed into a local \<open>Binary\<close>, a
  socket is chosen, and unless one of many returns was taken the port is handed to a new handler
  and \<open>ok\<close> is answered. What holds \<open>during\<close> the first part, \<open>after\<close> the new handler is there, and in the
  \<open>end\<close> is shown once, from what the few steps do.
\<close>

locale port_start =
  fixes P :: "'q platform"
    and good :: "'q opener \<Rightarrow> bool"
    and during :: "'q main_obj \<Rightarrow> binary \<Rightarrow> 'q main_obj \<Rightarrow> bool"
    and after :: "'q opener \<Rightarrow> command \<Rightarrow> 'q main_obj \<Rightarrow> binary \<Rightarrow> 'q main_obj \<Rightarrow> bool"
    and ended :: "nat \<Rightarrow> 'q opener \<Rightarrow> command \<Rightarrow> 'q main_obj \<Rightarrow> ctl cpp \<Rightarrow> 'q main_obj \<Rightarrow> bool"
  assumes during_connect:
      "delegatee o1 = None \<Longrightarrow> parse_connect P buf o1 = (pr, str, n, b, o2) \<Longrightarrow> during o1 b o2"
    and during_listen: "delegatee o1 = None \<Longrightarrow> parse_arg P buf o1 = (pr, b, o2) \<Longrightarrow> during o1 b o2"
    and during_choose:
      "during o1 b o2 \<Longrightarrow> choose_socket P c so reuse (henv o2) = (rs, w) \<Longrightarrow> during o1 b (o2\<lparr>henv := w\<rparr>)"
    and after_client:
      "good c \<Longrightarrow> during o1 b o2 \<Longrightarrow> choose_socket P c so reuse w = (Ret (0, sock), w') \<Longrightarrow>
       after c UTP_CONNECT_START o1 b (become_client P c so sock o2)"
    and after_listener:
      "good c \<Longrightarrow> during o1 b o2 \<Longrightarrow> choose_socket P c so reuse w = (Ret (0, sock), w') \<Longrightarrow>
       become_listener P c so sock o2 = (Ret (), o3) \<Longrightarrow> after c UTP_LISTEN o1 b o3"
    and ended_early:
      "during o1 b o2 \<Longrightarrow> r = Ret CtlBadArg \<or> r = Undef \<or> (\<exists>e. r = Throw e) \<Longrightarrow>
       ended rlen c k o1 r o2 \<and> ended rlen c k o1 r (drop_binary b o2)"
    and ended_error:
      "during o1 b o2 \<Longrightarrow> err \<noteq> 0 \<Longrightarrow> with_env (encode_error P rlen (errno_id (api P) err)) o2 = (r, o3) \<Longrightarrow>
       ended rlen c k o1 r (drop_binary b o3)"
    and ended_ok:
      "after c k o1 b o2 \<Longrightarrow> with_env (encode_atom P rlen ''ok'') o2 = (r, o3) \<Longrightarrow>
       ended rlen c k o1 r (drop_binary b o3)"
    and ended_unsupported:
      "delegatee o1 = None \<Longrightarrow> with_env (encode_error P rlen ''enotsup'') o1 = (r, o2) \<Longrightarrow> ended rlen c k o1 r o2"
begin

lemma early:
  "during o1 b o2 \<Longrightarrow> ended rlen c k o1 Undef o2"
  "during o1 b o2 \<Longrightarrow> ended rlen c k o1 (Ret CtlBadArg) (drop_binary b o2)"
  "during o1 b o2 \<Longrightarrow> ended rlen c k o1 (Throw e) (drop_binary b o2)"
  using ended_early by blast+

lemma connect_start_ended:
  assumes "delegatee o1 = None" "good c" "connect_start P c buf rlen o1 = (r, o3)"
  shows "ended rlen c UTP_CONNECT_START o1 r o3"
proof -
  obtain pr str n b o2 where p: "parse_connect P buf o1 = (pr, str, n, b, o2)" by (metis prod_cases5)
  note 2 = during_connect [OF assms(1) p]
  note 3 = during_choose [OF 2]
  show ?thesis
    using assms(3) p early [OF 2] early [OF 3] ended_error [OF 3] ended_ok [OF after_client [OF assms(2) 3]]
    by (auto simp: connect_start_def Let_def split: parse.splits cpp.splits prod.splits if_splits)
qed

lemma become_listener_fails: "become_listener P c so sock o1 = (r, o2) \<Longrightarrow> r \<noteq> Ret () \<Longrightarrow> o2 = o1"
  by (auto simp: become_listener_def Let_def split: cpp.splits)

lemma listen_ended:
  assumes "delegatee o1 = None" "good c" "listen P c buf rlen o1 = (r, o3)"
  shows "ended rlen c UTP_LISTEN o1 r o3"
proof -
  obtain pr b o2 where p: "parse_arg P buf o1 = (pr, b, o2)" by (metis prod_cases3)
  note 2 = during_listen [OF assms(1) p]
  note 3 = during_choose [OF 2]
  show ?thesis
    using assms(3) p early [OF 2] early [OF 3] ended_error [OF 3] ended_ok [OF after_listener [OF assms(2) 3]]
    by (auto simp: listen_def Let_def split: parse.splits cpp.splits prod.splits if_splits dest: become_listener_fails)
qed

lemma control_ended:
  assumes "delegatee o1 = None" "good c" "MainHandler_control P c cw cmd buf rlen o1 = (r, o2)"
  shows "ended rlen c (command_of cmd) o1 r o2"
  using assms(3) connect_start_ended [OF assms(1,2)] listen_ended [OF assms(1,2)] ended_unsupported [OF assms(1)]
  by (auto simp: MainHandler_control_def assms(1) split: command.splits)

end

end
