(* ===== verification/Samples.thy ===== *)
theory Samples
  imports Socket_Handler
begin

text \<open>
  Arguments of control calls for the witnesses, and how the sample library of \<open>Coder\<close> reads them.
\<close>

text \<open>A control argument, as the sample library reads it.\<close>

lemma get32_bytes32: "n < 2 ^ 32 \<Longrightarrow> get32 (bytes32 n @ r) = n"
  by (simp add: get32_def be32_bytes32 bytes32_def)

lemma sample_decoder:
  "EiDecoder sample_ei (131 # xs) n = Ret \<lparr>dbuf = 131 # xs, dlen = n, dindex = Suc 0\<rparr>"
  by (simp add: EiDecoder_def sample_ei_def dec_checked_def tagged_def)

lemma sample_type:
  "get32 xs = n \<Longrightarrow> dec_type sample_ei \<lparr>dbuf = 131 # 109 # xs, dlen = m, dindex = Suc 0\<rparr> =
    Ret ((109, n), \<lparr>dbuf = 131 # 109 # xs, dlen = m, dindex = Suc 0\<rparr>)"
  by (simp add: sample_ei_def dec_checked_def dec_type_def)

lemma sample_binary:
  "get32 xs = n \<Longrightarrow> dec_binary sample_ei \<lparr>dbuf = 131 # 109 # xs, dlen = m, dindex = Suc 0\<rparr> =
    Ret (take n (drop 4 xs), \<lparr>dbuf = 131 # 109 # xs, dlen = m, dindex = 6 + n\<rparr>)"
  by (simp add: sample_ei_def dec_checked_def dec_binary_def tagged_def)

lemma sample_parse_arg:
  assumes "length bs < 2 ^ 32"
  shows "parse_arg sample_platform (binary_term bs) h =
    (ParseOk, Some \<lparr>bin_id = n_allocs (henv h), orig_bytes = bs\<rparr>,
     h\<lparr>henv := env_log (AllocBinary (n_allocs (henv h))) (henv h\<lparr>n_allocs := Suc (n_allocs (henv h))\<rparr>)\<rparr>)"
proof -
  note g = get32_bytes32 [OF assms, of bs]
  have d: "drop 4 (bytes32 (length bs) @ bs) = bs" by (simp add: bytes32_def)
  show ?thesis
    by (simp add: parse_arg_def parse_binary_def parse_binary_at_def binary_term_def sample_decoder
      sample_type [OF g] sample_binary [OF g] d binary_decode_def binary_alloc_def binary_reset_def
      alloc_binary_Some binary_new_def ERL_BINARY_EXT_def)
qed
end
