(* ===== verification/Accepting.thy ===== *)
theory Accepting
  imports Listener Connection Samples "HOL-Library.Sublist"
begin

text \<open>
  What a listener promises: a queue of processes. The specification is an abstract queue with five
  events; every operation of the listener refines it, and along every sequence of operations the
  processes are answered at most once, in the order in which they asked.
\<close>

section \<open>The specification\<close>

type_synonym accept_queue = "(pid \<times> byte list option) list"

datatype q_event =
    Join pid "byte list option"
  | Leave "byte list option"
  | Died pid
  | Serve
  | Skip

fun remove_ref :: "byte list option \<Rightarrow> accept_queue \<Rightarrow> accept_queue" where
  "remove_ref r [] = []"
| "remove_ref r (x # xs) = (if snd x = r then xs else x # remove_ref r xs)"

text \<open>The queue after an event, and who is answered.\<close>

fun q_step :: "q_event \<Rightarrow> accept_queue \<Rightarrow> accept_queue \<times> accept_queue" where
  "q_step (Join p r) q = (q @ [(p, r)], [])"
| "q_step (Leave r) q = (remove_ref r q, [])"
| "q_step (Died p) q = (filter (\<lambda>x. fst x \<noteq> p) q, [])"
| "q_step Serve q = (tl q, take 1 q)"
| "q_step Skip q = (q, [])"

definition waiting :: "'q listener \<Rightarrow> accept_queue" where
  "waiting h = map (\<lambda>a. (acc_caller a, binary_data (acc_ref a))) (acceptor_queue h)"

section \<open>Operations of a listener\<close>

text \<open>
  \<open>LControl\<close> carries the command, its argument, the reply buffer's size, and the answer of
  \<open>getsockname\<close>; \<open>LInput\<close> the datagram with the runs of libutp.
\<close>

datatype 'q lst_op =
    LControl nat "byte list" nat "int \<times> int \<times> SockAddr"
  | LInput "'q datagram" "utp_run list"
  | LExit pid
  | LOutput iovec
  | LSetPort nat

fun lst_step :: "'q platform \<Rightarrow> 'q lst_op \<Rightarrow> 'q listener \<Rightarrow> 'q listener" where
  "lst_step P (LControl cmd buf rlen names) h = note_outcome (Listener_control P names cmd buf rlen h)"
| "lst_step P (LInput d rs) h = fst (Listener_input_ready P (d\<lparr>dg_ans := map (run_utp P) rs\<rparr>) h)"
| "lst_step P (LExit p) h = Listener_process_exited p h"
| "lst_step P (LOutput ev) h = Listener_outputv P ev h"
| "lst_step P (LSetPort p) h = set_port p h"

text \<open>
  Which event an operation is: an \<open>accept\<close> joins when its argument is a binary and the process can
  be monitored; a datagram serves the first process when the new socket cannot be connected, or
  when libutp takes the datagram.
\<close>

definition served :: "'q platform \<Rightarrow> 'q datagram \<Rightarrow> 'q listener \<Rightarrow> bool" where
  "served P d h =
     (case dg_recv d of (len, bytes, _) \<Rightarrow>
        0 < len \<and>
        (case open_udp_socket (dg_open d) (my_addr h) True (henv (emit (Lock QueueMutex) h)) of
           (err, sock, w) \<Rightarrow>
             0 \<le> err \<and>
             (case connect_loop (dg_connect d) of
                None \<Rightarrow> False
              | Some (Some e) \<Rightarrow> True
              | Some None \<Rightarrow>
                  fst (offer_datagram (dg_ans d) bytes
                    (Server_new (dg_server d) (dg_queue d) w sock (sockopts h))))))"

fun lst_event :: "'q platform \<Rightarrow> 'q lst_op \<Rightarrow> 'q listener \<Rightarrow> q_event" where
  "lst_event P (LControl cmd buf rlen names) h =
     (case parse_arg P buf h of
        (r, b, h1) \<Rightarrow>
          if r = ParseOk \<and> command_of cmd = UTP_ACCEPT \<and>
             fst (add_monitor (api P) (cur_caller (henv h1)) (hid h1) (henv h1))
          then Join (cur_caller (henv h1)) (binary_data b)
          else if r = ParseOk \<and> command_of cmd = UTP_CANCEL_ACCEPT then Leave (binary_data b)
          else Skip)"
| "lst_event P (LInput d rs) h = (if served P (d\<lparr>dg_ans := map (run_utp P) rs\<rparr>) h then Serve else Skip)"
| "lst_event P (LExit p) h = Died p"
| "lst_event P (LOutput ev) h = Skip"
| "lst_event P (LSetPort p) h = Skip"

section \<open>Operations that leave the queue alone\<close>

definition lquiet :: "'q listener \<Rightarrow> 'q listener \<Rightarrow> bool" where
  "lquiet h h' \<longleftrightarrow> acceptor_queue h' = acceptor_queue h \<and> asyncs (hlog h') = asyncs (hlog h)"

lemma lquiet_refl [simp]: "lquiet h h"
  by (simp add: lquiet_def)

lemma lquiet_trans: "lquiet a b \<Longrightarrow> lquiet b c \<Longrightarrow> lquiet a c"
  by (simp add: lquiet_def)

lemma lquiet_emit [simp]: "async a = [] \<Longrightarrow> lquiet x (emit a h) = lquiet x h"
  by (simp add: lquiet_def)

lemma lquiet_fault [simp]: "lquiet x (fault e h) = lquiet x h"
  by (simp add: lquiet_def)

lemma calm_asyncs: "calm f \<Longrightarrow> asyncs (log (f w)) = asyncs (log w)"
  unfolding calm_def harmless_def by (metis append_Nil2 asyncs_simps(3))

lemma lquiet_env [simp]: "calm f \<Longrightarrow> lquiet x (on_env f h) = lquiet x h"
  by (simp add: lquiet_def calm_asyncs)

lemma calm_drop: "calm (binary_destroy b)"
  by (rule calm_destroy)

lemma lquiet_drop [simp]: "lquiet x (drop_binary b h) = lquiet x h"
  by (simp add: drop_binary_def calm_drop)

lemma calm_with_env: "(\<And>w. only_binaries w (snd (f w))) \<Longrightarrow> lquiet x (snd (with_env f h)) = lquiet x h"
  using calm_asyncs [OF calm_binaries, of "\<lambda>w. snd (f w)" "henv h"]
  by (simp add: lquiet_def snd_with_env)

lemma encode_lquiet [simp]:
  "lquiet x (snd (with_env (encode_plain P rlen ms) h)) = lquiet x h"
  "lquiet x (snd (with_env (encode_errno P rlen e) h)) = lquiet x h"
  "lquiet x (snd (with_env (SockAddr_encode P rlen e a) h)) = lquiet x h"
  "lquiet x (snd (with_env (getopts_reply P so bs rlen) h)) = lquiet x h"
  by (rule calm_with_env, rule encode_plain_env encode_errno_env SockAddr_encode_env getopts_reply_env)+

lemma encode_lquietD:
  "with_env (encode_plain P rlen ms) h = (r, h') \<Longrightarrow> lquiet x h' = lquiet x h"
  "with_env (getopts_reply P so bs rlen) h = (r, h') \<Longrightarrow> lquiet x h' = lquiet x h"
  using encode_lquiet(1) [of x P rlen ms h] encode_lquiet(4) [of x P so bs rlen h] by simp_all

lemma lquiet_parse_arg: "parse_arg P buf h = (r, b, h1) \<Longrightarrow> lquiet h h1"
proof -
  assume p: "parse_arg P buf h = (r, b, h1)"
  obtain w where w: "parse_binary (api P) (ei P) buf binary_new (henv h) = (r, b, w)" "h1 = h\<lparr>henv := w\<rparr>"
    using p by (auto simp: parse_arg_def split: prod.splits)
  then have "only_binaries (henv h) w"
    unfolding parse_binary_def by (metis only_binaries_parse snd_conv)
  then obtain as where "log w = hlog h @ as" "harmless as"
    using harmless_binaries unfolding only_binaries_def by blast
  then show ?thesis using w(2) by (simp add: lquiet_def harmless_def)
qed

lemma lquiet_note [simp]: "lquiet x (note_outcome r) = lquiet x (snd r)"
  by (cases r; cases "fst r") (auto simp: note_outcome_def)

lemma lquiet_emit_read_buffer: "lquiet x (snd (snd (emit_read_buffer D len rcvr q0 h))) = lquiet x h"
  using delivers_emit_read_buffer [of h D len rcvr q0]
  by (auto simp: delivers_def neutral_def lquiet_def)

lemma lquiet_opts [simp]: "lquiet x (h\<lparr>sockopts := so\<rparr>) = lquiet x h"
  by (simp add: lquiet_def)

lemma lquiet_setopts: "lquiet h (snd (SocketHandler_setopts P buf rlen h))"
proof -
  obtain pr b h1 where p: "parse_arg P buf h = (pr, b, h1)" by (metis prod_cases3)
  note q = lquiet_parse_arg [OF p]
  define h3 where "h3 so = (if setopts_send (active (sockopts h1)) (active so) (read_count h1)
    then snd (snd (emit_read_buffer (api P) 0 ToConnected 0 (emit (Lock UtpMutex) (h1\<lparr>sockopts := so\<rparr>))))
    else emit (Lock UtpMutex) (h1\<lparr>sockopts := so\<rparr>))" for so
  have "lquiet h (h3 so)" for so
    using q by (simp add: h3_def lquiet_emit_read_buffer)
  moreover have "SocketHandler_setopts P buf rlen h = (case pr of
      ParseBadArg \<Rightarrow> (Ret CtlBadArg, drop_binary b h1)
    | ParseUndef \<Rightarrow> (Undef, h1)
    | ParseOk \<Rightarrow>
        (case decode_and_merge (net P) (bin_bytes b) (sockopts h1) of
           Throw (InvalidArgument s) \<Rightarrow> (Ret CtlBadArg, drop_binary b h1)
         | Throw e \<Rightarrow> (Throw e, drop_binary b h1)
         | Undef \<Rightarrow> (Undef, h1)
         | Ret so \<Rightarrow>
             (case with_env (encode_plain P rlen [enc_atom (ei P) ''ok'']) (h3 so) of
                (r, h4) \<Rightarrow> (r, drop_binary b (emit (Unlock UtpMutex) h4)))))"
    using p by (cases pr; cases "decode_and_merge (net P) (bin_bytes b) (sockopts h1)")
      (simp_all add: SocketHandler_setopts_def Let_def h3_def)
  ultimately show ?thesis
    using q by (auto simp: encode_lquietD split: parse.splits cpp.splits exn.splits prod.splits)
qed

lemma lquiet_getopts: "lquiet h (snd (getopts P buf rlen h))"
proof -
  obtain pr b h1 where p: "parse_arg P buf h = (pr, b, h1)" by (metis prod_cases3)
  note q = lquiet_parse_arg [OF p]
  then show ?thesis using p by (auto simp: getopts_def encode_lquietD split: parse.splits prod.splits)
qed

lemma lquiet_control:
  assumes "command_of cmd \<noteq> UTP_ACCEPT" "command_of cmd \<noteq> UTP_CANCEL_ACCEPT"
  shows "lquiet h (note_outcome (Listener_control P names cmd buf rlen h))"
  using assms lquiet_setopts lquiet_getopts [of h P buf rlen]
  by (cases "command_of cmd")
    (auto simp: Listener_control_def SocketHandler_control_def Listener_close_def Listener_peername_def
      sockname_def split: prod.splits)

lemma lquiet_refines: "lquiet h h' \<Longrightarrow> waiting h' = waiting h \<and> asyncs (hlog h') = asyncs (hlog h)"
  by (simp add: lquiet_def waiting_def)

section \<open>Operations that change the queue\<close>

lemma cancel_loop_queue:
  "map (\<lambda>a. (acc_caller a, binary_data (acc_ref a))) (fst (cancel_loop ref q w)) =
   remove_ref (binary_data ref) (map (\<lambda>a. (acc_caller a, binary_data (acc_ref a))) q)"
  by (induction ref q w rule: cancel_loop.induct) (auto simp: binary_eq_bytes split: prod.splits)

lemma cancel_loop_asyncs: "asyncs (log (snd (cancel_loop ref q w))) = asyncs (log w)"
  using calm_asyncs [OF calm_del_monitor] calm_asyncs [OF calm_destroy]
  by (induction ref q w rule: cancel_loop.induct) (auto split: prod.splits)

lemma exited_loop_queue:
  "map (\<lambda>a. (acc_caller a, binary_data (acc_ref a))) (fst (exited_loop p q w)) =
   filter (\<lambda>x. fst x \<noteq> p) (map (\<lambda>a. (acc_caller a, binary_data (acc_ref a))) q)"
  by (induction p q w rule: exited_loop.induct) (auto split: prod.splits)

lemma exited_loop_asyncs: "asyncs (log (snd (exited_loop p q w))) = asyncs (log w)"
  using calm_asyncs [OF calm_destroy]
  by (induction p q w rule: exited_loop.induct) (auto split: prod.splits)

text \<open>Refinement of one event, the property of each operation.\<close>

definition refines :: "q_event \<Rightarrow> 'q listener \<Rightarrow> 'q listener \<Rightarrow> bool" where
  "refines ev h h' \<longleftrightarrow>
     waiting h' = fst (q_step ev (waiting h)) \<and>
     asyncs (hlog h') = asyncs (hlog h) @ snd (q_step ev (waiting h))"

lemma refines_Skip: "lquiet h h' \<Longrightarrow> refines Skip h h'"
  using lquiet_refines by (simp add: refines_def)

lemma refines_lquiet: "lquiet h h1 \<Longrightarrow> refines ev h1 h2 \<Longrightarrow> lquiet h2 h3 \<Longrightarrow> refines ev h h3"
  using lquiet_refines [of h h1] lquiet_refines [of h2 h3] by (simp add: refines_def)

lemma exited_refines: "refines (Died p) h (Listener_process_exited p h)"
proof -
  obtain q w where e: "exited_loop p (acceptor_queue h) (env_log (Lock QueueMutex) (henv h)) = (q, w)"
    by fastforce
  have "asyncs (log w) = asyncs (hlog h)"
    using exited_loop_asyncs [of p "acceptor_queue h" "env_log (Lock QueueMutex) (henv h)"] e by simp
  moreover have "waiting (h\<lparr>henv := w, acceptor_queue := q\<rparr>) = filter (\<lambda>x. fst x \<noteq> p) (waiting h)"
    using exited_loop_queue [of p "acceptor_queue h" "env_log (Lock QueueMutex) (henv h)"] e
    by (simp add: waiting_def)
  ultimately show ?thesis
    using e by (simp add: refines_def Listener_process_exited_def with_env_def waiting_def)
qed

lemma lquiet_field [simp]:
  "lquiet h (h1\<lparr>acceptor_queue := q\<rparr>) \<longleftrightarrow> q = acceptor_queue h \<and> asyncs (hlog h1) = asyncs (hlog h)"
  by (simp add: lquiet_def)

lemma cancel_refines:
  assumes "parse_arg P buf h = (ParseOk, b, h1)"
  shows "refines (Leave (binary_data b)) h (snd (cancel_accept P buf h))"
proof -
  obtain q w where e: "cancel_loop b (acceptor_queue h1) (env_log (Lock QueueMutex) (henv h1)) = (q, w)"
    by fastforce
  have "asyncs (log w) = asyncs (hlog h1)"
    using cancel_loop_asyncs [of b "acceptor_queue h1" "env_log (Lock QueueMutex) (henv h1)"] e by simp
  moreover have "waiting (h1\<lparr>henv := w, acceptor_queue := q\<rparr>) = remove_ref (binary_data b) (waiting h1)"
    using cancel_loop_queue [of b "acceptor_queue h1" "env_log (Lock QueueMutex) (henv h1)"] e
    by (simp add: waiting_def)
  ultimately have "refines (Leave (binary_data b)) h1 (h1\<lparr>henv := w, acceptor_queue := q\<rparr>)"
    by (simp add: refines_def)
  then show ?thesis
    using assms e by (simp add: cancel_accept_def with_env_def refines_lquiet [OF lquiet_parse_arg [OF assms]])
qed

lemma add_monitor_lquiet: "lquiet x (snd (with_env (add_monitor D p i) h)) = lquiet x h"
  using calm_asyncs [OF calm_add_monitor, of D p i "henv h"] by (simp add: lquiet_def snd_with_env)

lemma accept_refines:
  assumes p: "parse_arg P buf h = (ParseOk, b, h1)"
  shows "refines (if fst (add_monitor (api P) (cur_caller (henv h1)) (hid h1) (henv h1))
    then Join (cur_caller (henv h1)) (binary_data b) else Skip) h (snd (accept P buf rlen h))"
proof -
  let ?proc = "cur_caller (henv h1)"
  obtain ok h2 where m: "with_env (add_monitor (api P) ?proc (hid h1)) h1 = (ok, h2)" by fastforce
  have ok: "fst (add_monitor (api P) ?proc (hid h1) (henv h1)) = ok"
    using m fst_with_env [of "add_monitor (api P) ?proc (hid h1)" h1] by simp
  have 2: "lquiet h h2"
    using add_monitor_lquiet [of h "api P" ?proc "hid h1" h1] lquiet_parse_arg [OF p] m by simp
  show ?thesis
  proof (cases ok)
    case False
    then show ?thesis
      using 2 m p ok by (simp add: accept_def refines_Skip)
  next
    case True
    obtain ref h3 where c: "with_env (binary_copy b) (emit (Lock QueueMutex) h2) = (ref, h3)" by fastforce
    have ref: "ref = b" "acceptor_queue h3 = acceptor_queue h2" "asyncs (hlog h3) = asyncs (hlog h2)"
      using c by (auto simp: with_env_def binary_copy_def split: option.splits)
    define h4 where "h4 = emit (Unlock QueueMutex)
      (h3\<lparr>acceptor_queue := acceptor_queue h3 @ [\<lparr>acc_caller = ?proc, acc_ref = ref\<rparr>]\<rparr>)"
    have "refines (Join ?proc (binary_data b)) h2 h4"
      using ref by (simp add: h4_def refines_def waiting_def)
    moreover obtain r h5 where e: "with_env (encode_plain P rlen
        [enc_tuple_header (ei P) 2, enc_atom (ei P) ''ok'',
         enc_binary (ei P) (bin_bytes b) (int (binary_size b))]) h4 = (r, h5)" by fastforce
    have "snd (accept P buf rlen h) = drop_binary b h5"
      using p m c e True by (simp add: accept_def Let_def h4_def)
    ultimately show ?thesis
      using ok True refines_lquiet [OF 2] e encode_lquietD(1) [OF e] by simp
  qed
qed

section \<open>Datagrams\<close>

lemma muted_asyncs: "muted a b \<Longrightarrow> asyncs (hlog b) = asyncs (hlog a)"
  by (auto simp: muted_def harmless_def)

lemma open_asyncs:
  "open_udp_socket os a r w = (err, s, w') \<Longrightarrow> asyncs (log w') = asyncs (log w)"
  by (auto simp: open_udp_socket_def split: prod.splits if_splits)

lemma offer_asyncs:
  "offer_datagram (map (run_utp P) rs) bytes s = (u, s') \<Longrightarrow> asyncs (hlog s') = asyncs (hlog s)"
  using answers.take_answer_rel [OF answers.runs_ok, of P rs]
  by (fastforce simp: offer_datagram_def async_step_def split: prod.splits)

lemma lquiet_henv: "asyncs (log w) = asyncs (hlog h) \<Longrightarrow> lquiet h (h\<lparr>henv := w\<rparr>)"
  by (simp add: lquiet_def)

lemma lquiet_del_front [simp]: "lquiet x (del_front_monitor h) = lquiet x h"
  by (auto simp: del_front_monitor_def calm_del_monitor split: list.splits)

lemma waiting_Nil: "waiting h = [] \<longleftrightarrow> acceptor_queue h = []"
  by (simp add: waiting_def)

lemma answer_front_refines:
  assumes "acceptor_queue h \<noteq> []" "\<And>p ref. async_term (t p ref) = Some (binary_data ref)"
  shows "refines Serve h (answer_front t h)"
proof -
  obtain a as where a: "acceptor_queue h = a # as" using assms(1) by (cases "acceptor_queue h") auto
  let ?e = "emit (SendTerm (port h) (Proc (acc_caller a)) (t (port h) (acc_ref a))) h"
  have "asyncs (hlog (drop_binary (acc_ref a) ?e)) = asyncs (hlog ?e)"
    using lquiet_drop [of ?e "acc_ref a" ?e] by (simp add: lquiet_def)
  then show ?thesis
    using assms(2) by (simp add: answer_front_def a refines_def waiting_def)
qed

lemma async_terms:
  "async_term (async_error_term P p ref e) = Some (binary_data ref)"
  "async_term (async_ok_term p ref q) = Some (binary_data ref)"
  by (simp_all add: async_error_term_def async_ok_term_def binary_term_data_def binary_data_def)

lemma lquiet_create_port [simp]: "lquiet x (create_port h) = lquiet x h"
  by (simp add: create_port_def)

lemma delete_wrapper_asyncs:
  "asyncs (hlog (delete_wrapper i (delete_utp_handler (emit (CloseFd sock) s)))) = asyncs (hlog s)"
  using muted_asyncs [OF muted_trans [OF muted_delete muted_delete], of "emit (CloseFd sock) s"]
  by (simp add: delete_wrapper_def)

lemma serve_refines:
  assumes q: "acceptor_queue h \<noteq> []" and ans: "dg_ans d = map (run_utp P) rs"
  shows "refines (if fst (offer_datagram (dg_ans d) bytes (new_server d sock h)) then Serve else Skip)
    h (fst (serve_datagram P d sock bytes h))"
proof -
  obtain h' srv where r: "serve_datagram P d sock bytes h = (h', srv)" by fastforce
  have offer: "asyncs (hlog s1) = asyncs (hlog h)"
    if "offer_datagram (dg_ans d) bytes (new_server d sock h) = (u, s1)" for u s1
    using offer_asyncs [of P rs bytes _ u s1] that ans by (simp add: Server_new_def UtpHandler_new_def)
  from r show ?thesis
  proof (cases rule: serve_datagram_cases)
    case (refused s1 s2)
    have "lquiet h h'"
      unfolding refused(3) by (rule lquiet_henv) (simp add: refused(2) delete_wrapper_asyncs offer [OF refused(1)])
    then show ?thesis by (simp add: r refused(1) refines_Skip)
  next
    case (accepted s1 h3 s2)
    have 1: "lquiet h (h\<lparr>henv := henv s1\<rparr>)" by (rule lquiet_henv [OF offer [OF accepted(1)]])
    then have h3: "lquiet h h3" by (simp add: accepted(2))
    have "asyncs (hlog s2) = asyncs (hlog h3)"
      using muted_asyncs [OF muted_set_port [of "touch (s1\<lparr>henv := henv h3\<rparr>)" "dg_port d"]]
      by (simp add: accepted(3) touch_def)
    then have h4: "lquiet h (h3\<lparr>henv := henv s2\<rparr>)" by (rule lquiet_trans [OF h3 lquiet_henv])
    have "refines Serve (h3\<lparr>henv := henv s2\<rparr>) h'"
      unfolding accepted(4) by (rule answer_front_refines) (use q h3 in \<open>simp_all add: lquiet_def async_terms\<close>)
    then show ?thesis using refines_lquiet [OF h4] by (simp add: r accepted(1))
  qed
qed

lemma input_refines:
  assumes ans: "dg_ans d = map (run_utp P) rs"
  shows "refines (if served P d h then Serve else Skip) h (fst (Listener_input_ready P d h))"
proof -
  obtain h' srv where r: "Listener_input_ready P d h = (h', srv)" by fastforce
  have u: "refines ev h (emit (Unlock QueueMutex) x) = refines ev h x" for ev x
    by (simp add: refines_def waiting_def)
  have opened: "lquiet h (h\<lparr>henv := w\<rparr>)"
    if "open_udp_socket (dg_open d) (my_addr h) True (henv (emit (Lock QueueMutex) h)) = (err, sock, w)" for err sock w
    by (rule lquiet_henv) (use open_asyncs [OF that] in simp)
  from r show ?thesis
  proof (cases rule: Listener_input_cases)
    case nothing
    then show ?thesis by (auto simp: r served_def refines_Skip split: prod.split)
  next
    case nobody
    then have "refines Serve h h'" "refines Skip h h'" by (simp_all add: refines_def waiting_def)
    then show ?thesis by (simp add: r)
  next
    case (unopened err sock w)
    then show ?thesis using opened by (auto simp: r served_def refines_Skip u split: prod.split)
  next
    case (looping err sock w)
    then show ?thesis using opened by (auto simp: r served_def refines_Skip split: prod.split)
  next
    case (unconnected err sock w e h3)
    let ?h = "del_front_monitor (emit (CloseFd sock) (h\<lparr>henv := w\<rparr>))"
    have "lquiet h ?h" using opened [OF unconnected(3)] by simp
    moreover from this have "acceptor_queue ?h \<noteq> []" using unconnected(2) by (simp add: lquiet_def)
    ultimately have "refines Serve h h3"
      unfolding unconnected(6) by (intro refines_lquiet [OF _ answer_front_refines lquiet_refl] async_terms)
    moreover have "served P d h" using unconnected(1,3,4,5) by (auto simp: served_def split: prod.split)
    ultimately show ?thesis by (simp add: r unconnected(7) u)
  next
    case (serving err sock w bytes h3 s)
    have "served P d h = fst (offer_datagram (dg_ans d) bytes (new_server d sock (h\<lparr>henv := w\<rparr>)))"
      using serving(1,3,4,5,6) by (auto simp: served_def split: prod.split)
    moreover have "refines (if fst (offer_datagram (dg_ans d) bytes (new_server d sock (h\<lparr>henv := w\<rparr>))) then Serve else Skip) h h3"
      using refines_lquiet [OF opened [OF serving(3)] serve_refines [OF _ ans, of "h\<lparr>henv := w\<rparr>" bytes sock] lquiet_refl]
        serving(2,7) by simp
    ultimately show ?thesis by (simp add: r serving(8) u)
  qed
qed

section \<open>Properties of a listener\<close>

lemma refines_note [simp]: "refines ev h (note_outcome r) = refines ev h (snd r)"
proof -
  have "waiting (note_outcome r) = waiting (snd r)" "hlog (note_outcome r) = hlog (snd r)"
    by (cases r; cases "fst r"; auto simp: note_outcome_def waiting_def)+
  then show ?thesis by (simp add: refines_def)
qed

lemma step_refines: "refines (lst_event P op h) h (lst_step P op h)"
proof (cases op)
  case (LControl cmd buf rlen names)
  obtain r b h1 where p: "parse_arg P buf h = (r, b, h1)" by (metis prod_cases3)
  consider "command_of cmd = UTP_ACCEPT" | "command_of cmd = UTP_CANCEL_ACCEPT"
    | "command_of cmd \<noteq> UTP_ACCEPT" "command_of cmd \<noteq> UTP_CANCEL_ACCEPT" by blast
  then show ?thesis
  proof cases
    case 1
    have "lquiet h (snd (accept P buf rlen h))" if "r \<noteq> ParseOk"
      using that p lquiet_parse_arg [OF p] by (cases r) (auto simp: accept_def)
    then show ?thesis
      using 1 p accept_refines [of P buf h b h1 rlen] LControl
      by (cases "r = ParseOk") (auto simp: Listener_control_def refines_Skip)
  next
    case 2
    have "lquiet h (snd (cancel_accept P buf h))" if "r \<noteq> ParseOk"
      using that p lquiet_parse_arg [OF p] by (cases r) (auto simp: cancel_accept_def)
    then show ?thesis
      using 2 p cancel_refines [of P buf h b h1] LControl
      by (cases "r = ParseOk") (auto simp: Listener_control_def refines_Skip)
  next
    case 3
    then show ?thesis
      using lquiet_control [OF 3, of h P names buf rlen] LControl p by (simp add: refines_Skip)
  qed
next
  case (LInput d rs)
  then show ?thesis using input_refines [of "d\<lparr>dg_ans := map (run_utp P) rs\<rparr>" P rs h] by simp
next
  case (LExit p)
  then show ?thesis by (simp add: exited_refines)
next
  case (LOutput ev)
  have "calm (send_not_connected P (port h))"
    by (auto simp: calm_def send_not_connected_def harmless_def not_connected_term_def)
  then show ?thesis using LOutput by (simp add: refines_Skip Listener_outputv_def)
next
  case (LSetPort p)
  have "lquiet h (Handler_set_port p h)"
    by (simp add: Handler_set_port_def lquiet_def Let_def)
  then show ?thesis
    using LSetPort by (auto simp: set_port_def Let_def calm_start_input lquiet_def calm_asyncs
        intro!: refines_Skip)
qed

text \<open>C10: a listener refines a queue. Each operation changes the queue of waiting processes and sends
  answers exactly as the abstract event says: \<open>accept\<close> joins at the end, \<open>cancel_accept\<close> removes
  the first entry with that reference, the exit of a process removes all its entries, and a
  datagram answers and removes the first entry, or does nothing.\<close>

theorem listener_refines_queue:
  "waiting (lst_step P op h) = fst (q_step (lst_event P op h) (waiting h)) \<and>
   asyncs (hlog (lst_step P op h)) = asyncs (hlog h) @ snd (q_step (lst_event P op h) (waiting h))"
  using step_refines unfolding refines_def .

fun lst_run :: "'q platform \<Rightarrow> 'q lst_op list \<Rightarrow> 'q listener \<Rightarrow> 'q listener" where
  "lst_run P [] h = h"
| "lst_run P (op # ops) h = lst_run P ops (lst_step P op h)"

fun joins :: "q_event \<Rightarrow> accept_queue" where
  "joins (Join p r) = [(p, r)]"
| "joins _ = []"

text \<open>The calls of \<open>accept\<close> that were granted, in order.\<close>

fun joined :: "'q platform \<Rightarrow> 'q lst_op list \<Rightarrow> 'q listener \<Rightarrow> accept_queue" where
  "joined P [] h = []"
| "joined P (op # ops) h = joins (lst_event P op h) @ joined P ops (lst_step P op h)"

lemma subseq_remove_ref: "subseq (remove_ref r q) q"
  by (induction r q rule: remove_ref.induct) auto

lemma q_step_subseq: "subseq (snd (q_step ev q) @ fst (q_step ev q)) (q @ joins ev)"
proof (cases ev)
  case Serve
  then show ?thesis by (cases q) auto
next
  case (Leave r)
  then show ?thesis by (simp add: subseq_remove_ref)
next
  case (Died p)
  then show ?thesis by (simp add: subseq_filter_left)
qed auto

lemma lst_run_fifo:
  "\<exists>ans. asyncs (hlog (lst_run P ops h)) = asyncs (hlog h) @ ans \<and>
     subseq (ans @ waiting (lst_run P ops h)) (waiting h @ joined P ops h)"
proof (induction ops arbitrary: h)
  case (Cons op ops)
  let ?h = "lst_step P op h" and ?ev = "lst_event P op h"
  note r = step_refines [of P op h, unfolded refines_def]
  obtain ans where a: "asyncs (hlog (lst_run P ops ?h)) = asyncs (hlog ?h) @ ans"
    "subseq (ans @ waiting (lst_run P ops ?h)) (waiting ?h @ joined P ops ?h)"
    using Cons by blast
  let ?ans = "snd (q_step ?ev (waiting h))"
  have "subseq ((?ans @ ans) @ waiting (lst_run P ops ?h)) (?ans @ waiting ?h @ joined P ops ?h)"
    using a(2) by (simp add: list_emb_append_mono)
  moreover have "subseq ((?ans @ waiting ?h) @ joined P ops ?h) ((waiting h @ joins ?ev) @ joined P ops ?h)"
  proof (rule list_emb_append_mono)
    show "subseq (?ans @ waiting ?h) (waiting h @ joins ?ev)"
      using q_step_subseq [of ?ev "waiting h"] r by simp
  qed simp
  ultimately have "subseq ((?ans @ ans) @ waiting (lst_run P ops ?h)) (waiting h @ joined P (op # ops) h)"
    by (simp add: subseq_order.trans)
  then show ?case using a(1) r by (intro exI [of _ "?ans @ ans"]) simp
qed simp

text \<open>C9: fairness of \<open>accept\<close>: along every sequence of operations on a listener, with whatever
  datagrams, cancellations and exits, the answers sent followed by those still waiting form a
  subsequence of the granted calls of \<open>accept\<close>. So every call is answered at most once, never
  after it has left the queue, and calls are answered in the order in which they were made.\<close>

theorem accept_in_order:
  "waiting h = [] \<Longrightarrow>
   \<exists>ans. asyncs (hlog (lst_run P ops h)) = asyncs (hlog h) @ ans \<and>
     subseq (ans @ waiting (lst_run P ops h)) (joined P ops h)"
  using lst_run_fifo [of P ops h] by simp

text \<open>C13: a datagram that libutp refuses leaves the new server deleted twice: \<open>input_ready\<close> deletes
  it, and then deletes the \<open>MainHandler\<close> that wraps it, whose destructor deletes it again.\<close>

theorem refused_datagram_deletes_twice:
  "serve_datagram P d sock bytes h = (h', r) \<Longrightarrow>
   \<not> fst (offer_datagram (dg_ans d) bytes
     (Server_new (dg_server d) (dg_queue d) (henv h) sock (sockopts h))) \<Longrightarrow>
   \<exists>s. r = Some s \<and> DoubleFree \<in> set (faults s)"
proof -
  have "DoubleFree \<in> set (faults (delete_utp_handler (delete_utp_handler s)))" for s :: "'a utp_handler"
    by (auto simp: delete_utp_handler_def delete_this_def UtpHandler_destroy_def
        SocketHandler_destroy_def Handler_destroy_def)
  then show "serve_datagram P d sock bytes h = (h', r) \<Longrightarrow>
      \<not> fst (offer_datagram (dg_ans d) bytes
        (Server_new (dg_server d) (dg_queue d) (henv h) sock (sockopts h))) \<Longrightarrow>
      \<exists>s. r = Some s \<and> DoubleFree \<in> set (faults s)"
    by (auto simp: serve_datagram_def delete_wrapper_def Let_def split: prod.splits)
qed

text \<open>C14: \<open>open_udp_socket\<close> returns 0 exactly when the socket was opened and bound, and closes the
  socket whenever a later step fails. Its other results are error numbers, which are positive, so
  the test \<open>open_udp_socket(...) < 0\<close> of \<open>Listener::input_ready\<close> never holds.\<close>

theorem open_udp_socket_result:
  "open_udp_socket os a reuse w = (err, s, w') \<Longrightarrow>
   (\<And>x. fst (os_socket os x) < 0 \<Longrightarrow> 0 < snd (os_socket os x)) \<Longrightarrow>
   (\<And>x. fst (os_fcntl os x) < 0 \<Longrightarrow> 0 < snd (os_fcntl os x)) \<Longrightarrow>
   (\<And>x. fst (os_reuse os x) < 0 \<Longrightarrow> 0 < snd (os_reuse os x)) \<Longrightarrow>
   (\<And>x y. fst (os_bind os x y) < 0 \<Longrightarrow> 0 < snd (os_bind os x y)) \<Longrightarrow>
   0 \<le> err \<and>
   (err = 0 \<longleftrightarrow> 0 \<le> fst (os_socket os (sa_family_of a)) \<and> 0 \<le> fst (os_fcntl os s) \<and>
      (reuse \<longrightarrow> 0 \<le> fst (os_reuse os s)) \<and> 0 \<le> fst (os_bind os s a)) \<and>
   (err = 0 \<longrightarrow> 0 \<le> s \<and> w' = w) \<and>
   (err \<noteq> 0 \<longrightarrow> w' = (if s < 0 then w else env_log (CloseFd s) w))"
proof -
  assume r: "open_udp_socket os a reuse w = (err, s, w')"
    and os: "\<And>x. fst (os_socket os x) < 0 \<Longrightarrow> 0 < snd (os_socket os x)"
      "\<And>x. fst (os_fcntl os x) < 0 \<Longrightarrow> 0 < snd (os_fcntl os x)"
      "\<And>x. fst (os_reuse os x) < 0 \<Longrightarrow> 0 < snd (os_reuse os x)"
      "\<And>x y. fst (os_bind os x y) < 0 \<Longrightarrow> 0 < snd (os_bind os x y)"
  obtain s0 e0 where s0: "os_socket os (sa_family_of a) = (s0, e0)" by fastforce
  consider "s0 < 0" | "0 \<le> s0" "fst (os_fcntl os s0) < 0"
    | "0 \<le> s0" "0 \<le> fst (os_fcntl os s0)" "reuse" "fst (os_reuse os s0) < 0"
    | "0 \<le> s0" "0 \<le> fst (os_fcntl os s0)" "reuse \<longrightarrow> 0 \<le> fst (os_reuse os s0)" "fst (os_bind os s0 a) < 0"
    | "0 \<le> s0" "0 \<le> fst (os_fcntl os s0)" "reuse \<longrightarrow> 0 \<le> fst (os_reuse os s0)" "0 \<le> fst (os_bind os s0 a)"
    by linarith
  then show ?thesis
    using r os(1) [of "sa_family_of a"] os(2) [of s0] os(3) [of s0] os(4) [of s0 a] s0
    by cases (auto simp: open_udp_socket_def)
qed
section \<open>A sample listener\<close>

definition sample_listener :: "byte list list listener" where
  "sample_listener =
     \<lparr>hid = 3, port = 9, ioq = [], henv = env0\<lparr>main := Some (empty_main 1 7)\<rparr>, faults = [], deleted = False,
      read_count = [], sockopts = SockOpts_new, udp_sock = 4, close_pending = False, selected = False,
      acceptor_queue = [], my_addr = SockAddr_in [0, 0, 0, 0] 0\<rparr>"

definition sample_open :: os_open where
  "sample_open = \<lparr>os_socket = (\<lambda>_. (5, 0)), os_fcntl = (\<lambda>_. (0, 0)), os_reuse = (\<lambda>_. (0, 0)),
                  os_bind = (\<lambda>_ _. (0, 0))\<rparr>"

definition sample_datagram :: "byte list list datagram" where
  "sample_datagram =
     \<lparr>dg_recv = (3, [1, 2, 3], SockAddr_in [127, 0, 0, 1] 80), dg_open = sample_open,
      dg_connect = [(-1, EINTR), (0, 0)], dg_ans = [], dg_port = 11, dg_queue = [], dg_server = 4, dg_main = 5\<rparr>"

definition sample_lst_ops :: "byte list list lst_op list" where
  "sample_lst_ops =
     [LControl 2 (binary_term [1, 2]) 100 (0, 0, SockAddr_in [0, 0, 0, 0] 0),
      LInput sample_datagram [UtpRun 1 [(CbIncoming 6, [])]]]"
lemma sample_join: "lst_event sample_platform (hd sample_lst_ops) sample_listener = Join 1 (Some [1, 2])"
proof -
  have m: "fst (add_monitor chunk_api 1 3 (env_log (AllocBinary 0)
      (env0\<lparr>main := Some (empty_main 1 7), n_allocs := Suc 0\<rparr>)))"
    by code_simp
  have "n_allocs env0 = 0" "cur_caller env0 = 1" by code_simp+
  then show ?thesis
    using m by (simp add: sample_lst_ops_def sample_parse_arg command_of_def sample_listener_def binary_data_def)
qed

theorem listener_refines_queue_witness:
  "waiting (lst_step sample_platform (hd sample_lst_ops) sample_listener) = [(1, Some [1, 2])]"
proof -
  have "waiting sample_listener = []" by (simp add: sample_listener_def waiting_def)
  then show ?thesis
    using listener_refines_queue [of sample_platform "hd sample_lst_ops" sample_listener] sample_join by simp
qed

theorem accept_in_order_witness:
  "\<exists>ans. asyncs (hlog (lst_run sample_platform sample_lst_ops sample_listener)) = ans \<and>
     subseq (ans @ waiting (lst_run sample_platform sample_lst_ops sample_listener)) [(1, Some [1, 2])]"
proof -
  have w: "waiting sample_listener = []" "asyncs (hlog sample_listener) = []"
    by (simp_all add: sample_listener_def waiting_def env0_def)
  have "joined sample_platform sample_lst_ops sample_listener = [(1, Some [1, 2])]"
    using sample_join by (simp add: sample_lst_ops_def del: lst_event.simps(1))
  then show ?thesis
    using accept_in_order [OF w(1), of sample_platform sample_lst_ops] w(2) by simp
qed

theorem refused_datagram_deletes_twice_witness:
  "\<exists>s. snd (serve_datagram sample_platform sample_datagram 5 [1, 2, 3] sample_listener) = Some s \<and>
     DoubleFree \<in> set (faults s)"
proof -
  obtain h' r where r: "serve_datagram sample_platform sample_datagram 5 [1, 2, 3] sample_listener = (h', r)"
    by fastforce
  have "\<not> fst (offer_datagram (dg_ans sample_datagram) [1, 2, 3] (Server_new (dg_server sample_datagram)
      (dg_queue sample_datagram) (henv sample_listener) 5 (sockopts sample_listener)))"
    by (simp add: sample_datagram_def offer_datagram_def take_answer_def)
  then show ?thesis using refused_datagram_deletes_twice [OF r] r by simp
qed

theorem open_udp_socket_result_witness:
  "fst (open_udp_socket (sample_open\<lparr>os_bind := \<lambda>_ _. (-1, 98)\<rparr>) (my_addr sample_listener) True env0) = 98 \<and>
   snd (snd (open_udp_socket (sample_open\<lparr>os_bind := \<lambda>_ _. (-1, 98)\<rparr>) (my_addr sample_listener) True env0)) =
     env_log (CloseFd 5) env0"
proof -
  let ?os = "sample_open\<lparr>os_bind := \<lambda>_ _. (-1, 98)\<rparr>"
  have "open_udp_socket ?os (my_addr sample_listener) True env0 = (98, 5, env_log (CloseFd 5) env0)"
    by (simp add: open_udp_socket_def sample_open_def)
  note r = this
  show ?thesis
    using open_udp_socket_result [OF r] unfolding r by (simp add: sample_open_def)
qed

end
