(* ===== verification/Driver.thy ===== *)
theory Driver
  imports Main_Handler Accepting
begin

text \<open>
  The driver as the Erlang runtime sees it (\<open>utpdrv.cc\<close>): the table of callbacks, over the set of
  all port objects. This is where the components meet: a callback reaches the object behind its
  port, which delegates; input and process exits arrive at the singleton and are dispatched
  through its tables to the handler of another port; libutp's timer works on every connection.
\<close>

section \<open>The state of the driver\<close>

text \<open>
  The shared state, the \<open>MainHandler\<close> objects that have been created, in order, and what went
  wrong outside any handler.
\<close>

record 'q driver =
  dr_env :: env
  dr_objs :: "'q main_obj list"
  dr_faults :: "fault list"

fun find_obj :: "handler_id \<Rightarrow> 'q main_obj list \<Rightarrow> 'q main_obj option" where
  "find_obj i [] = None"
| "find_obj i (o1 # os) = (if hid o1 = i then Some o1 else find_obj i os)"

fun put_obj :: "'q main_obj \<Rightarrow> 'q main_obj list \<Rightarrow> 'q main_obj list" where
  "put_obj o1 [] = []"
| "put_obj o1 (o2 # os) = (if hid o2 = hid o1 then o1 # os else o2 # put_obj o1 os)"

text \<open>The object whose delegatee is the handler a pointer of the tables refers to.\<close>

definition delegates_to :: "handler_id \<Rightarrow> 'q main_obj \<Rightarrow> bool" where
  "delegates_to i o1 \<longleftrightarrow> (case delegatee o1 of None \<Rightarrow> False | Some d \<Rightarrow> delegate_hid d = i)"

fun find_delegate :: "handler_id \<Rightarrow> 'q main_obj list \<Rightarrow> 'q main_obj option" where
  "find_delegate i [] = None"
| "find_delegate i (o1 # os) = (if delegates_to i o1 then Some o1 else find_delegate i os)"

definition dr_fault :: "fault \<Rightarrow> 'q driver \<Rightarrow> 'q driver" where
  "dr_fault x s = s\<lparr>dr_faults := dr_faults s @ [x]\<rparr>"

text \<open>Work on one object, in the shared state.\<close>

definition with_obj ::
  "handler_id \<Rightarrow> ('q main_obj \<Rightarrow> 'r \<times> 'q main_obj) \<Rightarrow> 'q driver \<Rightarrow> 'r option \<times> 'q driver" where
  "with_obj i f s =
     (case find_obj i (dr_objs s) of
        None \<Rightarrow> (None, dr_fault UseAfterFree s)
      | Some o1 \<Rightarrow>
          (case f (o1\<lparr>henv := dr_env s\<rparr>) of
             (r, o2) \<Rightarrow> (Some r, s\<lparr>dr_env := henv o2, dr_objs := put_obj o2 (dr_objs s)\<rparr>)))"

definition on_obj :: "handler_id \<Rightarrow> ('q main_obj \<Rightarrow> 'q main_obj) \<Rightarrow> 'q driver \<Rightarrow> 'q driver" where
  "on_obj i f s = snd (with_obj i (\<lambda>o1. ((), f o1)) s)"

text \<open>Work on the handler that a table entry points to.\<close>

definition on_handler ::
  "handler_id \<Rightarrow> ('q utp_handler \<Rightarrow> 'q utp_handler) \<Rightarrow> ('q listener \<Rightarrow> 'q listener) \<Rightarrow>
   'q driver \<Rightarrow> 'q driver" where
  "on_handler i f g s =
     (case find_delegate i (dr_objs s) of
        None \<Rightarrow> dr_fault UseAfterFree s
      | Some o1 \<Rightarrow>
          on_obj (hid o1) (\<lambda>o2. snd (delegate (\<lambda>h. ((), f h)) (\<lambda>h. ((), g h)) o2)) s)"

definition log_to :: "action \<Rightarrow> 'q driver \<Rightarrow> 'q driver" where
  "log_to a s = s\<lparr>dr_env := env_log a (dr_env s)\<rparr>"

section \<open>The callbacks\<close>

text \<open>Loading and unloading the driver: the mutex of libutp exists in between.\<close>

definition driver_init :: "'q driver \<Rightarrow> int \<times> 'q driver" where
  "driver_init s = (0, log_to (CreateMutex UtpMutex) s)"

definition driver_finish :: "'q driver \<Rightarrow> 'q driver" where
  "driver_finish s = log_to (DestroyMutex UtpMutex) s"

definition utp_init :: "'q driver \<Rightarrow> int \<times> 'q driver" where
  "utp_init s = driver_init s"

definition utp_finish :: "'q driver \<Rightarrow> 'q driver" where
  "utp_finish s = driver_finish s"

definition utp_start :: "handler_id \<Rightarrow> nat \<Rightarrow> 'q \<Rightarrow> 'q driver \<Rightarrow> 'q driver" where
  "utp_start i p q s =
     (let drv = start (MainHandler_new i p q (dr_env s))
      in s\<lparr>dr_env := henv drv, dr_objs := dr_objs s @ [drv]\<rparr>)"

definition utp_stop :: "'q platform \<Rightarrow> 'q answers \<Rightarrow> handler_id \<Rightarrow> 'q driver \<Rightarrow> 'q driver" where
  "utp_stop P ans i s = on_obj i (MainHandler_stop P ans) s"

text \<open>The timer: the mutex is held while libutp makes callbacks to any of the connections.\<close>

fun timeout_work ::
  "'q platform \<Rightarrow> (handler_id \<times> (callback \<times> utp_run list) list) list \<Rightarrow> 'q driver \<Rightarrow> 'q driver" where
  "timeout_work P [] s = s"
| "timeout_work P ((i, cbs) # work) s = timeout_work P work (on_handler i (run_cbs P cbs) id s)"

definition check_utp_timeouts ::
  "'q platform \<Rightarrow> (handler_id \<times> (callback \<times> utp_run list) list) list \<Rightarrow> 'q driver \<Rightarrow> 'q driver" where
  "check_utp_timeouts P work s =
     (if main (dr_env s) \<noteq> None then
        (let s1 = log_to (UtpCall UTP_CheckTimeouts) (log_to (Lock UtpMutex) s);
             s2 = timeout_work P work s1
         in log_to (Unlock UtpMutex) (log_to (SetTimer timeout_check) s2))
      else s)"

definition utp_check_timeouts ::
  "'q platform \<Rightarrow> (handler_id \<times> (callback \<times> utp_run list) list) list \<Rightarrow> handler_id \<Rightarrow> 'q driver \<Rightarrow> 'q driver" where
  "utp_check_timeouts P work i s =
     (case find_obj i (dr_objs s) of
        None \<Rightarrow> dr_fault UseAfterFree s
      | Some _ \<Rightarrow> check_utp_timeouts P work s)"

definition utp_outputv :: "'q platform \<Rightarrow> 'q answers \<Rightarrow> iovec \<Rightarrow> handler_id \<Rightarrow> 'q driver \<Rightarrow> 'q driver" where
  "utp_outputv P ans ev i s = on_obj i (MainHandler_outputv P ans ev) s"

definition utp_control_cb ::
  "'q platform \<Rightarrow> 'q opener \<Rightarrow> 'q ctl_world \<Rightarrow> nat \<Rightarrow> byte list \<Rightarrow> nat \<Rightarrow> handler_id \<Rightarrow> 'q driver \<Rightarrow> 'q driver" where
  "utp_control_cb P c cw cmd buf rlen i s =
     on_obj i (\<lambda>o1. note_outcome (MainHandler_control P c cw cmd buf rlen o1)) s"

text \<open>
  Input on a socket: what a connection reads, and what a listener gets. A new server comes with
  the \<open>MainHandler\<close> that wraps it.
\<close>

definition listener_input :: "'q platform \<Rightarrow> 'q datagram \<Rightarrow> handler_id \<Rightarrow> 'q driver \<Rightarrow> 'q driver" where
  "listener_input P d i s =
     (case find_delegate i (dr_objs s) of
        None \<Rightarrow> dr_fault UseAfterFree s
      | Some o1 \<Rightarrow>
          (case with_obj (hid o1) (delegate (\<lambda>h. (None, h))
                  (\<lambda>h. case Listener_input_ready P d h of (h', srv) \<Rightarrow> (srv, h'))) s of
             (r, s1) \<Rightarrow>
               (case r of
                  Some (Some (Some srv)) \<Rightarrow>
                    s1\<lparr>dr_objs := dr_objs s1 @ [MainHandler_wrap (dg_main d) (ConnD srv) (dg_queue d) (dr_env s1)]\<rparr>
                | _ \<Rightarrow> s1)))"

definition dispatch_input ::
  "'q platform \<Rightarrow> 'q answers \<Rightarrow> int \<times> byte list \<Rightarrow> 'q datagram \<Rightarrow> handler_id \<Rightarrow> 'q driver \<Rightarrow> 'q driver" where
  "dispatch_input P ans os d i s =
     (case find_delegate i (dr_objs s) of
        None \<Rightarrow> dr_fault UseAfterFree s
      | Some o1 \<Rightarrow>
          (case delegatee o1 of
             Some (ListD _) \<Rightarrow> listener_input P d i s
           | _ \<Rightarrow> on_handler i (input_ready P ans os) id s))"

text \<open>Both lookups happen in the object that the runtime calls; then another one's handler is called.\<close>

definition ready_input ::
  "'q platform \<Rightarrow> 'q answers \<Rightarrow> int \<times> byte list \<Rightarrow> 'q datagram \<Rightarrow> int \<Rightarrow> handler_id \<Rightarrow> 'q driver \<Rightarrow> 'q driver" where
  "ready_input P ans os d fd i s =
     (case with_obj i (find_input fd) s of
        (Some (Some k), s1) \<Rightarrow> dispatch_input P ans os d k s1
      | (_, s1) \<Rightarrow> s1)"

definition utp_ready_input ::
  "'q platform \<Rightarrow> 'q answers \<Rightarrow> int \<times> byte list \<Rightarrow> 'q datagram \<Rightarrow> int \<Rightarrow> handler_id \<Rightarrow> 'q driver \<Rightarrow> 'q driver" where
  "utp_ready_input P ans os d event i s = ready_input P ans os d event i s"

definition process_exit :: "monitor \<Rightarrow> pid \<Rightarrow> handler_id \<Rightarrow> 'q driver \<Rightarrow> 'q driver" where
  "process_exit mon proc i s =
     (case with_obj i (find_exit mon proc) s of
        (Some (Some k), s1) \<Rightarrow> on_handler k (Handler_process_exited proc) (Listener_process_exited proc) s1
      | (_, s1) \<Rightarrow> s1)"

definition utp_process_exit :: "monitor \<Rightarrow> pid \<Rightarrow> handler_id \<Rightarrow> 'q driver \<Rightarrow> 'q driver" where
  "utp_process_exit mon proc i s = process_exit mon proc i s"

definition utp_stop_select :: "int \<Rightarrow> 'q driver \<Rightarrow> 'q driver" where
  "utp_stop_select fd s = s\<lparr>dr_env := env_log (CloseFd fd) (dr_env s)\<rparr>"

section \<open>Runs of the driver\<close>

text \<open>
  The calls of the runtime, with what the surroundings answer. \<open>Caller\<close> changes the process that
  \<open>driver_caller\<close> reports, and the owner of a port.
\<close>

datatype 'q drv_call =
    Init
  | Finish
  | Start handler_id nat 'q
  | StopPort "utp_run list" handler_id
  | Timeouts "(handler_id \<times> (callback \<times> utp_run list) list) list" handler_id
  | OutputV "utp_run list" iovec handler_id
  | ControlCall "'q opener" "utp_run list" "int \<times> int \<times> SockAddr" "int \<times> SockAddr" nat "byte list" nat handler_id
  | ReadyInput "utp_run list" "int \<times> byte list" "'q datagram" int handler_id
  | ProcessExit monitor pid handler_id
  | StopSelect int
  | Caller pid "nat \<Rightarrow> pid"

definition runs :: "'q platform \<Rightarrow> utp_run list \<Rightarrow> 'q answers" where
  "runs P rs = map (run_utp P) rs"

fun drv_step :: "'q platform \<Rightarrow> 'q drv_call \<Rightarrow> 'q driver \<Rightarrow> 'q driver" where
  "drv_step P Init s = snd (utp_init s)"
| "drv_step P Finish s = utp_finish s"
| "drv_step P (Start i p q) s = utp_start i p q s"
| "drv_step P (StopPort rs i) s = utp_stop P (runs P rs) i s"
| "drv_step P (Timeouts work i) s = utp_check_timeouts P work i s"
| "drv_step P (OutputV rs ev i) s = utp_outputv P (runs P rs) ev i s"
| "drv_step P (ControlCall c rs names peer cmd buf rlen i) s =
     utp_control_cb P (c\<lparr>op_ans := runs P rs\<rparr>)
       \<lparr>cw_ans = runs P rs, cw_sockname = names, cw_peername = peer\<rparr> cmd buf rlen i s"
| "drv_step P (ReadyInput rs os d fd i) s =
     utp_ready_input P (runs P rs) os (d\<lparr>dg_ans := runs P rs\<rparr>) fd i s"
| "drv_step P (ProcessExit mon proc i) s = utp_process_exit mon proc i s"
| "drv_step P (StopSelect fd) s = utp_stop_select fd s"
| "drv_step P (Caller p f) s = s\<lparr>dr_env := (dr_env s)\<lparr>cur_caller := p, connected_pid := f\<rparr>\<rparr>"

fun drv_run :: "'q platform \<Rightarrow> 'q drv_call list \<Rightarrow> 'q driver \<Rightarrow> 'q driver" where
  "drv_run P [] s = s"
| "drv_run P (c # cs) s = drv_run P cs (drv_step P c s)"

end
