(* ===== verification/Driver_Locks.thy ===== *)
theory Driver_Locks
  imports Driver
begin

text \<open>
  The discipline of mutexes for the whole driver: every call of the runtime, whatever object it
  reaches and whatever libutp does meanwhile, leaves no mutex held and never takes one out of order.
\<close>

section \<open>Disciplined steps of a handler\<close>

definition disc :: "mutex list \<Rightarrow> ('q, 'a) handler_scheme \<Rightarrow> ('q, 'a) handler_scheme \<Rightarrow> bool" where
  "disc s a b \<longleftrightarrow> (\<exists>xs as. faults b = faults a @ xs \<and> hlog b = hlog a @ as \<and> (xs = [] \<longrightarrow> locks s as = Some s))"

lemma discI:
  "faults b = faults a @ xs \<Longrightarrow> hlog b = hlog a @ as \<Longrightarrow> (xs = [] \<Longrightarrow> locks s as = Some s) \<Longrightarrow> disc s a b"
  unfolding disc_def by blast

lemma disc_refl [simp]: "disc s a a"
  by (rule discI [where xs = "[]" and as = "[]"]) simp_all

lemma disc_trans: "disc s a b \<Longrightarrow> disc s b c \<Longrightarrow> disc s a c"
  unfolding disc_def by (elim exE conjE, rule exI, rule exI, rule conjI, simp) (auto simp: locks_append)

lemma disc_same: "faults b' = faults b \<Longrightarrow> hlog b' = hlog b \<Longrightarrow> disc s a b \<Longrightarrow> disc s a b'"
  by (simp add: disc_def)

lemma disc_fault: "disc s a b \<Longrightarrow> disc s a (fault x b)"
  unfolding disc_def by fastforce

lemma disc_emit: "disc s a b \<Longrightarrow> (\<And>s. locks s [x] = Some s) \<Longrightarrow> disc s a (emit x b)"
  by (rule disc_trans, assumption) (auto intro!: discI [where xs = "[]" and as = "[x]"])

lemma disc_harmless:
  "log w = hlog b @ as \<Longrightarrow> harmless as \<Longrightarrow> MapMutex \<notin> set s \<Longrightarrow> disc s b (b\<lparr>henv := w\<rparr>)"
  by (rule discI [where xs = "[]" and as = as]) (simp_all add: harmless_def)

lemma disc_binaries: "only_binaries (henv b) w \<Longrightarrow> MapMutex \<notin> set s \<Longrightarrow> disc s b (b\<lparr>henv := w\<rparr>)"
  unfolding only_binaries_def using harmless_binaries disc_harmless by blast

lemma disc_calm: "calm f \<Longrightarrow> MapMutex \<notin> set s \<Longrightarrow> disc s b (on_env f b)"
  unfolding calm_def on_env_def using disc_harmless by blast

lemma disc_with_env:
  "with_env f b = (r, b') \<Longrightarrow> only_binaries (henv b) (snd (f (henv b))) \<Longrightarrow> MapMutex \<notin> set s \<Longrightarrow> disc s b b'"
  using disc_binaries [of b "snd (f (henv b))"] snd_with_env [of f b] by simp

lemma disc_drop: "MapMutex \<notin> set s \<Longrightarrow> disc s b (drop_binary x b)"
  by (simp add: drop_binary_def disc_calm calm_destroy)

text \<open>Taking a mutex for the duration of a step.\<close>

lemma disc_bracket:
  "disc (m # s) (emit (Lock m) a) b \<Longrightarrow> \<forall>m' \<in> set s. rank m' < rank m \<Longrightarrow> disc s a (emit (Unlock m) b)"
proof -
  assume "disc (m # s) (emit (Lock m) a) b" and r: "\<forall>m' \<in> set s. rank m' < rank m"
  then obtain xs as where "faults b = faults a @ xs" "hlog b = hlog a @ Lock m # as"
    "xs = [] \<longrightarrow> locks (m # s) as = Some (m # s)"
    by (auto simp: disc_def)
  then show ?thesis
    using r by (intro discI [where xs = xs and as = "Lock m # as @ [Unlock m]"]) (auto simp: locks_append)
qed

text \<open>The connections.\<close>

lemma disc_inner: "lock_step a b \<Longrightarrow> MapMutex \<notin> set s \<Longrightarrow> disc s a b"
  by (auto simp: lock_step_def inner_def disc_def)

lemma disc_outer: "lock_op a b \<Longrightarrow> set s \<subseteq> {QueueMutex} \<Longrightarrow> disc s a b"
  by (auto simp: lock_op_def outer_def disc_def)

lemma disc_muted: "muted a b \<Longrightarrow> MapMutex \<notin> set s \<Longrightarrow> disc s a b"
  by (rule disc_inner [OF muted_lock_step])

section \<open>Listeners\<close>

lemma disc_parse_arg: "parse_arg P buf h = (r, b, h1) \<Longrightarrow> MapMutex \<notin> set s \<Longrightarrow> disc s h h1"
  using only_binaries_parse [of "henv h" "api P" "ei P" _ binary_new]
  by (auto simp: parse_arg_def parse_binary_def split: prod.splits intro!: disc_binaries) (metis snd_conv)

lemma disc_encode:
  "MapMutex \<notin> set s \<Longrightarrow> disc s h (snd (with_env (encode_plain P rlen ms) h))"
  "MapMutex \<notin> set s \<Longrightarrow> disc s h (snd (with_env (encode_errno P rlen e) h))"
  "MapMutex \<notin> set s \<Longrightarrow> disc s h (snd (with_env (SockAddr_encode P rlen e a) h))"
  "MapMutex \<notin> set s \<Longrightarrow> disc s h (snd (with_env (getopts_reply P so bs rlen) h))"
  by (simp_all add: snd_with_env disc_binaries encode_plain_env encode_errno_env SockAddr_encode_env
      getopts_reply_env)

lemma disc_note: "disc s a (snd r) \<Longrightarrow> disc s a (note_outcome r)"
  by (cases r; cases "fst r") (auto simp: note_outcome_def intro: disc_fault)

lemma disc_emit_read_buffer: "disc s h (snd (snd (emit_read_buffer D len rcvr q0 h)))"
  using delivers_emit_read_buffer [of h D len rcvr q0]
  by (auto simp: delivers_def neutral_def disc_def)

text \<open>The ways \<open>setopts\<close> ends: after parsing, or under the mutex.\<close>

lemma setopts_cases:
  assumes "parse_arg P buf h = (pr, b, h1)"
  shows "snd (SocketHandler_setopts P buf rlen h) \<in> {h1, drop_binary b h1} \<or>
    (\<exists>so h3. h3 \<in> {emit (Lock UtpMutex) (h1\<lparr>sockopts := so\<rparr>),
          snd (snd (emit_read_buffer (api P) 0 ToConnected 0 (emit (Lock UtpMutex) (h1\<lparr>sockopts := so\<rparr>))))} \<and>
       snd (SocketHandler_setopts P buf rlen h) = drop_binary b (emit (Unlock UtpMutex)
         (snd (with_env (encode_plain P rlen [enc_atom (ei P) ''ok'']) h3))))"
proof (cases "pr = ParseOk \<and> (\<exists>so. decode_and_merge (net P) (bin_bytes b) (sockopts h1) = Ret so)")
  case True
  then obtain so where so: "decode_and_merge (net P) (bin_bytes b) (sockopts h1) = Ret so" by blast
  let ?h2 = "emit (Lock UtpMutex) (h1\<lparr>sockopts := so\<rparr>)"
  let ?h3 = "if setopts_send (active (sockopts h1)) (active so) (read_count h1)
    then snd (snd (emit_read_buffer (api P) 0 ToConnected 0 ?h2)) else ?h2"
  have "snd (SocketHandler_setopts P buf rlen h) = drop_binary b (emit (Unlock UtpMutex)
      (snd (with_env (encode_plain P rlen [enc_atom (ei P) ''ok'']) ?h3)))"
    using True so assms by (simp add: SocketHandler_setopts_def Let_def split: prod.splits)
  then show ?thesis by (intro disjI2 exI [of _ so] exI [of _ ?h3]) simp
next
  case False
  then have "snd (SocketHandler_setopts P buf rlen h) \<in> {h1, drop_binary b h1}"
    using assms by (auto simp: SocketHandler_setopts_def split: parse.splits cpp.splits exn.splits)
  then show ?thesis by blast
qed

lemma disc_dropped: "disc s h x \<Longrightarrow> MapMutex \<notin> set s \<Longrightarrow> disc s h (drop_binary b x)"
  by (erule disc_trans) (rule disc_drop)

lemma disc_setopts: "disc [] h (snd (SocketHandler_setopts P buf rlen h))"
proof -
  obtain pr b h1 where p: "parse_arg P buf h = (pr, b, h1)" by (metis prod_cases3)
  have 1: "disc [] h h1" by (rule disc_parse_arg [OF p]) simp
  have b: "disc [] h (emit (Unlock UtpMutex) (snd (with_env (encode_plain P rlen ms) h3)))"
    if h3: "h3 \<in> {emit (Lock UtpMutex) (h1\<lparr>sockopts := so\<rparr>), snd (snd (emit_read_buffer (api P) 0 ToConnected 0
      (emit (Lock UtpMutex) (h1\<lparr>sockopts := so\<rparr>))))}" for so h3 ms
  proof (rule disc_trans [OF 1])
    have "disc [UtpMutex] (emit (Lock UtpMutex) (h1\<lparr>sockopts := so\<rparr>)) h3"
      using h3 disc_emit_read_buffer by auto
    then have "disc [] (h1\<lparr>sockopts := so\<rparr>) (emit (Unlock UtpMutex) (snd (with_env (encode_plain P rlen ms) h3)))"
      by (intro disc_bracket disc_trans [OF _ disc_encode(1)]) simp_all
    then show "disc [] h1 (emit (Unlock UtpMutex) (snd (with_env (encode_plain P rlen ms) h3)))"
      by (simp add: disc_def)
  qed
  from setopts_cases [OF p, of rlen] show ?thesis
  proof (elim disjE exE conjE)
    assume "snd (SocketHandler_setopts P buf rlen h) \<in> {h1, drop_binary b h1}"
    then show ?thesis using 1 disc_dropped [OF 1] by auto
  next
    fix so h3
    assume "h3 \<in> {emit (Lock UtpMutex) (h1\<lparr>sockopts := so\<rparr>), snd (snd (emit_read_buffer (api P) 0 ToConnected 0
      (emit (Lock UtpMutex) (h1\<lparr>sockopts := so\<rparr>))))}"
      and eq: "snd (SocketHandler_setopts P buf rlen h) = drop_binary b (emit (Unlock UtpMutex)
        (snd (with_env (encode_plain P rlen [enc_atom (ei P) ''ok'']) h3)))"
    from b [OF this(1)] show ?thesis unfolding eq by (rule disc_dropped) simp
  qed
qed

lemma disc_getopts: "disc [] h (snd (getopts P buf rlen h))"
proof -
  obtain pr b h1 where p: "parse_arg P buf h = (pr, b, h1)" by (metis prod_cases3)
  have 1: "disc [] h h1" by (rule disc_parse_arg [OF p]) simp
  obtain r h2 where g: "with_env (getopts_reply P (sockopts h1) (bin_bytes b) rlen) h1 = (r, h2)" by fastforce
  have 2: "disc [] h h2"
    using disc_trans [OF 1 disc_encode(4)] g by (metis empty_iff empty_set snd_conv)
  have "snd (getopts P buf rlen h) \<in> {h1, drop_binary b h1, drop_binary b h2}"
    using p g by (auto simp: getopts_def split: parse.splits)
  then show ?thesis
    using 1 disc_trans [OF 1 disc_drop] disc_trans [OF 2 disc_drop] by auto
qed

lemma disc_accept: "disc [] h (snd (accept P buf rlen h))"
proof -
  obtain pr b h1 where p: "parse_arg P buf h = (pr, b, h1)" by (metis prod_cases3)
  have 1: "disc [] h h1" by (rule disc_parse_arg [OF p]) simp
  have dr: "disc [] h x \<Longrightarrow> disc [] h (drop_binary b x)" for x :: "'a listener"
    by (erule disc_trans) (simp add: disc_drop)
  let ?proc = "cur_caller (henv h1)"
  obtain ok h2 where m: "with_env (add_monitor (api P) ?proc (hid h1)) h1 = (ok, h2)" by fastforce
  have "disc [] h1 h2"
    using disc_calm [OF calm_add_monitor [of "api P" ?proc "hid h1"], of "[]" h1] m
      snd_with_env [of "add_monitor (api P) ?proc (hid h1)" h1]
    by (simp add: on_env_def)
  then have 2: "disc [] h h2" by (rule disc_trans [OF 1])
  obtain ref h3 where c: "with_env (binary_copy b) (emit (Lock QueueMutex) h2) = (ref, h3)" by fastforce
  have "disc [QueueMutex] (emit (Lock QueueMutex) h2)
      (h3\<lparr>acceptor_queue := acceptor_queue h3 @ [\<lparr>acc_caller = ?proc, acc_ref = ref\<rparr>]\<rparr>)"
    using c by (auto simp: with_env_def binary_copy_def disc_def split: option.splits)
  then have "disc [] h2 (emit (Unlock QueueMutex)
      (h3\<lparr>acceptor_queue := acceptor_queue h3 @ [\<lparr>acc_caller = ?proc, acc_ref = ref\<rparr>]\<rparr>))"
    by (rule disc_bracket) simp
  then have 4: "disc [] h (emit (Unlock QueueMutex)
      (h3\<lparr>acceptor_queue := acceptor_queue h3 @ [\<lparr>acc_caller = ?proc, acc_ref = ref\<rparr>]\<rparr>))"
    by (rule disc_trans [OF 2])
  obtain r h5 where e: "with_env (encode_plain P rlen [enc_tuple_header (ei P) 2, enc_atom (ei P) ''ok'',
      enc_binary (ei P) (bin_bytes b) (int (binary_size b))]) (emit (Unlock QueueMutex)
      (h3\<lparr>acceptor_queue := acceptor_queue h3 @ [\<lparr>acc_caller = ?proc, acc_ref = ref\<rparr>]\<rparr>)) = (r, h5)"
    by fastforce
  have 5: "disc [] h h5" using disc_trans [OF 4 disc_encode(1)] e by (metis empty_iff empty_set snd_conv)
  have "snd (accept P buf rlen h) \<in> {h1, drop_binary b h1, drop_binary b h2, drop_binary b h5}"
    using p m c e by (cases pr; cases ok) (simp_all add: accept_def Let_def)
  then show ?thesis using 1 disc_dropped [OF 1] disc_dropped [OF 2] disc_dropped [OF 5] by auto
qed

lemma disc_queue: "disc s a (b\<lparr>acceptor_queue := q\<rparr>) = disc s a b"
  by (simp add: disc_def)

lemma calm_cancel_loop: "calm (\<lambda>w. snd (cancel_loop ref q w))"
proof -
  have "\<exists>as. log (snd (cancel_loop ref q w)) = log w @ as \<and> harmless as" for w
    using calm_comp [OF calm_del_monitor calm_destroy] unfolding calm_def
    by (induction ref q w rule: cancel_loop.induct) (auto split: prod.splits)
  then show ?thesis by (simp add: calm_def)
qed

lemma calm_exited_loop: "calm (\<lambda>w. snd (exited_loop p q w))"
  unfolding calm_def
proof
  fix w
  show "\<exists>as. log (snd (exited_loop p q w)) = log w @ as \<and> harmless as"
  proof (induction p q w rule: exited_loop.induct)
    case (2 p a as w)
    then show ?case
      using calm_destroy [of "acc_ref a"] harmless_append unfolding calm_def
      by (auto split: prod.splits) (metis append.assoc)
  qed simp
qed

lemma disc_locked_loop:
  assumes "calm (\<lambda>w. snd (f w))" "with_env f (emit (Lock QueueMutex) a) = (q, b)"
  shows "disc [] a (emit (Unlock QueueMutex) (b\<lparr>acceptor_queue := q'\<rparr>))"
proof (rule disc_bracket)
  have "b = on_env (\<lambda>w. snd (f w)) (emit (Lock QueueMutex) a)"
    using assms(2) snd_with_env [of f "emit (Lock QueueMutex) a"] by (simp add: on_env_def)
  then show "disc [QueueMutex] (emit (Lock QueueMutex) a) (b\<lparr>acceptor_queue := q'\<rparr>)"
    by (simp add: disc_queue) (rule disc_calm [OF assms(1)], simp)
qed simp

lemma disc_cancel_accept: "disc [] h (snd (cancel_accept P buf h))"
proof -
  obtain pr b h1 where p: "parse_arg P buf h = (pr, b, h1)" by (metis prod_cases3)
  have 1: "disc [] h h1" by (rule disc_parse_arg [OF p]) simp
  obtain q h2 where l: "with_env (cancel_loop b (acceptor_queue h1)) (emit (Lock QueueMutex) h1) = (q, h2)"
    by fastforce
  note 2 = disc_trans [OF 1 disc_locked_loop [OF calm_cancel_loop l, of q]]
  have "snd (cancel_accept P buf h) \<in> {h1, drop_binary b h1,
      drop_binary b (emit (Unlock QueueMutex) (h2\<lparr>acceptor_queue := q\<rparr>))}"
    using p l by (auto simp: cancel_accept_def split: parse.splits)
  then show ?thesis using 1 disc_dropped [OF 1] disc_dropped [OF 2] by auto
qed

lemma disc_exited: "disc [] h (Listener_process_exited p h)"
proof -
  obtain q h1 where "with_env (exited_loop p (acceptor_queue h)) (emit (Lock QueueMutex) h) = (q, h1)" by fastforce
  then show ?thesis using disc_locked_loop [OF calm_exited_loop] by (simp add: Listener_process_exited_def)
qed

lemma disc_Listener_control: "disc [] h (note_outcome (Listener_control P names cmd buf rlen h))"
  by (rule disc_note, cases "command_of cmd")
    (auto simp: Listener_control_def SocketHandler_control_def Listener_close_def Listener_peername_def
      sockname_def disc_accept disc_cancel_accept disc_setopts disc_getopts disc_encode split: prod.splits)

lemma disc_set_port: "disc [] h (set_port p h)"
proof -
  have 1: "disc [] h (Handler_set_port p h)"
    by (simp add: Handler_set_port_def Let_def disc_def)
  have "disc [] x (on_env (start_input fd i) x)" for x :: "('a, 'b) sock_handler_scheme" and fd i
    by (rule disc_calm [OF calm_start_input]) simp
  then have 2: "disc [] h (on_env (start_input fd i) (Handler_set_port p h))" for fd i
    by (rule disc_trans [OF 1])
  have "disc [] h (b\<lparr>selected := True\<rparr>) = disc [] h b" for b :: "('a, 'b) sock_handler_scheme"
    by (simp add: disc_def)
  then show ?thesis using 1 2 by (simp add: set_port_def Let_def)
qed

section \<open>Traces\<close>

text \<open>
  The discipline between two states of the whole driver, of which only the environments matter and
  whether undefined behaviour has been reached so far.
\<close>

definition trace :: "mutex list \<Rightarrow> bool \<Rightarrow> env \<Rightarrow> bool \<Rightarrow> env \<Rightarrow> bool" where
  "trace s c w c' w' \<longleftrightarrow> (c' \<longrightarrow> c \<and> (\<exists>as. log w' = log w @ as \<and> locks s as = Some s))"

lemma trace_trans: "trace s c w c1 w1 \<Longrightarrow> trace s c1 w1 c2 w2 \<Longrightarrow> trace s c w c2 w2"
  by (auto simp: trace_def locks_append)

lemma trace_bracket:
  "trace (m # s) c (env_log (Lock m) w) c' w' \<Longrightarrow> \<forall>m' \<in> set s. rank m' < rank m \<Longrightarrow>
   trace s c w c' (env_log (Unlock m) w')"
  by (auto simp: trace_def locks_append)

lemma trace_disc:
  "disc s a b \<Longrightarrow> trace s (c \<and> faults a = []) (henv a) (c \<and> faults b = []) (henv b)"
  by (auto simp: disc_def trace_def)

lemma trace_disc': "disc s a b \<Longrightarrow> trace s (faults a = []) (henv a) (faults b = []) (henv b)"
  using trace_disc [of s a b True] by simp

section \<open>Datagrams\<close>

lemma disc_offer:
  assumes "offer_datagram (map (run_utp P) rs) bytes s0 = (u, s1)"
  shows "disc [QueueMutex] s0 s1"
proof -
  let ?h = "emit (UtpCall (UTP_IsIncomingUTP bytes)) (emit (Lock UtpMutex) s0)"
  obtain r ans s2 where t: "take_answer (map (run_utp P) rs) ?h = (r, ans, s2)" by (metis prod_cases3)
  have "lock_step ?h s2"
    using locks.take_answer_rel [OF locks.runs_ok t] by blast
  then have "disc [UtpMutex, QueueMutex] ?h s2" by (rule disc_inner) simp
  moreover have "disc [UtpMutex, QueueMutex] (emit (Lock UtpMutex) s0) ?h" by (rule disc_emit) simp_all
  ultimately have "disc [QueueMutex] s0 (emit (Unlock UtpMutex) s2)"
    by (intro disc_bracket) (auto intro: disc_trans)
  then show ?thesis using assms t by (simp add: offer_datagram_def)
qed

lemma disc_del_front: "disc [QueueMutex] h (del_front_monitor h)"
  by (auto simp: del_front_monitor_def disc_calm calm_del_monitor disc_fault split: list.splits)

lemma disc_answer_front: "disc [QueueMutex] h (answer_front t h)"
proof -
  have "disc [QueueMutex] h (drop_binary b (emit (SendTerm p c ts) h))" for b p c ts
    by (rule disc_dropped) (simp_all add: disc_emit)
  then show ?thesis
    by (auto simp: answer_front_def Let_def disc_queue disc_fault split: list.splits)
qed

lemma disc_create_port: "disc [QueueMutex] x h \<Longrightarrow> disc [QueueMutex] x (create_port h)"
  by (simp add: create_port_def disc_fault disc_emit)

lemma disc_delete_wrapper: "disc [QueueMutex] s (delete_wrapper i (delete_utp_handler (emit (CloseFd sock) s)))"
proof -
  have "disc [QueueMutex] s (delete_utp_handler (emit (CloseFd sock) s))"
    by (rule disc_trans [OF disc_emit [OF disc_refl] disc_muted [OF muted_delete]]) simp_all
  then show ?thesis
    unfolding delete_wrapper_def by (intro disc_emit, elim disc_trans, intro disc_muted muted_delete) simp_all
qed

text \<open>A step of the listener with the faults of the server, and the other way round.\<close>

lemma trace_either:
  "disc s a b \<Longrightarrow> trace s (faults a = [] \<and> c) (henv a) (faults b = [] \<and> c) (henv b)"
  using trace_disc [of s a b c] by (simp add: conj_commute)

lemma trace_serve:
  assumes "dg_ans d = map (run_utp P) rs" "serve_datagram P d sock bytes h = (h', srv)"
  shows "trace [QueueMutex] (faults h = []) (henv h)
    (faults h' = [] \<and> (\<forall>s. srv = Some s \<longrightarrow> faults s = [])) (henv h')"
proof -
  have offer: "trace [QueueMutex] (faults h = []) (henv h) (faults h = [] \<and> faults s1 = []) (henv s1)"
    if "offer_datagram (dg_ans d) bytes (new_server d sock h) = (u, s1)" for u s1
  proof -
    have "disc [QueueMutex] (new_server d sock h) s1" using disc_offer that assms(1) by metis
    from trace_disc [OF this, of "faults h = []"] show ?thesis
      by (simp add: Server_new_def UtpHandler_new_def)
  qed
  show ?thesis
    using assms(2)
  proof (cases rule: serve_datagram_cases)
    case (refused s1 s2)
    have "trace [QueueMutex] (faults h = [] \<and> faults s1 = []) (henv s1) (faults h = [] \<and> faults s2 = []) (henv s2)"
      unfolding refused(2) by (rule trace_disc [OF disc_delete_wrapper])
    then show ?thesis using trace_trans [OF offer [OF refused(1)]] by (simp add: refused(3,4))
  next
    case (accepted s1 h3 s2)
    have "disc [QueueMutex] (h\<lparr>henv := henv s1\<rparr>) h3"
      unfolding accepted(2) by (rule disc_create_port [OF disc_del_front])
    note 2 = trace_either [OF this, of "faults s1 = []"]
    have "disc [QueueMutex] (s1\<lparr>henv := henv h3\<rparr>) s2"
      unfolding accepted(3) by (rule disc_muted [OF muted_trans [OF muted_touch muted_set_port]]) simp
    note 3 = trace_disc [OF this, of "faults h3 = []"]
    have "disc [QueueMutex] (h3\<lparr>henv := henv s2\<rparr>) h'" unfolding accepted(4) by (rule disc_answer_front)
    note 4 = trace_either [OF this, of "faults s2 = []"]
    show ?thesis
      using trace_trans [OF trace_trans [OF offer [OF accepted(1)]] trace_trans] 2 3 4
      by (simp add: accepted(5))
  qed
qed

lemma disc_open:
  "open_udp_socket os a r (henv h) = (err, sock, w) \<Longrightarrow> disc s h (h\<lparr>henv := w\<rparr>)"
  by (auto simp: open_udp_socket_def disc_def split: prod.splits if_splits)

lemma trace_input_ready:
  assumes ans: "dg_ans d = map (run_utp P) rs" and r: "Listener_input_ready P d h = (h', srv)"
  shows "trace [] (faults h = []) (henv h) (faults h' = [] \<and> (\<forall>s. srv = Some s \<longrightarrow> faults s = [])) (henv h')"
proof -
  let ?h = "emit (Lock QueueMutex) h"
  have br: "trace [] (faults h = []) (henv h) c (henv (emit (Unlock QueueMutex) x))"
    if "trace [QueueMutex] (faults ?h = []) (henv ?h) c (henv x)" for c and x :: "'a listener"
    using trace_bracket [of QueueMutex "[]" "faults h = []" "henv h" c "henv x"] that by simp
  have opened: "disc [QueueMutex] ?h (h\<lparr>henv := w\<rparr>)"
    if "open_udp_socket (dg_open d) (my_addr h) True (henv ?h) = (err, sock, w)" for err sock w
    using disc_open [OF that, of "[QueueMutex]"] by (simp add: emit_def)
  show ?thesis
    using r
  proof (cases rule: Listener_input_cases)
    case nothing
    then show ?thesis by (simp add: trace_def)
  next
    case nobody
    then show ?thesis using br [of "faults ?h = []" ?h] by (simp add: trace_def)
  next
    case (unopened err sock w)
    then show ?thesis using br [OF trace_disc' [OF opened]] by simp
  next
    case (looping err sock w)
    then show ?thesis by (simp add: trace_def)
  next
    case (unconnected err sock w e h3)
    have "disc [QueueMutex] ?h h3"
      unfolding unconnected(6)
      by (rule disc_trans [OF disc_trans [OF disc_emit [OF opened [OF unconnected(3)]] disc_del_front] disc_answer_front]) simp
    then show ?thesis using br [OF trace_disc'] by (simp add: unconnected(7,8))
  next
    case (serving err sock w bytes h3 s)
    have "trace [QueueMutex] (faults ?h = []) (henv ?h) (faults h3 = [] \<and> (\<forall>x. s = Some x \<longrightarrow> faults x = [])) (henv h3)"
      by (rule trace_trans [OF trace_disc' [OF opened [OF serving(3)]] trace_serve [OF ans serving(7)]])
    moreover have "(\<forall>x. srv = Some x \<longrightarrow> faults x = []) = (\<forall>x. s = Some x \<longrightarrow> faults x = [])"
      unfolding serving(9) by (cases s) auto
    ultimately show ?thesis using br unfolding serving(8) by simp
  qed
qed

section \<open>Port objects\<close>

definition obj_faults :: "'q main_obj \<Rightarrow> fault list" where
  "obj_faults o1 = faults o1 @ (case delegatee o1 of None \<Rightarrow> [] | Some d \<Rightarrow> delegate_faults d)"

text \<open>A step of a port object; the result may itself carry a new handler with its faults.\<close>

definition obj_step :: "mutex list \<Rightarrow> bool \<Rightarrow> 'q main_obj \<Rightarrow> 'q main_obj \<Rightarrow> bool" where
  "obj_step s c o1 o2 \<longleftrightarrow> hid o2 = hid o1 \<and>
     trace s (obj_faults o1 = []) (henv o1) (obj_faults o2 = [] \<and> c) (henv o2)"

lemma obj_step_trans:
  "obj_step s True o1 o2 \<Longrightarrow> obj_step s True o2 o3 \<Longrightarrow> obj_step s True o1 o3"
  unfolding obj_step_def using trace_trans by fastforce

lemma obj_step_disc:
  "disc s o1 o2 \<Longrightarrow> hid o2 = hid o1 \<Longrightarrow> delegatee o2 = delegatee o1 \<Longrightarrow> obj_step s True o1 o2"
  using trace_disc [of s o1 o2 "(case delegatee o1 of None \<Rightarrow> [] | Some d \<Rightarrow> delegate_faults d) = []"]
  by (simp add: obj_step_def obj_faults_def conj_commute)

lemma obj_step_delegate:
  assumes f: "\<And>h r h'. f h = (r, h') \<Longrightarrow>
      trace s (faults h = []) (henv h) (faults h' = [] \<and> c (Some r)) (henv h')"
    and g: "\<And>h r h'. g h = (r, h') \<Longrightarrow>
      trace s (faults h = []) (henv h) (faults h' = [] \<and> c (Some r)) (henv h')"
    and d: "delegate f g o1 = (r, o2)"
  shows "obj_step s (r = None \<or> c r) o1 o2"
proof (cases "delegatee o1")
  case None
  then show ?thesis using d by (simp add: delegate_def obj_step_def obj_faults_def trace_def)
next
  case (Some x)
  show ?thesis
  proof (cases x)
    case (ConnD h)
    show ?thesis
    proof (cases "deleted h")
      case False
      obtain y h' where fh: "f (h\<lparr>henv := henv o1\<rparr>) = (y, h')" by fastforce
      then have "r = Some y" "o2 = o1\<lparr>delegatee := Some (ConnD h'), henv := henv h'\<rparr>"
        using d Some ConnD False by (simp_all add: delegate_def)
      then show ?thesis using f [OF fh] Some ConnD by (auto simp: obj_step_def obj_faults_def trace_def)
    qed (use d Some ConnD in \<open>auto simp: delegate_def obj_step_def obj_faults_def trace_def\<close>)
  next
    case (ListD h)
    show ?thesis
    proof (cases "deleted h")
      case False
      obtain y h' where fh: "g (h\<lparr>henv := henv o1\<rparr>) = (y, h')" by fastforce
      then have "r = Some y" "o2 = o1\<lparr>delegatee := Some (ListD h'), henv := henv h'\<rparr>"
        using d Some ListD False by (simp_all add: delegate_def)
      then show ?thesis using g [OF fh] Some ListD by (auto simp: obj_step_def obj_faults_def trace_def)
    qed (use d Some ListD in \<open>auto simp: delegate_def obj_step_def obj_faults_def trace_def\<close>)
  qed
qed

lemma obj_step_delegate_unit:
  assumes "\<And>h. disc s h (f h)" "\<And>h. disc s h (g h)"
  shows "obj_step s True o1 (snd (delegate (\<lambda>h. ((), f h)) (\<lambda>h. ((), g h)) o1))"
proof -
  obtain r o2 where d: "delegate (\<lambda>h. ((), f h)) (\<lambda>h. ((), g h)) o1 = (r, o2)" by fastforce
  have "obj_step s (r = None \<or> (\<lambda>_. True) r) o1 o2"
    by (rule obj_step_delegate [OF _ _ d]) (use trace_disc' [OF assms(1)] trace_disc' [OF assms(2)] in auto)
  then show ?thesis using d by simp
qed

lemma disc_conn_step: "disc [] h (conn_step P op h)"
proof -
  have "lock_op h (conn_step P op h)" by (rule lock_port.conn_step_prel) simp_all
  then show ?thesis by (rule disc_outer) simp
qed

lemma disc_outputv: "disc [] h (outputv P (map (run_utp P) rs) ev h)"
  using disc_conn_step [of h P "Output ev rs"] by simp

lemma disc_stop: "disc [] h (stop P (map (run_utp P) rs) h)"
  using disc_conn_step [of h P "Stop rs"] by simp

lemma disc_input: "disc [] h (input_ready P (map (run_utp P) rs) os h)"
  using disc_conn_step [of h P "Input os rs"] by simp

lemma disc_conn_exit: "disc [] h (Handler_process_exited p h)"
  by (simp add: Handler_process_exited_def Let_def disc_emit)

lemma disc_conn_control:
  "disc [] h (note_outcome (utp_control P
     \<lparr>cw_ans = map (run_utp P) rs, cw_sockname = names, cw_peername = peer\<rparr> cmd buf rlen h))"
  using disc_conn_step [of h P "Control cmd buf rlen rs names peer"] by simp

lemma disc_Listener_outputv: "disc [] h (Listener_outputv P ev h)"
  unfolding Listener_outputv_def
  by (rule disc_calm) (simp_all add: calm_def send_not_connected_def)

lemma calm_fold_refs: "calm (fold (binary_destroy \<circ> acc_ref) q)"
proof (induction q)
  case (Cons a q)
  then show ?case using calm_comp [OF calm_destroy Cons] by (simp add: comp_def)
qed (auto simp: calm_def)

lemma disc_Listener_stop: "disc [] h (Listener_stop h)"
proof -
  have "disc [] h ((on_env (stop_input (udp_sock h)) h)\<lparr>selected := False\<rparr>)"
    by (rule disc_same [OF _ _ disc_calm [OF calm_stop_input]]) simp_all
  then have 1: "disc [] h (if selected h then (on_env (stop_input (udp_sock h)) h)\<lparr>selected := False\<rparr> else h)"
    by simp
  have 2: "disc [] x (Listener_destroy x)" for x :: "'a listener"
    unfolding Listener_destroy_def SocketHandler_destroy_def Handler_destroy_def
    by (rule disc_same [OF _ _ disc_trans [OF disc_calm [OF calm_fold_refs] disc_calm [OF calm_del_monitors]]])
      simp_all
  have "disc [] x ((Listener_destroy x)\<lparr>deleted := True\<rparr>)" for x :: "'a listener"
    by (rule disc_same [OF _ _ 2]) simp_all
  then have "disc [] x (delete_listener x)" for x :: "'a listener"
    using 2 [of x] by (simp add: delete_listener_def delete_this_def disc_fault disc_emit)
  then show ?thesis unfolding Listener_stop_def Let_def by (rule disc_trans [OF 1])
qed


lemma trace_note:
  "disc s h (note_outcome (r, h')) \<Longrightarrow>
   trace s (faults h = []) (henv h) (faults h' = [] \<and> (\<exists>x. r = Ret x)) (henv h')"
  by (cases r) (auto simp: note_outcome_def trace_def disc_def)

lemma obj_step_note:
  "obj_step s (\<exists>x. r = Ret x) o1 o2 \<Longrightarrow> obj_step s True o1 (note_outcome (r, o2))"
  by (cases r) (auto simp: note_outcome_def obj_step_def obj_faults_def trace_def)

lemma obj_step_control_delegate:
  assumes "delegate (utp_control P
      \<lparr>cw_ans = map (run_utp P) rs, cw_sockname = names, cw_peername = peer\<rparr> cmd buf rlen)
      (Listener_control P names cmd buf rlen) o1 = (r, o2)"
  shows "obj_step [] (r = None \<or> (\<exists>x. r = Some (Ret x))) o1 o2"
proof -
  have "trace [] (faults h = []) (henv h) (faults h' = [] \<and> (\<exists>x. r = Ret x)) (henv h')"
    if "utp_control P \<lparr>cw_ans = map (run_utp P) rs, cw_sockname = names, cw_peername = peer\<rparr> cmd buf rlen h =
      (r, h')" for h r h'
    using disc_conn_control [of h P rs names peer cmd buf rlen] that by (intro trace_note) simp
  moreover have "trace [] (faults h = []) (henv h) (faults h' = [] \<and> (\<exists>x. r = Ret x)) (henv h')"
    if "Listener_control P names cmd buf rlen h = (r, h')" for h r h'
    using disc_Listener_control [of h P names cmd buf rlen] that by (intro trace_note) simp
  ultimately show ?thesis
    using obj_step_delegate [OF _ _ assms, of "[]" "\<lambda>r. \<exists>x. r = Some (Ret x)"] by simp
qed

lemma disc_stop_main: "disc [] o1 (stop_main o1)"
proof -
  have "\<exists>as. log (deselect_all m w) = log w @ as \<and> (\<forall>s. locks s as = Some s)" for m w
  proof (induction m w rule: deselect_all.induct)
    case (2 fd h m w)
    then obtain as where "log (deselect_all m (env_log (Select fd False) w)) = log w @ Select fd False # as"
      "\<forall>s. locks s as = Some s"
      by auto
    then show ?case by (intro exI [of _ "Select fd False # as"]) simp
  qed simp
  then have sel: "disc s x (on_env (deselect_all m) x)" for s m and x :: "'a main_obj"
    by (metis discI append_Nil2 on_env_simps(4,6))
  have m: "disc s x (on_env (\<lambda>w. w\<lparr>main := None\<rparr>) x)" for s and x :: "'a main_obj"
    by (simp add: disc_def)
  have h: "disc s x (y\<lparr>has_map_mutex := b\<rparr>) = disc s x y" for s b and x y :: "'a main_obj"
    by (simp add: disc_def)
  show ?thesis
    unfolding stop_main_def Let_def
    by (rule disc_bracket)
      (auto simp: h disc_emit m disc_trans [OF m sel] split: option.split)
qed

lemma obj_step_stop: "obj_step [] True o1 (MainHandler_stop P (map (run_utp P) rs) o1)"
proof -
  have "obj_step [] True o1 (snd (delegate (\<lambda>h. ((), stop P (map (run_utp P) rs) h)) (\<lambda>h. ((), Listener_stop h)) o1))"
    by (rule obj_step_delegate_unit [OF disc_stop disc_Listener_stop])
  moreover have "obj_step [] True x (stop_main x)" for x :: "'a main_obj"
    by (rule obj_step_disc [OF disc_stop_main]) (auto simp: stop_main_def Let_def split: option.splits)
  ultimately show ?thesis unfolding MainHandler_stop_def by (rule obj_step_trans)
qed

section \<open>Becoming a connection or a listener\<close>

lemma disc_connect_to: "disc [] h (connect_to (map (run_utp P) rs) u h)"
proof -
  let ?h1 = "emit (UtpCall UTP_Create) (emit (Lock UtpMutex) (h\<lparr>status := connect_pending\<rparr>))"
  define h2 where "h2 = set_utp_callbacks (?h1\<lparr>utp := u\<rparr>)"
  obtain r ans h3 where c: "call_utp UTP_Connect (map (run_utp P) rs) h2 = (r, ans, h3)" by (metis prod_cases3)
  have 1: "disc [UtpMutex] (emit (Lock UtpMutex) h) (?h1\<lparr>utp := u\<rparr>)"
    by (simp add: disc_def)
  have "quiet (?h1\<lparr>utp := u\<rparr>) h2"
    unfolding h2_def by (rule quiet_set_utp_callbacks)
  then have 2: "disc [UtpMutex] (?h1\<lparr>utp := u\<rparr>) h2" by (rule disc_muted [OF quiet_muted]) simp
  have "lock_step h2 h3" using locks.call_utp_rel [OF locks.runs_ok c] by blast
  then have "disc [UtpMutex] h2 h3" by (rule disc_inner) simp
  then have "disc [] h (emit (Unlock UtpMutex) h3)"
    using disc_trans [OF disc_trans [OF 1 2]] by (intro disc_bracket) simp_all
  then show ?thesis using c by (simp add: connect_to_def h2_def Let_def)
qed

lemma obj_step_become_client:
  assumes "delegatee o1 = None"
  shows "obj_step [] True o1 (become_client P (c\<lparr>op_ans := map (run_utp P) rs\<rparr>) so sock o1)"
proof -
  define c0 where "c0 = Client_new (op_id c) (ioq o1) (henv o1) sock so"
  define client where "client = set_port (port o1) c0"
  define o2 where "o2 = clear_port (o1\<lparr>henv := henv client\<rparr>)"
  define c2 where "c2 = connect_to (map (run_utp P) rs) (op_utp c) (client\<lparr>henv := henv o2\<rparr>)"
  have c0: "henv c0 = henv o1" "faults c0 = []" by (simp_all add: c0_def Client_new_def UtpHandler_new_def)
  have 1: "disc [] c0 client" unfolding client_def by (rule disc_set_port)
  have 2: "disc [] (client\<lparr>henv := henv o2\<rparr>) c2" unfolding c2_def by (rule disc_connect_to)
  have l: "log (henv o2) = hlog client" "hid o2 = hid o1" "faults o2 = faults o1"
    by (simp_all add: o2_def clear_port_def split: option.splits)
  have "trace [] (faults o1 = []) (henv o1) (faults o1 = [] \<and> faults client = []) (henv client)"
    using trace_disc [OF 1, of "faults o1 = []"] c0 by simp
  then have "trace [] (faults o1 = []) (henv o1) (faults o1 = [] \<and> faults client = []) (henv o2)"
    using l by (simp add: trace_def)
  then have "trace [] (faults o1 = []) (henv o1) (faults o1 = [] \<and> faults c2 = []) (henv c2)"
    using trace_disc [OF 2, of "faults o1 = []"] by (auto intro: trace_trans)
  moreover have "become_client P (c\<lparr>op_ans := map (run_utp P) rs\<rparr>) so sock o1 =
      o2\<lparr>delegatee := Some (ConnD c2), henv := henv c2\<rparr>"
    by (simp add: become_client_def c0_def client_def o2_def c2_def Let_def)
  ultimately show ?thesis using l assms by (simp add: obj_step_def obj_faults_def)
qed

lemma obj_step_become_listener:
  assumes "delegatee o1 = None" "become_listener P c so sock o1 = (r, o2)"
  shows "obj_step [] True o1 o2"
proof (cases "Listener_new (op_id c) (ioq o1) (henv o1) (op_myaddr c) sock so")
  case (Ret l)
  then have l: "henv l = henv o1" "faults l = []" by (auto simp: Listener_new_def split: prod.splits if_splits)
  define l1 where "l1 = set_port (port o1) l"
  define o3 where "o3 = clear_port (o1\<lparr>henv := henv l1\<rparr>)"
  have 1: "disc [] l l1" unfolding l1_def by (rule disc_set_port)
  have "log (henv o3) = hlog l1" "hid o3 = hid o1" "faults o3 = faults o1"
    by (simp_all add: o3_def clear_port_def split: option.splits)
  moreover have "o2 = o3\<lparr>delegatee := Some (ListD (l1\<lparr>henv := henv o3\<rparr>))\<rparr>"
    using assms(2) Ret by (simp add: become_listener_def l1_def o3_def Let_def)
  ultimately show ?thesis
    using trace_disc [OF 1, of "faults o1 = []"] l assms(1) by (simp add: obj_step_def obj_faults_def trace_def)
qed (use assms in \<open>auto simp: become_listener_def obj_step_def trace_def\<close>)

lemma obj_step_henv:
  "only_binaries (henv o1) w \<Longrightarrow> obj_step [] True o1 (o1\<lparr>henv := w\<rparr>)"
  by (rule obj_step_disc [OF disc_binaries]) simp_all

lemma obj_step_dropped: "obj_step [] True o1 o2 \<Longrightarrow> obj_step [] True o1 (drop_binary b o2)"
  by (erule obj_step_trans, rule obj_step_disc [OF disc_drop]) (simp_all add: drop_binary_def)

lemma parse_connect_env:
  "parse_connect P buf o1 = (r, str, n, b, o2) \<Longrightarrow> \<exists>w. only_binaries (henv o1) w \<and> o2 = o1\<lparr>henv := w\<rparr>"
proof -
  assume p: "parse_connect P buf o1 = (r, str, n, b, o2)"
  have refl: "\<exists>w. only_binaries (henv o1) w \<and> o1 = o1\<lparr>henv := w\<rparr>" by (rule exI [of _ "henv o1"]) simp
  have "o2 = o1 \<or> (\<exists>d r b w. parse_binary_at (api P) (ei P) d binary_new (henv o1) = (r, b, w) \<and>
      o2 = o1\<lparr>henv := w\<rparr>)"
    using p by (auto simp: parse_connect_def split: cpp.splits prod.splits if_splits)
  then show ?thesis using refl only_binaries_parse by (metis snd_conv)
qed

lemma open_env:
  "open_udp_socket os a r w = (err, s, w') \<Longrightarrow>
   \<exists>as. log w' = log w @ as \<and> (\<forall>s. locks s as = Some s) \<and> main w' = main w"
  by (auto simp: open_udp_socket_def split: prod.splits if_splits)

lemma choose_socket_env:
  "choose_socket P c so reuse w = (r, w') \<Longrightarrow>
   \<exists>as. log w' = log w @ as \<and> (\<forall>s. locks s as = Some s) \<and> main w' = main w"
  by (auto simp: choose_socket_def open_udp_socket_port_def
      split: if_splits prod.splits cpp.splits dest: open_env)

lemma obj_step_choose:
  "choose_socket P c so reuse (henv o1) = (r, w) \<Longrightarrow> obj_step [] True o1 (o1\<lparr>henv := w\<rparr>)"
  using choose_socket_env [of P c so reuse "henv o1" r w]
  by (intro obj_step_disc) (auto intro: discI [where xs = "[]"])

lemma obj_step_encoded:
  "obj_step [] True o1 o2 \<Longrightarrow> with_env (encode_error P rlen e) o2 = (r, o3) \<Longrightarrow> obj_step [] True o1 o3"
  "obj_step [] True o1 o2 \<Longrightarrow> with_env (encode_atom P rlen e) o2 = (r, o3) \<Longrightarrow> obj_step [] True o1 o3"
  using obj_step_trans [OF _ obj_step_henv [OF encode_error_env [of "henv o2" P rlen e]]]
    obj_step_trans [OF _ obj_step_henv [OF encode_atom_env [of "henv o2" P rlen e]]]
    snd_with_env [of "encode_error P rlen e" o2] snd_with_env [of "encode_atom P rlen e" o2]
  by auto

text \<open>The answers of libutp are runs.\<close>

definition answers_by_runs :: "'q platform \<Rightarrow> 'q opener \<Rightarrow> bool" where
  "answers_by_runs P c \<longleftrightarrow> (\<exists>rs. op_ans c = map (run_utp P) rs)"

lemma answers_by_runsE:
  assumes "answers_by_runs P c" obtains rs where "c = c\<lparr>op_ans := map (run_utp P) rs\<rparr>"
  using assms by (auto simp: answers_by_runs_def) (metis opener.surjective opener.update_convs(5))

lemma answers_by_runs [simp]: "answers_by_runs P (c\<lparr>op_ans := map (run_utp P) rs\<rparr>)"
  by (auto simp: answers_by_runs_def)

interpretation lock_start: port_start P "answers_by_runs P"
  "\<lambda>o1 b o2. obj_step [] True o1 o2 \<and> delegatee o2 = None" "\<lambda>c k o1 b o2. obj_step [] True o1 o2"
  "\<lambda>rlen c k o1 r o2. obj_step [] True o1 o2" for P :: "'q platform"
proof unfold_locales
  fix o1 o2 o3 :: "'q main_obj" and b buf pr str n c so reuse rs w w' sock r err rlen k
  assume o1: "delegatee o1 = None"
  show "obj_step [] True o1 o2 \<and> delegatee o2 = None" if "parse_connect P buf o1 = (pr, str, n, b, o2)"
    using parse_connect_env [OF that] obj_step_henv [of o1] o1 by auto
  show "obj_step [] True o1 o2 \<and> delegatee o2 = None" if "parse_arg P buf o1 = (pr, b, o2)"
    using disc_parse_arg [OF that, of "[]"] that o1
    by (auto intro!: obj_step_disc simp: parse_arg_def split: prod.splits)
  show "obj_step [] True o1 o2" if "with_env (encode_error P rlen ''enotsup'') o1 = (r, o2)"
    by (rule obj_step_encoded(1) [OF _ that]) (simp add: obj_step_def trace_def)
next
  fix o1 o2 o3 :: "'q main_obj" and b buf pr str n c so reuse rs w w' sock r err rlen k
  assume 2: "obj_step [] True o1 o2 \<and> delegatee o2 = None"
  show "obj_step [] True o1 (o2\<lparr>henv := w\<rparr>) \<and> delegatee (o2\<lparr>henv := w\<rparr>) = None"
    if "choose_socket P c so reuse (henv o2) = (rs, w)"
    using 2 obj_step_trans [OF _ obj_step_choose [OF that]] by simp
  show "obj_step [] True o1 (become_client P c so sock o2)" if "answers_by_runs P c"
    using that 2 obj_step_trans [OF _ obj_step_become_client] by (metis answers_by_runsE)
  show "obj_step [] True o1 o3" if "become_listener P c so sock o2 = (Ret (), o3)"
    using 2 obj_step_trans [OF _ obj_step_become_listener [OF _ that]] by simp
  show "obj_step [] True o1 o2 \<and> obj_step [] True o1 (drop_binary b o2)"
    using 2 obj_step_dropped by blast
  show "obj_step [] True o1 (drop_binary b o3)"
    if "with_env (encode_error P rlen (errno_id (api P) err)) o2 = (r, o3)"
    using obj_step_encoded(1) [OF _ that] obj_step_dropped 2 by blast
qed (simp_all add: obj_step_encoded(2) obj_step_dropped)

lemma obj_step_True: "obj_step s c o1 o2 \<Longrightarrow> c \<Longrightarrow> obj_step s True o1 o2"
  by (simp add: obj_step_def)

lemma obj_step_noted: "obj_step s True o1 (snd r) \<Longrightarrow> obj_step s True o1 (note_outcome r)"
  by (cases r; cases "fst r") (auto simp: note_outcome_def obj_step_def obj_faults_def trace_def)

lemma obj_step_control:
  "obj_step [] True o1 (note_outcome (MainHandler_control P (c\<lparr>op_ans := map (run_utp P) rs\<rparr>)
     \<lparr>cw_ans = map (run_utp P) rs, cw_sockname = names, cw_peername = peer\<rparr> cmd buf rlen o1))"
proof (cases "delegatee o1 = None")
  case True
  then show ?thesis
    by (intro obj_step_noted) (rule lock_start.control_ended [OF _ answers_by_runs prod.collapse [symmetric]])
next
  case False
  obtain r o2 where d: "delegate (utp_control P
      \<lparr>cw_ans = map (run_utp P) rs, cw_sockname = names, cw_peername = peer\<rparr> cmd buf rlen)
      (Listener_control P names cmd buf rlen) o1 = (r, o2)"
    by fastforce
  note st = obj_step_control_delegate [OF d]
  show ?thesis
  proof (cases r)
    case None
    then have "note_outcome (MainHandler_control P (c\<lparr>op_ans := map (run_utp P) rs\<rparr>)
        \<lparr>cw_ans = map (run_utp P) rs, cw_sockname = names, cw_peername = peer\<rparr> cmd buf rlen o1) =
        note_outcome (Undef, o2)"
      using d False by (simp add: MainHandler_control_def)
    then show ?thesis using st None by (simp add: obj_step_noted)
  next
    case (Some x)
    then have "note_outcome (MainHandler_control P (c\<lparr>op_ans := map (run_utp P) rs\<rparr>)
        \<lparr>cw_ans = map (run_utp P) rs, cw_sockname = names, cw_peername = peer\<rparr> cmd buf rlen o1) =
        note_outcome (x, o2)"
      using d False by (simp add: MainHandler_control_def)
    moreover have "obj_step [] (\<exists>y. x = Ret y) o1 o2" using st Some by simp
    ultimately show ?thesis by (simp add: obj_step_note)
  qed
qed

section \<open>The driver\<close>

definition clean :: "'q driver \<Rightarrow> bool" where
  "clean s \<longleftrightarrow> dr_faults s = [] \<and> (\<forall>o1 \<in> set (dr_objs s). obj_faults o1 = [])"

definition drv_ok :: "mutex list \<Rightarrow> 'q driver \<Rightarrow> 'q driver \<Rightarrow> bool" where
  "drv_ok ms s s' \<longleftrightarrow> trace ms (clean s) (dr_env s) (clean s') (dr_env s')"

lemma drv_ok_refl [simp]: "drv_ok ms s s"
  by (simp add: drv_ok_def trace_def)

lemma drv_ok_trans: "drv_ok ms s s1 \<Longrightarrow> drv_ok ms s1 s2 \<Longrightarrow> drv_ok ms s s2"
  unfolding drv_ok_def by (rule trace_trans)

lemma drv_ok_fault: "drv_ok ms s (dr_fault x s)"
  by (simp add: drv_ok_def trace_def clean_def dr_fault_def)

lemma put_obj_split:
  "find_obj (hid o2) os = Some o1 \<Longrightarrow> \<exists>xs ys. os = xs @ o1 # ys \<and> put_obj o2 os = xs @ o2 # ys"
proof (induction os)
  case (Cons o3 os)
  show ?case
  proof (cases "hid o3 = hid o2")
    case True
    then show ?thesis using Cons.prems by (intro exI [of _ "[]"] exI [of _ os]) simp
  next
    case False
    then obtain xs ys where "os = xs @ o1 # ys" "put_obj o2 os = xs @ o2 # ys"
      using Cons by auto
    then show ?thesis using False by (intro exI [of _ "o3 # xs"] exI [of _ ys]) simp
  qed
qed simp

lemma find_obj_hid: "find_obj i os = Some o1 \<Longrightarrow> hid o1 = i"
  by (induction os) (auto split: if_splits)

lemma drv_ok_with_obj:
  assumes "\<And>o1 r o2. f o1 = (r, o2) \<Longrightarrow> obj_step ms (c (Some r)) o1 o2" "with_obj i f s = (r, s')"
  shows "trace ms (clean s) (dr_env s) (clean s' \<and> (r = None \<or> c r)) (dr_env s')"
proof (cases "find_obj i (dr_objs s)")
  case None
  then show ?thesis using assms(2) drv_ok_fault [of ms s] by (auto simp: with_obj_def drv_ok_def)
next
  case (Some o1)
  obtain y o2 where f: "f (o1\<lparr>henv := dr_env s\<rparr>) = (y, o2)" by fastforce
  then have s': "s' = s\<lparr>dr_env := henv o2, dr_objs := put_obj o2 (dr_objs s)\<rparr>" "r = Some y"
    using assms(2) Some by (simp_all add: with_obj_def)
  have st: "hid o2 = hid o1" "trace ms (obj_faults o1 = []) (dr_env s) (obj_faults o2 = [] \<and> c r) (henv o2)"
    using assms(1) [OF f] s'(2) by (simp_all add: obj_step_def obj_faults_def)
  then obtain xs ys where "dr_objs s = xs @ o1 # ys" "put_obj o2 (dr_objs s) = xs @ o2 # ys"
    using put_obj_split [of o2 "dr_objs s" o1] Some find_obj_hid [OF Some] by auto
  then show ?thesis using st(2) s' by (auto simp: clean_def trace_def)
qed

lemma drv_ok_on_obj:
  assumes "\<And>o1. obj_step ms True o1 (f o1)"
  shows "drv_ok ms s (on_obj i f s)"
proof -
  obtain r s' where w: "with_obj i (\<lambda>o1. ((), f o1)) s = (r, s')" by fastforce
  then show ?thesis
    using drv_ok_with_obj [where c = "\<lambda>_. True", OF _ w, of ms] assms
    by (simp add: on_obj_def drv_ok_def)
qed

lemma drv_ok_on_handler:
  assumes "\<And>h. disc ms h (f h)" "\<And>h. disc ms h (g h)"
  shows "drv_ok ms s (on_handler i f g s)"
  unfolding on_handler_def
  by (auto simp: drv_ok_fault intro!: drv_ok_on_obj obj_step_delegate_unit assms split: option.split)

lemma trace_log:
  "(\<And>s. locks s [a] = Some s) \<Longrightarrow> clean (log_to a s) = clean s \<and> drv_ok ms s (log_to a s)"
  by (auto simp: log_to_def drv_ok_def trace_def clean_def)

lemma drv_ok_bracket:
  assumes "drv_ok (m # ms) (log_to (Lock m) s) s1" "\<forall>m' \<in> set ms. rank m' < rank m"
  shows "drv_ok ms s (log_to (Unlock m) s1)"
proof -
  have "clean (log_to a x) = clean x" "dr_env (log_to a x) = env_log a (dr_env x)" for a and x :: "'a driver"
    by (simp_all add: log_to_def clean_def)
  then show ?thesis
    using trace_bracket [OF _ assms(2), of "clean s" "dr_env s" "clean s1" "dr_env s1"] assms(1)
    by (simp add: drv_ok_def)
qed

lemma drv_ok_start: "drv_ok [] s (utp_start i p q s)"
proof -
  have 1: "disc [] x (start x)" for x :: "'a main_obj"
    unfolding start_def Let_def by (rule disc_bracket) (simp_all add: disc_def)
  have 2: "delegatee (start x) = delegatee x" for x :: "'a main_obj"
    by (simp add: start_def Let_def)
  have "\<exists>as. hlog (MainHandler_new i p q (dr_env s)) = log (dr_env s) @ as \<and> locks [] as = Some []"
    "faults (MainHandler_new i p q (dr_env s)) = []" "delegatee (MainHandler_new i p q (dr_env s)) = None"
    by (simp_all add: MainHandler_new_def Handler_set_port_def Let_def)
  then show ?thesis
    using 1 [of "MainHandler_new i p q (dr_env s)"] 2 [of "MainHandler_new i p q (dr_env s)"]
    by (auto simp: utp_start_def drv_ok_def trace_def clean_def obj_faults_def disc_def locks_append Let_def)
qed

lemma drv_ok_timeouts: "drv_ok [] s (utp_check_timeouts P work i s)"
proof -
  have w: "drv_ok [UtpMutex] s (timeout_work P work s)" for s
  proof (induction P work s rule: timeout_work.induct)
    case (2 P j cbs work s)
    have "disc [UtpMutex] h (run_cbs P cbs h)" for h
      by (rule disc_inner [OF locks.run_cbs_rel]) simp
    then have "drv_ok [UtpMutex] s (on_handler j (run_cbs P cbs) id s)" by (intro drv_ok_on_handler) simp_all
    then show ?case using drv_ok_trans 2 by auto
  qed simp
  have "drv_ok [] s (check_utp_timeouts P work s)"
  proof (cases "main (dr_env s) = None")
    case False
    have "drv_ok [UtpMutex] x (log_to (SetTimer timeout_check) (timeout_work P work (log_to (UtpCall UTP_CheckTimeouts) x)))" for x
      using drv_ok_trans [OF drv_ok_trans [OF conjunct2 [OF trace_log] w] conjunct2 [OF trace_log]] by simp
    then have "drv_ok [] s (log_to (Unlock UtpMutex) (log_to (SetTimer timeout_check)
        (timeout_work P work (log_to (UtpCall UTP_CheckTimeouts) (log_to (Lock UtpMutex) s)))))"
      by (intro drv_ok_bracket) simp_all
    then show ?thesis using False by (simp add: check_utp_timeouts_def Let_def)
  qed (simp add: check_utp_timeouts_def)
  then show ?thesis by (simp add: utp_check_timeouts_def drv_ok_fault split: option.split)
qed

lemma obj_step_find_input: "find_input fd o1 = (r, o2) \<Longrightarrow> obj_step [] True o1 o2"
  by (rule obj_step_disc) (auto simp: find_input_def input_handler_def disc_def split: option.splits if_splits)

lemma obj_step_find_exit: "find_exit mon p o1 = (r, o2) \<Longrightarrow> obj_step [] True o1 o2"
  by (rule obj_step_disc)
    (auto simp: find_exit_def exit_handler_def disc_def Let_def split: option.splits if_splits)

lemma drv_ok_found:
  assumes "\<And>o1 r o2. f o1 = (r, o2) \<Longrightarrow> obj_step [] True o1 o2" "with_obj i f s = (r, s')"
  shows "drv_ok [] s s'"
  using drv_ok_with_obj [where c = "\<lambda>_. True", OF assms(1) assms(2)] by (simp add: drv_ok_def)

text \<open>The server that comes with a datagram, if there is one, is without fault.\<close>

definition sound_server :: "'q utp_handler option option \<Rightarrow> bool" where
  "sound_server r \<longleftrightarrow> (\<forall>srv. r = Some (Some srv) \<longrightarrow> faults srv = [])"

lemma obj_step_datagram:
  assumes "delegate (\<lambda>h. (None, h)) (\<lambda>h. case Listener_input_ready P (d\<lparr>dg_ans := map (run_utp P) rs\<rparr>) h
    of (h', srv) \<Rightarrow> (srv, h')) o1 = (r, o2)"
  shows "obj_step [] (sound_server r) o1 o2"
proof -
  have "obj_step [] (r = None \<or> sound_server r) o1 o2"
  proof (rule obj_step_delegate [OF _ _ assms])
    fix h h' srv
    assume "(case Listener_input_ready P (d\<lparr>dg_ans := map (run_utp P) rs\<rparr>) h of (h', srv) \<Rightarrow> (srv, h')) = (srv, h')"
    then have "Listener_input_ready P (d\<lparr>dg_ans := map (run_utp P) rs\<rparr>) h = (h', srv)"
      by (simp split: prod.splits)
    then show "trace [] (faults h = []) (henv h) (faults h' = [] \<and> sound_server (Some srv)) (henv h')"
      using trace_input_ready [of "d\<lparr>dg_ans := map (run_utp P) rs\<rparr>" P rs h h' srv] by (simp add: sound_server_def)
  qed (simp add: trace_def sound_server_def)
  moreover have "(r = None \<or> sound_server r) = sound_server r" by (auto simp: sound_server_def)
  ultimately show ?thesis by simp
qed

lemma drv_ok_listener_input: "drv_ok [] s (listener_input P (d\<lparr>dg_ans := map (run_utp P) rs\<rparr>) i s)"
proof (cases "find_delegate i (dr_objs s)")
  case (Some o1)
  let ?d = "d\<lparr>dg_ans := map (run_utp P) rs\<rparr>"
  obtain r s1 where w: "with_obj (hid o1) (delegate (\<lambda>h. (None, h))
      (\<lambda>h. case Listener_input_ready P ?d h of (h', srv) \<Rightarrow> (srv, h'))) s = (r, s1)"
    by fastforce
  have t: "trace [] (clean s) (dr_env s) (clean s1 \<and> (r = None \<or> sound_server (the r))) (dr_env s1)"
    by (rule drv_ok_with_obj [where c = "\<lambda>r. sound_server (the r)", OF _ w]) (simp add: obj_step_datagram)
  show ?thesis
  proof (cases "\<exists>srv. r = Some (Some (Some srv))")
    case True
    then obtain srv where r: "r = Some (Some (Some srv))" by blast
    define s2 where "s2 = s1\<lparr>dr_objs := dr_objs s1 @ [MainHandler_wrap (dg_main d) (ConnD srv) (dg_queue d) (dr_env s1)]\<rparr>"
    have "listener_input P ?d i s = s2" using Some w r by (simp add: listener_input_def s2_def)
    moreover have "clean s2 = (clean s1 \<and> faults srv = [])" "dr_env s2 = dr_env s1"
      by (auto simp: s2_def clean_def obj_faults_def MainHandler_wrap_def Handler_set_port_def)
    ultimately show ?thesis using t r by (simp add: drv_ok_def sound_server_def)
  next
    case False
    then have "listener_input P ?d i s = s1" "r = None \<or> sound_server (the r)"
      using Some w by (auto simp: listener_input_def sound_server_def split: option.splits)
    then show ?thesis using t by (simp add: drv_ok_def)
  qed
qed (simp add: listener_input_def drv_ok_fault)

lemma drv_ok_ready_input:
  "drv_ok [] s (utp_ready_input P (map (run_utp P) rs) os (d\<lparr>dg_ans := map (run_utp P) rs\<rparr>) fd i s)"
proof -
  have "drv_ok [] x (on_handler k (input_ready P (map (run_utp P) rs) os) id x)" for x k
    by (rule drv_ok_on_handler) (simp_all add: disc_input)
  then have dis: "drv_ok [] x (dispatch_input P (map (run_utp P) rs) os (d\<lparr>dg_ans := map (run_utp P) rs\<rparr>) k x)" for x k
    by (auto simp: dispatch_input_def drv_ok_fault drv_ok_listener_input split: option.split delegate.split)
  obtain r s1 where w: "with_obj i (find_input fd) s = (r, s1)" by fastforce
  have 1: "drv_ok [] s s1" by (rule drv_ok_found [OF obj_step_find_input w])
  then show ?thesis
    using w drv_ok_trans [OF 1 dis]
    by (auto simp: utp_ready_input_def ready_input_def split: option.split)
qed

lemma drv_ok_process_exit: "drv_ok [] s (utp_process_exit mon p i s)"
proof -
  have ex: "drv_ok [] x (on_handler k (Handler_process_exited p) (Listener_process_exited p) x)" for x :: "'a driver" and k
    by (rule drv_ok_on_handler [OF disc_conn_exit disc_exited])
  obtain r s1 where w: "with_obj i (find_exit mon p) s = (r, s1)" by fastforce
  have 1: "drv_ok [] s s1" by (rule drv_ok_found [OF obj_step_find_exit w])
  then show ?thesis
    using w drv_ok_trans [OF 1 ex]
    by (auto simp: utp_process_exit_def process_exit_def split: option.split)
qed

lemma drv_ok_step: "drv_ok [] s (drv_step P c s)"
proof (cases c)
  case Init
  then show ?thesis using trace_log [of "CreateMutex UtpMutex" s] by (simp add: utp_init_def driver_init_def)
next
  case Finish
  then show ?thesis using trace_log [of "DestroyMutex UtpMutex" s] by (simp add: utp_finish_def driver_finish_def)
next
  case (StopPort rs i)
  then show ?thesis
    by (simp add: utp_stop_def runs_def drv_ok_on_obj obj_step_stop)
next
  case (OutputV rs ev i)
  then show ?thesis
    by (auto simp: utp_outputv_def runs_def MainHandler_outputv_def [abs_def]
        intro!: drv_ok_on_obj obj_step_delegate_unit disc_outputv disc_Listener_outputv)
next
  case (ControlCall c rs names peer cmd buf rlen i)
  then show ?thesis
    by (auto simp: utp_control_cb_def runs_def intro!: drv_ok_on_obj obj_step_control)
next
  case (StopSelect fd)
  then show ?thesis by (simp add: utp_stop_select_def drv_ok_def trace_def clean_def)
next
  case (Caller p f)
  then show ?thesis by (simp add: drv_ok_def trace_def clean_def)
qed (simp_all add: drv_ok_start drv_ok_timeouts drv_ok_ready_input drv_ok_process_exit runs_def)

lemma drv_ok_run: "drv_ok [] s (drv_run P cs s)"
  by (induction cs arbitrary: s) (auto intro: drv_ok_trans drv_ok_step)

text \<open>C3: the driver as a whole uses its mutexes with discipline. Whatever sequence of callbacks the
  Erlang runtime makes, on however many ports, with whatever libutp, the operating system and the
  network answer, and as long as no undefined behaviour is reached: the mutexes are taken in one
  global order (the queue of a listener, libutp, the singleton's tables), never twice, released
  innermost first, and no callback returns with a mutex held.\<close>

theorem driver_mutex_discipline:
  "clean (drv_run P cs s) \<Longrightarrow>
   \<exists>as. log (dr_env (drv_run P cs s)) = log (dr_env s) @ as \<and> locks [] as = Some []"
  using drv_ok_run [of s P cs] by (simp add: drv_ok_def trace_def)

text \<open>Two ports: the singleton, and a server whose socket it watches.\<close>

definition sample_driver :: "byte list list driver" where
  "sample_driver =
     \<lparr>dr_env = env0\<lparr>main := Some \<lparr>mh_id = 1, mh_port = 5, fdmap = [(5, 2)], mon_map = [], proc_mon_map = []\<rparr>\<rparr>,
      dr_objs =
        [(MainHandler_new 1 5 [] env0)\<lparr>has_map_mutex := True\<rparr>,
         MainHandler_wrap 3 (ConnD (sample_conn\<lparr>selected := True\<rparr>)) [] env0],
      dr_faults = []\<rparr>"

text \<open>A datagram, the end of the port, and the timer, when libutp lets go of the socket.\<close>

definition sample_calls :: "byte list list drv_call list" where
  "sample_calls =
     [ReadyInput [UtpRun 1 [(CbIncoming 1, []), (CbRead [7, 8], [])]] (2, [1, 2]) sample_datagram 5 1,
      StopPort [] 3, Timeouts [(2, [(CbState UTP_STATE_DESTROYING, [])])] 1]"

theorem driver_mutex_discipline_witness:
  "locks [] (log (dr_env (drv_run sample_platform sample_calls sample_driver))) = Some [] \<and>
   Delete 2 \<in> set (log (dr_env (drv_run sample_platform sample_calls sample_driver)))"
proof -
  have "let s = drv_run sample_platform sample_calls sample_driver
    in clean s \<and> Delete 2 \<in> set (log (dr_env s))"
    by code_simp
  moreover have "log (dr_env sample_driver) = []" by code_simp
  ultimately show ?thesis
    using driver_mutex_discipline [of sample_platform sample_calls sample_driver] by (simp add: Let_def)
qed

end
