(* ===== verification/Listener_Tables.thy ===== *)
theory Listener_Tables
  imports Table_Owners Driver_Locks
begin

text \<open>
  The entries of listeners: every operation of a listener keeps to its own entries, and so does the
  server that a datagram creates.
\<close>

section \<open>Operations of a listener\<close>

lemma tab_step_cong:
  "main (henv b') = main (henv b) \<Longrightarrow> hid b' = hid b \<Longrightarrow> udp_sock b' = udp_sock b \<Longrightarrow>
   selected b' = selected b \<Longrightarrow> deleted b' = deleted b \<Longrightarrow> tab_step a b' = tab_step a b"
  by (simp add: tab_step_def tab_frame_def tab_ok_def owned_def others_kept_def)

lemma tab_step_simps [simp]:
  "tab_step x (emit a h) = tab_step x h" "tab_step x (fault e h) = tab_step x h"
  "tab_step x (h\<lparr>sockopts := so\<rparr>) = tab_step x h"
  by (rule tab_step_cong; simp)+

lemma tab_step_queue [simp]: "tab_step x (h\<lparr>acceptor_queue := q\<rparr>) = tab_step x h"
  by (rule tab_step_cong) simp_all

lemma main_binary_destroy [simp]: "main (binary_destroy b w) = main w"
  using only_binaries_reset [of w None b] by (simp add: binary_destroy_def only_binaries_def)

lemma tab_step_drop [simp]: "tab_step x (drop_binary b h) = tab_step x h"
  by (rule tab_step_cong) (simp_all add: drop_binary_def)

lemma tab_step_with_env:
  "(\<And>w. only_binaries w (snd (f w))) \<Longrightarrow> tab_step x (snd (with_env f h)) = tab_step x h"
  by (rule tab_step_cong) (simp_all add: only_binaries_def snd_with_env)

lemma tab_step_encode [simp]:
  "tab_step x (snd (with_env (encode_plain P rlen ms) h)) = tab_step x h"
  "tab_step x (snd (with_env (encode_errno P rlen e) h)) = tab_step x h"
  "tab_step x (snd (with_env (SockAddr_encode P rlen e a) h)) = tab_step x h"
  "tab_step x (snd (with_env (getopts_reply P so bs rlen) h)) = tab_step x h"
  by (rule tab_step_with_env, rule encode_plain_env encode_errno_env SockAddr_encode_env getopts_reply_env)+

lemma tab_step_note [simp]: "tab_step x (note_outcome r) = tab_step x (snd r)"
  by (cases r; cases "fst r") (auto simp: note_outcome_def)

lemma tab_step_read [simp]: "tab_step x (snd (snd (emit_read_buffer D len rcvr q0 h))) = tab_step x h"
  using delivers_emit_read_buffer [of h D len rcvr q0]
  by (intro tab_step_cong) (auto simp: delivers_def)

lemma parse_arg_same:
  "parse_arg P buf h = (r, b, h1) \<Longrightarrow> \<exists>w. h1 = h\<lparr>henv := w\<rparr> \<and> main w = main (henv h)"
proof -
  assume p: "parse_arg P buf h = (r, b, h1)"
  obtain w where w: "parse_binary (api P) (ei P) buf binary_new (henv h) = (r, b, w)" "h1 = h\<lparr>henv := w\<rparr>"
    using p by (auto simp: parse_arg_def split: prod.splits)
  then have "only_binaries (henv h) w"
    unfolding parse_binary_def by (metis only_binaries_parse snd_conv)
  then have "main w = main (henv h)" by (simp add: only_binaries_def)
  then show ?thesis using w(2) by blast
qed

lemma parse_arg_tab: "parse_arg P buf h = (r, b, h1) \<Longrightarrow> tab_step h h1 \<and> deleted h1 = deleted h \<and> hid h1 = hid h"
  by (drule parse_arg_same) (auto intro: tab_step_same)

lemma tab_setopts: "tab_step h (snd (SocketHandler_setopts P buf rlen h))"
proof -
  obtain pr b h1 where p: "parse_arg P buf h = (pr, b, h1)" by (metis prod_cases3)
  show ?thesis
    using setopts_cases [OF p, of rlen] parse_arg_tab [OF p] by auto
qed

lemma tab_getopts: "tab_step h (snd (getopts P buf rlen h))"
proof -
  obtain pr b h1 where p: "parse_arg P buf h = (pr, b, h1)" by (metis prod_cases3)
  obtain r h2 where g: "with_env (getopts_reply P (sockopts h1) (bin_bytes b) rlen) h1 = (r, h2)" by fastforce
  have "tab_step h h1" using parse_arg_tab [OF p] by simp
  moreover have "tab_step h h2" using calculation g tab_step_encode(4) [of h P] by (metis snd_conv)
  moreover have "snd (getopts P buf rlen h) \<in> {h1, drop_binary b h1, drop_binary b h2}"
    using p g by (auto simp: getopts_def split: parse.splits)
  ultimately show ?thesis by auto
qed

lemma tab_add_monitor:
  "\<not> deleted h \<Longrightarrow> with_env (add_monitor D p (hid h)) h = (r, h') \<Longrightarrow> tab_step h h'"
  using add_monitor_others [of "hid h" "henv h" D p "udp_sock h" "selected h"]
    snd_with_env [of "add_monitor D p (hid h)" h]
  by (auto simp: tab_step_def tab_frame_def tab_ok_def)

lemma tab_accept: "\<not> deleted h \<Longrightarrow> tab_step h (snd (accept P buf rlen h))"
proof -
  assume del: "\<not> deleted h"
  obtain pr b h1 where p: "parse_arg P buf h = (pr, b, h1)" by (metis prod_cases3)
  have 1: "tab_step h h1" "\<not> deleted h1" using parse_arg_tab [OF p] del by simp_all
  let ?proc = "cur_caller (henv h1)"
  obtain ok h2 where m: "with_env (add_monitor (api P) ?proc (hid h1)) h1 = (ok, h2)" by fastforce
  have 2: "tab_step h h2" by (rule tab_step_trans [OF 1(1) tab_add_monitor [OF 1(2) m]])
  obtain ref h3 where c: "with_env (binary_copy b) (emit (Lock QueueMutex) h2) = (ref, h3)" by fastforce
  have 3: "tab_step h h3"
    using 2 c tab_step_cong [of h3 h2 h] by (auto simp: with_env_def binary_copy_def split: option.splits)
  obtain r h5 where e: "with_env (encode_plain P rlen [enc_tuple_header (ei P) 2, enc_atom (ei P) ''ok'',
      enc_binary (ei P) (bin_bytes b) (int (binary_size b))]) (emit (Unlock QueueMutex)
      (h3\<lparr>acceptor_queue := acceptor_queue h3 @ [\<lparr>acc_caller = ?proc, acc_ref = ref\<rparr>]\<rparr>)) = (r, h5)"
    by fastforce
  have 5: "tab_step h h5"
    using tab_step_encode(1) [of h P rlen _ "emit (Unlock QueueMutex)
      (h3\<lparr>acceptor_queue := acceptor_queue h3 @ [\<lparr>acc_caller = ?proc, acc_ref = ref\<rparr>]\<rparr>)"] 3 e by (metis snd_conv tab_step_queue tab_step_simps(1))
  have "snd (accept P buf rlen h) \<in> {h1, drop_binary b h1, drop_binary b h2, drop_binary b h5}"
    using p m c e by (cases pr; cases ok) (simp_all add: accept_def Let_def)
  then show ?thesis using 1 2 5 by auto
qed

lemma cancel_loop_shrunk: "shrunk w (snd (cancel_loop ref q w))"
  by (induction ref q w rule: cancel_loop.induct)
    (auto simp: kept_main shrunk_del_monitor split: prod.splits
      intro: others_kept_trans [OF shrunk_del_monitor kept_main])

lemma exited_loop_main: "main (snd (exited_loop p q w)) = main w"
  by (induction p q w rule: exited_loop.induct) (auto split: prod.splits)

lemma tab_locked_loop:
  "shrunk (henv a) (snd (f (env_log (Lock QueueMutex) (henv a)))) \<Longrightarrow>
   with_env f (emit (Lock QueueMutex) a) = (q, b) \<Longrightarrow> tab_step a b"
  using snd_with_env [of f "emit (Lock QueueMutex) a"]
  by (intro tab_step_shrunk) auto

lemma tab_cancel_accept: "tab_step h (snd (cancel_accept P buf h))"
proof -
  obtain pr b h1 where p: "parse_arg P buf h = (pr, b, h1)" by (metis prod_cases3)
  have 1: "tab_step h h1" using parse_arg_tab [OF p] by simp
  obtain q h2 where l: "with_env (cancel_loop b (acceptor_queue h1)) (emit (Lock QueueMutex) h1) = (q, h2)"
    by fastforce
  have 2: "tab_step h h2"
    using cancel_loop_shrunk [of "env_log (Lock QueueMutex) (henv h1)"]
    by (intro tab_step_trans [OF 1 tab_locked_loop [OF _ l]]) simp
  have "snd (cancel_accept P buf h) \<in> {h1, drop_binary b h1,
      drop_binary b (emit (Unlock QueueMutex) (h2\<lparr>acceptor_queue := q\<rparr>))}"
    using p l by (auto simp: cancel_accept_def split: parse.splits)
  then show ?thesis using 1 2 by auto
qed

lemma tab_exited: "tab_step h (Listener_process_exited p h)"
proof -
  obtain q h1 where l: "with_env (exited_loop p (acceptor_queue h)) (emit (Lock QueueMutex) h) = (q, h1)" by fastforce
  have "tab_step h h1" by (rule tab_locked_loop [OF _ l]) (simp add: kept_main exited_loop_main)
  then show ?thesis using l by (simp add: Listener_process_exited_def)
qed

lemma tab_Listener_control:
  "\<not> deleted h \<Longrightarrow> tab_step h (note_outcome (Listener_control P names cmd buf rlen h))"
  using tab_setopts tab_getopts [of h P buf rlen]
  by (cases "command_of cmd")
    (auto simp: Listener_control_def SocketHandler_control_def Listener_close_def Listener_peername_def
      sockname_def tab_accept tab_cancel_accept split: prod.splits)

lemma tab_Listener_outputv: "tab_step h (Listener_outputv P ev h)"
  by (rule tab_step_same) (simp_all add: Listener_outputv_def send_not_connected_def)

lemma main_fold_refs: "main (fold (binary_destroy \<circ> acc_ref) q w) = main w"
  by (induction q arbitrary: w) simp_all

lemma tab_Listener_stop: "tab_step h (Listener_stop h)"
proof -
  define h1 where "h1 = unselect h"
  have 1: "tab_step h h1" "\<not> selected h1" using tab_step_unselect [of h] by (simp_all add: h1_def)
  have "tab_step h1 (delete_this (SocketHandler_destroy
      (h1\<lparr>henv := fold (binary_destroy \<circ> acc_ref) (acceptor_queue h1) (henv h1)\<rparr>)))" if "\<not> deleted h1"
    by (rule tab_step_deleted [OF main_fold_refs that 1(2)])
  then have "tab_step h1 (delete_listener h1)"
    by (simp add: delete_listener_def Listener_destroy_def on_env_def)
  then show ?thesis
    using tab_step_trans [OF 1(1)] by (simp add: Listener_stop_def Let_def h1_def unselect_def)
qed

section \<open>Datagrams\<close>

text \<open>A handler that does not exist yet.\<close>

definition fresh_in :: "handler_id \<Rightarrow> env \<Rightarrow> bool" where
  "fresh_in i w \<longleftrightarrow> (\<forall>m. main w = Some m \<longrightarrow>
     mh_id m \<noteq> i \<and> (\<forall>k. (k, i) \<notin> set (fdmap m)) \<and> (\<forall>k. (k, i) \<notin> set (mon_map m)))"

lemma fresh_owned: "fresh_in i w \<Longrightarrow> fd \<noteq> INVALID_SOCKET \<Longrightarrow> owned i fd False False w"
  by (simp add: fresh_in_def owned_def)

lemma fresh_shrunk: "shrunk w w' \<Longrightarrow> fresh_in i w \<Longrightarrow> fresh_in i w'"
  unfolding fresh_in_def others_kept_def by (metis empty_iff)

text \<open>A listener before and after: what its entries depend on has not changed.\<close>

definition lst_same :: "'q listener \<Rightarrow> 'q listener \<Rightarrow> bool" where
  "lst_same a b \<longleftrightarrow> hid b = hid a \<and> udp_sock b = udp_sock a \<and> selected b = selected a \<and> deleted b = deleted a"

lemma lst_same_trans: "lst_same a b \<Longrightarrow> lst_same b c \<Longrightarrow> lst_same a c"
  by (simp add: lst_same_def)

lemma lst_same_simps [simp]:
  "lst_same x x" "lst_same x (emit a h) = lst_same x h" "lst_same x (fault e h) = lst_same x h"
  "lst_same x (h\<lparr>henv := w\<rparr>) = lst_same x h" "lst_same x (h\<lparr>acceptor_queue := q\<rparr>) = lst_same x h"
  "lst_same x (on_env f h) = lst_same x h" "lst_same x (drop_binary b h) = lst_same x h"
  by (simp_all add: lst_same_def drop_binary_def)

lemma offer_tab:
  assumes "offer_datagram (map (run_utp P) rs) bytes s0 = (u, s1)"
  shows "conn_tab s0 s1" "list_all lasting_run rs \<Longrightarrow> lives s0 s1"
proof -
  let ?h = "emit (UtpCall (UTP_IsIncomingUTP bytes)) (emit (Lock UtpMutex) s0)"
  obtain r ans s2 where t: "take_answer (map (run_utp P) rs) ?h = (r, ans, s2)" by (metis prod_cases3)
  have s1: "s1 = emit (Unlock UtpMutex) s2" using assms t by (simp add: offer_datagram_def)
  have "conn_tab ?h s2" using tables.take_answer_rel [OF tables.runs_ok t] by blast
  moreover have "conn_tab s0 ?h" "conn_tab s2 s1" by (rule conn_tab_same; simp add: s1)+
  ultimately show "conn_tab s0 s1" using conn_tab_trans by blast
  show "lives s0 s1" if "list_all lasting_run rs"
    using living.take_answer_rel [OF living.lasting_ok [OF that] t] by (simp add: s1 lives_def)
qed

lemma front_tab [simp]:
  "lst_same x (del_front_monitor h) = lst_same x h" "shrunk w (henv h) \<Longrightarrow> shrunk w (henv (del_front_monitor h))"
  "lst_same x (answer_front t h) = lst_same x h" "main (henv (answer_front t h)) = main (henv h)"
  by (auto simp: del_front_monitor_def answer_front_def Let_def drop_binary_def split: list.splits
      intro: others_kept_trans [OF _ shrunk_del_monitor])

text \<open>The new server gets its own entries, and the listener's stay what they were.\<close>

definition served_well :: "handler_id \<Rightarrow> 'q listener \<Rightarrow> 'q listener \<Rightarrow> 'q utp_handler option \<Rightarrow> bool" where
  "served_well i h h' srv \<longleftrightarrow> lst_same h h' \<and> others_kept (case srv of None \<Rightarrow> {} | Some _ \<Rightarrow> {i}) (henv h) (henv h') \<and>
     (\<forall>s. srv = Some s \<longrightarrow> hid s = i \<and> conn_ok (s\<lparr>henv := henv h'\<rparr>))"

lemma conn_ok_henv: "conn_ok (s\<lparr>henv := w\<rparr>) \<longleftrightarrow>
    owned (hid s) (udp_sock s) (selected s) (deleted s) w \<and> (status s = destroying \<longrightarrow> \<not> selected s)"
  by (simp add: conn_ok_def tab_ok_def)

lemma create_port_tab [simp]:
  "lst_same x (create_port h) = lst_same x h" "main (henv (create_port h)) = main (henv h)"
  by (simp_all add: create_port_def)

text \<open>A server that has been refused is deleted twice, but its entries are gone.\<close>

lemma refused_tab:
  assumes "hid s = i" "\<not> selected s" "conn_ok s" "s' = delete_wrapper j (delete_utp_handler (emit (CloseFd sock) s))"
  shows "conn_ok s' \<and> hid s' = i \<and> others_kept {i} (henv s) (henv s')"
proof -
  define s3 where "s3 = delete_utp_handler (emit (CloseFd sock) s)"
  have 3: "conn_tab (emit (CloseFd sock) s) s3" "\<not> selected s3"
    using conn_tab_delete [of "emit (CloseFd sock) s"] assms(1,2)
    by (simp_all add: s3_def delete_utp_handler_def delete_this_def UtpHandler_destroy_def)
  have "conn_tab s (emit (CloseFd sock) s)" "conn_tab (delete_utp_handler s3) s'"
    by (rule conn_tab_same; simp add: assms(4) s3_def delete_wrapper_def)+
  then have "conn_tab s s'" using 3(1) conn_tab_delete [OF 3(2)] conn_tab_trans by metis
  then show ?thesis using assms(1,3) by (auto simp: conn_tab_def tab_frame_def)
qed

lemma accepted_tab:
  assumes "conn_ok s" "\<not> deleted s" "status s \<noteq> destroying" "shrunk (henv s) w"
    and "s' = set_port p (touch (s\<lparr>henv := w\<rparr>))"
  shows "conn_ok s' \<and> hid s' = hid s \<and> others_kept {hid s} w (henv s')"
proof -
  let ?s = "touch (s\<lparr>henv := w\<rparr>)"
  have s: "conn_ok ?s" "\<not> deleted ?s" "hid ?s = hid s" "henv ?s = w" "status ?s \<noteq> destroying"
    using assms(1-3) shrunk_owned [OF assms(4)] by (simp_all add: touch_def conn_ok_def tab_ok_def)
  have "tab_step ?s s'" unfolding assms(5) using tab_step_set_port [OF s(2)] by blast
  moreover have "status s' = status ?s" by (simp add: assms(5) set_port_def Handler_set_port_def Let_def)
  ultimately show ?thesis using s by (auto simp: conn_ok_def tab_step_def tab_frame_def)
qed

lemma serve_tables:
  assumes "dg_ans d = map (run_utp P) rs" "list_all lasting_run rs"
    and r: "serve_datagram P d sock bytes h = (h', srv)"
    and "fresh_in (dg_server d) (henv h)" "sock \<noteq> INVALID_SOCKET"
  shows "served_well (dg_server d) h h' srv"
proof -
  let ?i = "dg_server d" and ?s0 = "new_server d sock h"
  have s0: "conn_ok ?s0" "hid ?s0 = ?i" "\<not> selected ?s0" "\<not> deleted ?s0" "status ?s0 \<noteq> destroying" "henv ?s0 = henv h"
    using fresh_owned [OF assms(4,5)]
    by (simp_all add: Server_new_def UtpHandler_new_def conn_ok_def tab_ok_def)
  have s1: "conn_ok s1" "hid s1 = ?i" "\<not> selected s1" "\<not> deleted s1" "status s1 \<noteq> destroying"
    "others_kept {?i} (henv h) (henv s1)"
    if "offer_datagram (dg_ans d) bytes ?s0 = (u, s1)" for u s1
  proof -
    have "conn_tab ?s0 s1" "lives ?s0 s1" using offer_tab that assms(1,2) by metis+
    then show "conn_ok s1" "hid s1 = ?i" "\<not> selected s1" "\<not> deleted s1" "status s1 \<noteq> destroying"
      "others_kept {?i} (henv h) (henv s1)"
      using s0 by (auto simp: conn_tab_def tab_frame_def lives_def)
  qed
  show ?thesis
    using r
  proof (cases rule: serve_datagram_cases)
    case (refused s1 s2)
    note 1 = s1 [OF refused(1)]
    have "conn_ok s2" "hid s2 = ?i" "others_kept {?i} (henv h) (henv s2)"
      using refused_tab [OF 1(2,3,1) refused(2)] others_kept_trans [OF 1(6)] by blast+
    then show ?thesis by (simp add: served_well_def refused(3,4))
  next
    case (accepted s1 h3 s2)
    note 1 = s1 [OF accepted(1)]
    have h3: "lst_same h h3" "shrunk (henv s1) (henv h3)"
      using front_tab(2) [of "henv s1" "h\<lparr>henv := henv s1\<rparr>"] kept_main [of "henv s1" "henv s1" "{}"]
        others_kept_trans [OF _ kept_main [of "henv h3" "henv (del_front_monitor (h\<lparr>henv := henv s1\<rparr>))"]]
      by (simp_all add: accepted(2))
    have s2: "conn_ok s2" "hid s2 = ?i" "others_kept {?i} (henv h3) (henv s2)"
      using accepted_tab [OF 1(1,4,5) h3(2) accepted(3)] 1(2) by simp_all
    have h': "lst_same h h'" "main (henv h') = main (henv s2)" using h3(1) by (simp_all add: accepted(4))
    have "others_kept {?i} (henv h) (henv h')"
      by (rule others_kept_trans [OF others_kept_trans [OF kept_shrunk [OF 1(6) h3(2)] s2(3)] kept_main [OF h'(2)]])
    then show ?thesis
      using h'(1) s2 shrunk_owned [OF kept_main [OF h'(2)]]
      by (simp add: served_well_def accepted(5) conn_ok_def tab_ok_def)
  qed
qed

lemma open_socket_main:
  "open_udp_socket os a r w = (err, s, w') \<Longrightarrow> main w' = main w \<and> (s < 0 \<longrightarrow> fst (os_socket os (sa_family_of a)) < 0)"
  by (auto simp: open_udp_socket_def split: prod.splits if_splits)

lemma served_none:
  "lst_same h h' \<Longrightarrow> shrunk (henv h) (henv h') \<Longrightarrow> served_well i h h' None"
  by (simp add: served_well_def)

lemma served_well_frame:
  assumes "served_well i h2 h3 srv" "lst_same h h2" "main (henv h2) = main (henv h)"
  shows "served_well i h (emit a h3) (map_option (emit b) srv)"
  using assms others_kept_trans [OF kept_main [OF assms(3)]] lst_same_trans [OF assms(2)]
    shrunk_owned [OF kept_main [of "env_log a (henv h3)" "henv h3"]]
  by (auto simp: served_well_def conn_ok_def tab_ok_def split: option.splits)

lemma input_tables:
  assumes ans: "dg_ans d = map (run_utp P) rs" "list_all lasting_run rs"
    and r: "Listener_input_ready P d h = (h', srv)"
    and fresh: "fresh_in (dg_server d) (henv h)"
    and net: "\<And>a. fst (os_socket (dg_open d) a) < 0 \<Longrightarrow> connect_loop (dg_connect d) \<noteq> Some None"
  shows "served_well (dg_server d) h h' srv"
proof -
  have opened: "lst_same h (h\<lparr>henv := w\<rparr>)" "main (henv (h\<lparr>henv := w\<rparr>)) = main (henv h)"
    if "open_udp_socket (dg_open d) (my_addr h) True (henv (emit (Lock QueueMutex) h)) = (err, sock, w)" for err sock w
    using open_socket_main [OF that] by simp_all
  have early: "served_well i h (emit a (emit b h)) None" "served_well i h h None" for i a b
    by (rule served_none; simp add: kept_main)+
  show ?thesis
    using r
  proof (cases rule: Listener_input_cases)
    case (unopened err sock w)
    show ?thesis unfolding unopened(5,6)
      by (rule served_none) (simp_all add: kept_main opened(2) [OF unopened(3), simplified])
  next
    case (looping err sock w)
    show ?thesis unfolding looping(6,7)
      by (rule served_none) (simp_all add: kept_main opened(2) [OF looping(3), simplified])
  next
    case (unconnected err sock w e h3)
    have "shrunk (henv h) (henv (del_front_monitor (emit (CloseFd sock) (h\<lparr>henv := w\<rparr>))))"
      by (rule front_tab(2)) (simp add: kept_main opened(2) [OF unconnected(3), simplified])
    then show ?thesis
      unfolding unconnected(6,7,8) by (intro served_none) (simp_all add: others_kept_trans [OF _ kept_main])
  next
    case (serving err sock w bytes h3 s)
    note 2 = opened [OF serving(3)]
    have sock: "sock \<noteq> INVALID_SOCKET"
      using open_socket_main [OF serving(3)] net serving(5) by (auto simp: INVALID_SOCKET_def)
    have "fresh_in (dg_server d) (henv (h\<lparr>henv := w\<rparr>))"
      by (rule fresh_shrunk [OF kept_main [OF 2(2)] fresh])
    from serve_tables [OF ans serving(7) this sock] show ?thesis
      unfolding serving(8,9) by (rule served_well_frame [OF _ 2])
  qed (simp_all add: early)
qed

end
