(* ===== verification/Driver_Tables.thy ===== *)
theory Driver_Tables
  imports Listener_Tables
begin

text \<open>
  The tables of the singleton hold no dangling pointers. Every entry belongs to a handler that
  exists: the one that a port object delegates to. So the handler that \<open>ready_input\<close> or
  \<open>process_exit\<close> finds and calls has not been deleted.
\<close>

section \<open>The invariant\<close>

fun delegate_ok :: "env \<Rightarrow> 'q delegate \<Rightarrow> bool" where
  "delegate_ok w (ConnD h) = conn_ok (h\<lparr>henv := w\<rparr>)"
| "delegate_ok w (ListD h) = tab_ok (h\<lparr>henv := w\<rparr>)"

fun delegates :: "'q main_obj list \<Rightarrow> 'q delegate list" where
  "delegates [] = []"
| "delegates (o1 # os) = (case delegatee o1 of None \<Rightarrow> [] | Some d \<Rightarrow> [d]) @ delegates os"

definition ids :: "'q main_obj list \<Rightarrow> handler_id list" where
  "ids os = map hid os @ map delegate_hid (delegates os)"

definition entries :: "main_handler \<Rightarrow> handler_id set" where
  "entries m = snd ` set (fdmap m) \<union> snd ` set (mon_map m)"

definition tables_live :: "'q driver \<Rightarrow> bool" where
  "tables_live s \<longleftrightarrow> distinct (ids (dr_objs s)) \<and>
     (\<forall>d \<in> set (delegates (dr_objs s)). delegate_ok (dr_env s) d) \<and>
     (\<forall>m. main (dr_env s) = Some m \<longrightarrow>
        mh_id m \<in> hid ` set (dr_objs s) \<and> entries m \<subseteq> delegate_hid ` set (delegates (dr_objs s)))"

lemma delegates_append [simp]: "delegates (xs @ ys) = delegates xs @ delegates ys"
  by (induction xs) simp_all

lemma delegates_mem: "d \<in> set (delegates os) \<longleftrightarrow> (\<exists>o1 \<in> set os. delegatee o1 = Some d)"
  by (induction os) (auto split: option.splits)

lemma delegate_ok_kept:
  "others_kept J w w' \<Longrightarrow> delegate_hid d \<notin> J \<Longrightarrow> delegate_ok w d \<Longrightarrow> delegate_ok w' d"
  by (cases d) (auto simp: conn_ok_def tab_ok_def intro: others_owned)

lemma entries_kept:
  assumes "others_kept J w w'" "main w' = Some m'"
  shows "\<exists>m. main w = Some m \<and> mh_id m' = mh_id m \<and> entries m' \<subseteq> entries m \<union> J"
proof -
  obtain m where m: "main w = Some m" "mh_id m' = mh_id m"
    "\<forall>k j. j \<notin> J \<longrightarrow> (k, j) \<in> set (fdmap m') \<longrightarrow> (k, j) \<in> set (fdmap m)"
    "\<forall>k j. j \<notin> J \<longrightarrow> (k, j) \<in> set (mon_map m') \<longrightarrow> (k, j) \<in> set (mon_map m)"
    using assms unfolding others_kept_def by blast
  then have "entries m' \<subseteq> entries m \<union> J" unfolding entries_def by force
  then show ?thesis using m(1,2) by blast
qed

lemma live_fresh: "tables_live s \<Longrightarrow> i \<notin> set (ids (dr_objs s)) \<Longrightarrow> fresh_in i (dr_env s)"
  unfolding tables_live_def fresh_in_def ids_def entries_def by (force simp: image_iff)

text \<open>
  One object changes and others come: what the invariant asks of the new state, where only
  entries of \<open>J\<close> are new.
\<close>

lemma live_update:
  assumes live: "tables_live s" and objs: "dr_objs s = xs @ o1 # ys"
    and dist: "distinct (ids (xs @ o2 # ys @ zs))" and hid: "hid o2 = hid o1"
    and kept: "others_kept J (dr_env s) w'" and J: "J \<subseteq> delegate_hid ` set (delegates (o2 # zs))"
    and ok: "\<forall>d \<in> set (delegates (o2 # zs)). delegate_ok w' d"
    and sub: "delegate_hid ` set (delegates [o1]) \<subseteq> delegate_hid ` set (delegates (o2 # zs))"
    and s': "dr_env s' = w'" "dr_objs s' = xs @ o2 # ys @ zs"
  shows "tables_live s'"
proof -
  have split: "set (delegates (xs @ o2 # ys @ zs)) = set (delegates (xs @ ys)) \<union> set (delegates (o2 # zs))"
    "set (delegates (xs @ o1 # ys)) = set (delegates (xs @ ys)) \<union> set (delegates [o1])"
    by auto
  have "delegate_hid d \<notin> J" if "d \<in> set (delegates (xs @ ys))" for d
  proof -
    have "distinct (map delegate_hid (delegates xs) @ map delegate_hid (delegates [o2]) @
        map delegate_hid (delegates ys) @ map delegate_hid (delegates zs))"
      using dist by (simp add: ids_def)
    moreover have "delegate_hid d \<in> delegate_hid ` set (delegates xs) \<union> delegate_hid ` set (delegates ys)"
      using that by auto
    ultimately have "delegate_hid d \<notin> delegate_hid ` set (delegates (o2 # zs))"
      by (auto simp del: image_eqI split: option.splits) 
    then show ?thesis using J by blast
  qed
  then have "delegate_ok w' d" if "d \<in> set (delegates (xs @ ys))" for d
    using that live objs delegate_ok_kept [OF kept] by (auto simp: tables_live_def)
  then have 1: "\<forall>d \<in> set (delegates (xs @ o2 # ys @ zs)). delegate_ok w' d"
    using ok split(1) by blast
  have 2: "mh_id m \<in> hid ` set (xs @ o2 # ys @ zs) \<and>
      entries m \<subseteq> delegate_hid ` set (delegates (xs @ o2 # ys @ zs))" if m: "main w' = Some m" for m
  proof -
    obtain m0 where m0: "main (dr_env s) = Some m0" "mh_id m = mh_id m0" "entries m \<subseteq> entries m0 \<union> J"
      using entries_kept [OF kept m] by blast
    have "mh_id m0 \<in> hid ` set (xs @ o1 # ys)" "entries m0 \<subseteq> delegate_hid ` set (delegates (xs @ o1 # ys))"
      using live m0(1) objs by (simp_all add: tables_live_def)
    then have "mh_id m \<in> hid ` set (xs @ o2 # ys @ zs)" using m0(2) hid by auto
    moreover have "entries m \<subseteq> delegate_hid ` set (delegates (xs @ o2 # ys @ zs))"
    proof -
      have "entries m0 \<subseteq> delegate_hid ` set (delegates (xs @ ys)) \<union> delegate_hid ` set (delegates [o1])"
        using \<open>entries m0 \<subseteq> _\<close> by (simp only: split image_Un)
      then have "entries m0 \<subseteq> delegate_hid ` set (delegates (xs @ ys)) \<union> delegate_hid ` set (delegates (o2 # zs))"
        by (rule order.trans) (rule Un_mono [OF order.refl sub])
      then show ?thesis using m0(3) J unfolding split image_Un by (meson Un_least order.trans sup_ge2)
    qed
    ultimately show ?thesis by blast
  qed
  show ?thesis
    using dist 1 2 unfolding tables_live_def s' by blast
qed

section \<open>Steps of a port object\<close>

definition obj_tab :: "'q main_obj \<Rightarrow> 'q main_obj \<Rightarrow> bool" where
  "obj_tab o1 o2 \<longleftrightarrow> hid o2 = hid o1 \<and>
     (case delegatee o1 of
        None \<Rightarrow> delegatee o2 = None \<and> shrunk (henv o1) (henv o2)
      | Some d \<Rightarrow> \<exists>d'. delegatee o2 = Some d' \<and> delegate_hid d' = delegate_hid d \<and>
          others_kept {delegate_hid d} (henv o1) (henv o2) \<and>
          (delegate_ok (henv o1) d \<longrightarrow> delegate_ok (henv o2) d'))"

lemma obj_tab_shrunk:
  "shrunk (henv o1) (henv o2) \<Longrightarrow> hid o2 = hid o1 \<Longrightarrow> delegatee o2 = delegatee o1 \<Longrightarrow> obj_tab o1 o2"
  by (auto simp: obj_tab_def shrunk_kept delegate_ok_kept split: option.split)

lemma obj_tab_trans: "obj_tab o1 o2 \<Longrightarrow> obj_tab o2 o3 \<Longrightarrow> obj_tab o1 o3"
  unfolding obj_tab_def using others_kept_trans by (auto split: option.splits)

lemma obj_tab_delegate:
  assumes f: "\<And>h r h'. f h = (r, h') \<Longrightarrow> conn_tab h h'"
    and g: "\<And>h r h'. \<not> deleted h \<Longrightarrow> g h = (r, h') \<Longrightarrow> tab_step h h'"
    and d: "delegate f g o1 = (r, o2)"
  shows "obj_tab o1 o2"
proof (cases "delegatee o1")
  case None
  then show ?thesis using d by (simp add: delegate_def obj_tab_shrunk kept_main)
next
  case (Some x)
  have same: "obj_tab o1 (fault e o1)" for e by (rule obj_tab_shrunk) (simp_all add: kept_main)
  show ?thesis
  proof (cases x)
    case (ConnD h)
    obtain y h' where fh: "f (h\<lparr>henv := henv o1\<rparr>) = (y, h')" by fastforce
    show ?thesis
      using f [OF fh] d Some ConnD fh same
      by (auto simp: delegate_def obj_tab_def conn_tab_def tab_frame_def split: if_splits)
  next
    case (ListD h)
    obtain y h' where gh: "g (h\<lparr>henv := henv o1\<rparr>) = (y, h')" by fastforce
    show ?thesis
      using g [OF _ gh] d Some ListD gh same
      by (auto simp: delegate_def obj_tab_def tab_step_def tab_frame_def split: if_splits)
  qed
qed

lemma obj_tab_delegate_unit:
  assumes "\<And>h. conn_tab h (f h)" "\<And>h. \<not> deleted h \<Longrightarrow> tab_step h (g h)"
  shows "obj_tab o1 (snd (delegate (\<lambda>h. ((), f h)) (\<lambda>h. ((), g h)) o1))"
  by (rule obj_tab_delegate [OF _ _ prod.collapse [symmetric]]) (use assms in auto)

lemma conn_tab_ops:
  "conn_tab h (outputv P (map (run_utp P) rs) ev h)" "conn_tab h (stop P (map (run_utp P) rs) h)"
  "conn_tab h (input_ready P (map (run_utp P) rs) os h)" "conn_tab h (Handler_process_exited p h)"
  "conn_tab h (run_cbs P cbs h)"
  using conn_step_tab [of "Output ev rs" h P] conn_step_tab [of "Stop rs" h P]
    conn_step_tab [of "Input os rs" h P] conn_step_tab [of "Exit p" h P] conn_step_tab [of "Callbacks cbs" h P]
  by simp_all

lemma tab_note_conn: "conn_tab h (note_outcome r) = conn_tab h (snd r)"
proof -
  have "conn_tab h (fault x k) = conn_tab h k" for x k
    by (simp add: conn_tab_def tab_frame_def conn_ok_def tab_ok_def)
  then show ?thesis by (cases r; cases "fst r") (auto simp: note_outcome_def)
qed

lemma obj_tab_stop: "obj_tab o1 (MainHandler_stop P (map (run_utp P) rs) o1)"
proof -
  have "main (deselect_all m w) = main w" for m w
    by (induction m w rule: deselect_all.induct) simp_all
  then have "shrunk (henv x) (henv (stop_main x))" for x :: "'a main_obj"
    by (auto simp: stop_main_def Let_def kept_main kept_None split: option.splits)
  then have "obj_tab x (stop_main x)" for x :: "'a main_obj"
    by (rule obj_tab_shrunk) (auto simp: stop_main_def Let_def split: option.splits)
  then show ?thesis
    unfolding MainHandler_stop_def
    by (rule obj_tab_trans [OF obj_tab_delegate_unit [OF conn_tab_ops(2) tab_Listener_stop]])
qed

lemma obj_tab_find: "find_input fd o1 = (r, o2) \<Longrightarrow> obj_tab o1 o2" "find_exit mon p o1 = (r2, o2) \<Longrightarrow> obj_tab o1 o2"
proof -
  show "find_input fd o1 = (r, o2) \<Longrightarrow> obj_tab o1 o2"
    by (rule obj_tab_shrunk)
      (auto simp: find_input_def input_handler_def kept_main split: option.splits if_splits)
  show "find_exit mon p o1 = (r2, o2) \<Longrightarrow> obj_tab o1 o2"
    by (rule obj_tab_shrunk)
      (auto simp: find_exit_def exit_handler_def Let_def others_kept_def smap_erase_def split: option.splits if_splits)
qed

section \<open>A port that becomes a connection or a listener\<close>

text \<open>\<open>i\<close> is the new handler.\<close>

definition obj_new :: "handler_id \<Rightarrow> 'q main_obj \<Rightarrow> 'q main_obj \<Rightarrow> bool" where
  "obj_new i o1 o2 \<longleftrightarrow> hid o2 = hid o1 \<and> delegatee o1 = None \<and>
     (\<exists>d. delegatee o2 = Some d \<and> delegate_hid d = i \<and> others_kept {i} (henv o1) (henv o2) \<and>
        (fresh_in i (henv o1) \<longrightarrow> delegate_ok (henv o2) d))"

definition obj_same :: "'q main_obj \<Rightarrow> 'q main_obj \<Rightarrow> bool" where
  "obj_same o1 o2 \<longleftrightarrow> hid o2 = hid o1 \<and> delegatee o2 = delegatee o1 \<and> main (henv o2) = main (henv o1)"

lemma obj_same_simps [simp]:
  "obj_same x x" "obj_same x (drop_binary b h) = obj_same x h" "obj_same x (fault e h) = obj_same x h"
  by (simp_all add: obj_same_def drop_binary_def)

lemma obj_same_trans: "obj_same o1 o2 \<Longrightarrow> obj_same o2 o3 \<Longrightarrow> obj_same o1 o3"
  by (simp add: obj_same_def)

lemma obj_same_tab: "obj_same o1 o2 \<Longrightarrow> obj_tab o1 o2"
  by (rule obj_tab_shrunk) (simp_all add: obj_same_def kept_main)

lemma fresh_in_main: "main w' = main w \<Longrightarrow> fresh_in i w' = fresh_in i w"
  by (simp add: fresh_in_def)

lemma obj_new_same:
  assumes "obj_same o1 o2" "obj_new i o2 o3" "obj_same o3 o4"
  shows "obj_new i o1 o4"
proof -
  have m: "main (henv o2) = main (henv o1)" "main (henv o4) = main (henv o3)"
    using assms(1,3) by (simp_all add: obj_same_def)
  obtain d where d: "delegatee o3 = Some d" "delegate_hid d = i" "others_kept {i} (henv o2) (henv o3)"
    "fresh_in i (henv o2) \<longrightarrow> delegate_ok (henv o3) d"
    using assms(2) by (auto simp: obj_new_def)
  have "others_kept {i} (henv o1) (henv o4)"
    by (rule others_kept_trans [OF kept_main [OF m(1)] others_kept_trans [OF d(3) kept_main [OF m(2)]]])
  moreover have "fresh_in i (henv o1) \<longrightarrow> delegate_ok (henv o4) d"
    using d(4) fresh_in_main [OF m(1)] delegate_ok_kept [OF kept_main [OF m(2)], of d "{}"] by simp
  ultimately show ?thesis
    using assms d by (simp add: obj_new_def obj_same_def)
qed

lemma conn_tab_connect_to: "conn_tab h (connect_to (map (run_utp P) rs) u h)"
proof -
  let ?h1 = "(emit (UtpCall UTP_Create) (emit (Lock UtpMutex) (h\<lparr>status := connect_pending\<rparr>)))\<lparr>utp := u\<rparr>"
  define h2 where "h2 = set_utp_callbacks ?h1"
  obtain r ans h3 where c: "call_utp UTP_Connect (map (run_utp P) rs) h2 = (r, ans, h3)" by (metis prod_cases3)
  have "conn_tab h ?h1" by (rule conn_tab_core) (simp add: core_def)
  moreover have "conn_tab ?h1 h2"
    using quiet_set_utp_callbacks [of ?h1] by (intro conn_tab_core) (simp add: h2_def quiet_def)
  moreover have "conn_tab h2 h3" using tables.call_utp_rel [OF tables.runs_ok c] by blast
  moreover have "conn_tab h3 (emit (Unlock UtpMutex) h3)" by (rule conn_tab_same) simp_all
  moreover have "connect_to (map (run_utp P) rs) u h = emit (Unlock UtpMutex) h3"
    using c by (simp add: connect_to_def h2_def Let_def)
  ultimately show ?thesis using conn_tab_trans by metis
qed

lemma clear_port_kept:
  "hid (clear_port o1) = hid o1" "delegatee (clear_port o1) = delegatee o1"
  "shrunk (henv o1) (henv (clear_port o1))"
  by (auto simp: clear_port_def others_kept_def split: option.splits)

lemma new_become_client:
  assumes "delegatee o1 = None" "sock \<noteq> INVALID_SOCKET"
  shows "obj_new (op_id c) o1 (become_client P (c\<lparr>op_ans := map (run_utp P) rs\<rparr>) so sock o1)"
proof -
  define c0 where "c0 = Client_new (op_id c) (ioq o1) (henv o1) sock so"
  define c1 where "c1 = set_port (port o1) c0"
  define o2 where "o2 = clear_port (o1\<lparr>henv := henv c1\<rparr>)"
  define c2 where "c2 = connect_to (map (run_utp P) rs) (op_utp c) (c1\<lparr>henv := henv o2\<rparr>)"
  have c0: "henv c0 = henv o1" "hid c0 = op_id c" "\<not> deleted c0" "status c0 \<noteq> destroying"
    "fresh_in (op_id c) (henv o1) \<longrightarrow> conn_ok c0"
    using fresh_owned [OF _ assms(2), of "op_id c" "henv o1"]
    by (simp_all add: c0_def Client_new_def UtpHandler_new_def conn_ok_def tab_ok_def)
  have t: "tab_step c0 c1" using tab_step_set_port [OF c0(3)] by (simp add: c1_def)
  have "status c1 \<noteq> destroying" using c0(4) by (simp add: c1_def set_port_def Handler_set_port_def Let_def)
  then have 1: "conn_tab c0 c1" by (intro conn_tab_step [OF t]) simp
  have o2: "shrunk (henv c1) (henv o2)" "hid o2 = hid o1"
    using clear_port_kept [of "o1\<lparr>henv := henv c1\<rparr>"] by (simp_all add: o2_def)
  have 2: "conn_tab c1 (c1\<lparr>henv := henv o2\<rparr>)"
    by (rule conn_tab_step [OF tab_step_shrunk]) (simp_all add: o2)
  have "conn_tab c0 c2"
    using conn_tab_trans [OF conn_tab_trans [OF 1 2] conn_tab_connect_to] by (simp add: c2_def)
  then have "hid c2 = op_id c" "others_kept {op_id c} (henv o1) (henv c2)"
    "fresh_in (op_id c) (henv o1) \<longrightarrow> conn_ok c2"
    using c0 by (auto simp: conn_tab_def tab_frame_def)
  moreover have "become_client P (c\<lparr>op_ans := map (run_utp P) rs\<rparr>) so sock o1 =
      o2\<lparr>delegatee := Some (ConnD c2), henv := henv c2\<rparr>"
    by (simp add: become_client_def c0_def c1_def o2_def c2_def Let_def)
  ultimately show ?thesis using o2(2) assms(1) by (simp add: obj_new_def)
qed

lemma new_become_listener:
  assumes "delegatee o1 = None" "sock \<noteq> INVALID_SOCKET" "become_listener P c so sock o1 = (r, o2)"
  shows "o2 = o1 \<or> obj_new (op_id c) o1 o2"
proof (cases "Listener_new (op_id c) (ioq o1) (henv o1) (op_myaddr c) sock so")
  case (Ret l)
  then have l: "henv l = henv o1" "hid l = op_id c" "\<not> deleted l" "udp_sock l = sock" "\<not> selected l"
    by (auto simp: Listener_new_def split: prod.splits if_splits)
  define l1 where "l1 = set_port (port o1) l"
  define o3 where "o3 = clear_port (o1\<lparr>henv := henv l1\<rparr>)"
  have o3: "shrunk (henv l1) (henv o3)" "hid o3 = hid o1"
    using clear_port_kept [of "o1\<lparr>henv := henv l1\<rparr>"] by (simp_all add: o3_def)
  have "tab_step l l1" using tab_step_set_port [OF l(3)] by (simp add: l1_def)
  then have "tab_step l (l1\<lparr>henv := henv o3\<rparr>)"
    by (rule tab_step_trans [OF _ tab_step_shrunk]) (simp_all add: o3)
  then have "hid l1 = op_id c" "others_kept {op_id c} (henv o1) (henv o3)"
    "fresh_in (op_id c) (henv o1) \<longrightarrow> tab_ok (l1\<lparr>henv := henv o3\<rparr>)"
    using l fresh_owned [OF _ assms(2), of "op_id c" "henv o1"]
    by (auto simp: tab_step_def tab_frame_def tab_ok_def)
  moreover have "o2 = o3\<lparr>delegatee := Some (ListD (l1\<lparr>henv := henv o3\<rparr>))\<rparr>"
    using assms(3) Ret by (simp add: become_listener_def l1_def o3_def Let_def)
  ultimately show ?thesis using o3(2) assms(1) by (simp add: obj_new_def)
qed (use assms in \<open>auto simp: become_listener_def\<close>)

text \<open>A system call that fails sets \<open>errno\<close>, which is positive.\<close>

definition errno_law :: "os_open \<Rightarrow> bool" where
  "errno_law os \<longleftrightarrow> (\<forall>a. fst (os_socket os a) < 0 \<longrightarrow> 0 < snd (os_socket os a))"

lemma open_valid:
  "open_udp_socket os a r w = (0, s, w') \<Longrightarrow> errno_law os \<Longrightarrow> s \<noteq> INVALID_SOCKET"
proof -
  assume o: "open_udp_socket os a r w = (0, s, w')" and "errno_law os"
  then have "fst (os_socket os (sa_family_of a)) < 0 \<longrightarrow> 0 < snd (os_socket os (sa_family_of a))"
    by (simp add: errno_law_def)
  then show ?thesis
    using o by (auto simp: open_udp_socket_def INVALID_SOCKET_def split: prod.splits if_splits)
qed

lemma choose_valid:
  "choose_socket P c so reuse w = (Ret (0, sock), w') \<Longrightarrow> errno_law (op_open c) \<Longrightarrow> sock \<noteq> INVALID_SOCKET"
  by (auto simp: choose_socket_def open_udp_socket_port_def
      split: if_splits prod.splits cpp.splits dest: open_valid)

lemma choose_same: "choose_socket P c so reuse (henv o1) = (r, w) \<Longrightarrow> obj_same o1 (o1\<lparr>henv := w\<rparr>)"
  using choose_socket_env [of P c so reuse "henv o1" r w] by (auto simp: obj_same_def)

lemma encode_same:
  "with_env (encode_error P rlen e) o1 = (r, o2) \<Longrightarrow> obj_same o1 o2"
  "with_env (encode_atom P rlen e) o1 = (r, o2) \<Longrightarrow> obj_same o1 o2"
  using encode_error_env [of "henv o1" P rlen e] encode_atom_env [of "henv o1" P rlen e]
    snd_with_env [of "encode_error P rlen e" o1] snd_with_env [of "encode_atom P rlen e" o1]
  by (auto simp: obj_same_def only_binaries_def)

definition obj_starts :: "handler_id \<Rightarrow> 'q main_obj \<Rightarrow> 'q main_obj \<Rightarrow> bool" where
  "obj_starts i o1 o2 \<longleftrightarrow> obj_same o1 o2 \<or> obj_new i o1 o2"

lemma starts_same: "obj_same o1 o2 \<Longrightarrow> obj_starts i o1 o2"
  by (simp add: obj_starts_def)

lemma starts_trans:
  "obj_same o1 o2 \<Longrightarrow> obj_starts i o2 o3 \<Longrightarrow> obj_same o3 o4 \<Longrightarrow> obj_starts i o1 o4"
  unfolding obj_starts_def using obj_same_trans obj_new_same by blast

lemma starts_drop [simp]: "obj_starts i x (drop_binary b h) = obj_starts i x h"
  using starts_trans [OF obj_same_simps(1), of i x "drop_binary b h" h]
    starts_trans [OF obj_same_simps(1), of i x h "drop_binary b h"]
  by (auto simp: obj_same_def drop_binary_def)

interpretation table_start: port_start P "\<lambda>c. answers_by_runs P c \<and> errno_law (op_open c)"
  "\<lambda>o1 b o2. obj_same o1 o2 \<and> delegatee o1 = None" "\<lambda>c k o1 b o2. obj_starts (op_id c) o1 o2"
  "\<lambda>rlen c k o1 r o2. obj_starts (op_id c) o1 o2" for P :: "'q platform"
proof unfold_locales
  fix o1 o2 :: "'q main_obj" and b buf pr str n r rlen and c :: "'q opener"
  assume o1: "delegatee o1 = None"
  show "obj_same o1 o2 \<and> delegatee o1 = None" if "parse_connect P buf o1 = (pr, str, n, b, o2)"
    using parse_connect_env [OF that] o1 by (auto simp: obj_same_def only_binaries_def)
  show "obj_same o1 o2 \<and> delegatee o1 = None" if "parse_arg P buf o1 = (pr, b, o2)"
    using parse_arg_same [OF that] o1 by (auto simp: obj_same_def)
  show "obj_starts (op_id c) o1 o2" if "with_env (encode_error P rlen ''enotsup'') o1 = (r, o2)"
    by (rule starts_same [OF encode_same(1) [OF that]])
next
  fix o1 o2 o3 :: "'q main_obj" and b so reuse rs w w' sock r err rlen and c :: "'q opener"
  assume 2: "obj_same o1 o2 \<and> delegatee o1 = None"
  then have d: "delegatee o2 = None" by (simp add: obj_same_def)
  show "obj_same o1 (o2\<lparr>henv := w\<rparr>) \<and> delegatee o1 = None" if "choose_socket P c so reuse (henv o2) = (rs, w)"
    using 2 obj_same_trans [OF _ choose_same [OF that]] by simp
  assume c: "answers_by_runs P c \<and> errno_law (op_open c)" and s: "choose_socket P c so reuse w = (Ret (0, sock), w')"
  then have sock: "sock \<noteq> INVALID_SOCKET" using choose_valid by blast
  obtain rs where "c = c\<lparr>op_ans := map (run_utp P) rs\<rparr>" using c answers_by_runsE by blast
  then have "obj_starts (op_id c) o2 (become_client P c so sock o2)"
    using new_become_client [OF d sock, of c P rs so] by (simp add: obj_starts_def)
  then show "obj_starts (op_id c) o1 (become_client P c so sock o2)" using 2 starts_trans by fastforce
  show "obj_starts (op_id c) o1 o3" if "become_listener P c so sock o2 = (Ret (), o3)"
    using new_become_listener [OF d sock that] 2 starts_trans [of o1 o2 "op_id c" o3 o3] by (auto simp: obj_starts_def)
next
  fix o1 o2 o3 :: "'q main_obj" and b r err rlen and c :: "'q opener"
  assume 2: "obj_same o1 o2 \<and> delegatee o1 = None"
  then show "obj_starts (op_id c) o1 o2 \<and> obj_starts (op_id c) o1 (drop_binary b o2)" by (simp add: starts_same)
  show "obj_starts (op_id c) o1 (drop_binary b o3)"
    if "with_env (encode_error P rlen (errno_id (api P) err)) o2 = (r, o3)"
    using 2 obj_same_trans [OF _ encode_same(1) [OF that]] by (simp add: starts_same)
next
  fix o1 o2 o3 :: "'q main_obj" and b r rlen and c :: "'q opener"
  assume "obj_starts (op_id c) o1 o2" "with_env (encode_atom P rlen ''ok'') o2 = (r, o3)"
  then show "obj_starts (op_id c) o1 (drop_binary b o3)"
    using starts_trans [OF obj_same_simps(1) _ encode_same(2)] by simp
qed

text \<open>The control operation: the delegatee's own, or the start of one.\<close>

definition obj_ctl :: "handler_id \<Rightarrow> 'q main_obj \<Rightarrow> 'q main_obj \<Rightarrow> bool" where
  "obj_ctl i o1 o2 \<longleftrightarrow> obj_tab o1 o2 \<or> obj_new i o1 o2"

lemma starts_ctl: "obj_starts i o1 o2 \<Longrightarrow> obj_ctl i o1 o2"
  unfolding obj_starts_def obj_ctl_def using obj_same_tab by blast

lemma ctl_note: "obj_ctl i o1 (snd r) \<Longrightarrow> obj_ctl i o1 (note_outcome r)"
proof -
  have "obj_ctl i o1 o2 \<Longrightarrow> obj_ctl i o1 (fault x o2)" for o2 :: "'a main_obj" and x
    unfolding obj_ctl_def
    using obj_tab_trans [OF _ obj_same_tab, of o1 o2 "fault x o2"] obj_new_same [of o1 o1 i o2 "fault x o2"]
    by (auto simp: obj_same_def)
  then show "obj_ctl i o1 (snd r) \<Longrightarrow> obj_ctl i o1 (note_outcome r)"
    by (cases r; cases "fst r") (auto simp: note_outcome_def)
qed

lemma control_ctl:
  assumes "errno_law (op_open c)"
  shows "obj_ctl (op_id c) o1 (note_outcome (MainHandler_control P (c\<lparr>op_ans := map (run_utp P) rs\<rparr>)
    \<lparr>cw_ans = map (run_utp P) rs, cw_sockname = names, cw_peername = peer\<rparr> cmd buf rlen o1))"
proof (rule ctl_note, cases "delegatee o1")
  case None
  then show "obj_ctl (op_id c) o1 (snd (MainHandler_control P (c\<lparr>op_ans := map (run_utp P) rs\<rparr>)
      \<lparr>cw_ans = map (run_utp P) rs, cw_sockname = names, cw_peername = peer\<rparr> cmd buf rlen o1))"
    using table_start.control_ended [OF _ _ prod.collapse [symmetric], of o1 P "c\<lparr>op_ans := map (run_utp P) rs\<rparr>"] assms
    by (simp add: starts_ctl)
next
  case (Some x)
  let ?cw = "\<lparr>cw_ans = map (run_utp P) rs, cw_sockname = names, cw_peername = peer\<rparr>"
  obtain r o2 where d: "delegate (utp_control P ?cw cmd buf rlen) (Listener_control P names cmd buf rlen) o1 = (r, o2)"
    by fastforce
  have "conn_tab h h'" if "utp_control P ?cw cmd buf rlen h = (r, h')" for h r h'
    using conn_step_tab [of "Control cmd buf rlen rs names peer" h P] that by (simp add: tab_note_conn)
  moreover have "tab_step h h'" if "\<not> deleted h" "Listener_control P names cmd buf rlen h = (r, h')" for h r h'
    using tab_Listener_control [OF that(1), of P names cmd buf rlen] that(2) by simp
  ultimately have "obj_tab o1 o2" by (rule obj_tab_delegate [OF _ _ d])
  then show "obj_ctl (op_id c) o1 (snd (MainHandler_control P (c\<lparr>op_ans := map (run_utp P) rs\<rparr>) ?cw cmd buf rlen o1))"
    using Some d by (simp add: MainHandler_control_def obj_ctl_def split: option.splits)
qed

section \<open>The driver\<close>

lemma find_obj_mem: "find_obj i os = Some o1 \<Longrightarrow> o1 \<in> set os"
  by (induction os) (auto split: if_splits)

lemma with_obj_cases:
  assumes "with_obj i f s = (r, s')" "\<And>o1 r o2. f o1 = (r, o2) \<Longrightarrow> hid o2 = hid o1"
  obtains (gone) "s' = dr_fault UseAfterFree s" "r = None"
  | (found) xs o1 ys r2 o2 where "dr_objs s = xs @ o1 # ys" "f (o1\<lparr>henv := dr_env s\<rparr>) = (r2, o2)"
      "r = Some r2" "hid o1 = i" "s' = s\<lparr>dr_env := henv o2, dr_objs := xs @ o2 # ys\<rparr>"
proof (cases "find_obj i (dr_objs s)")
  case None
  then show ?thesis using assms(1) gone by (simp add: with_obj_def)
next
  case (Some o1)
  obtain r2 o2 where f: "f (o1\<lparr>henv := dr_env s\<rparr>) = (r2, o2)" by fastforce
  have h: "hid o1 = i" "hid o2 = i" using find_obj_hid [OF Some] assms(2) [OF f] by simp_all
  then obtain xs ys where "dr_objs s = xs @ o1 # ys" "put_obj o2 (dr_objs s) = xs @ o2 # ys"
    using put_obj_split [of o2 "dr_objs s" o1] Some by auto
  then show ?thesis using assms(1) Some f h(1) found by (simp add: with_obj_def)
qed

lemma live_fault [simp]: "tables_live (dr_fault x s) = tables_live s" "dr_objs (dr_fault x s) = dr_objs s"
  by (simp_all add: tables_live_def dr_fault_def)

lemma live_delegate:
  "tables_live s \<Longrightarrow> dr_objs s = xs @ o1 # ys \<Longrightarrow> delegatee o1 = Some d \<Longrightarrow> delegate_ok (dr_env s) d"
  by (simp add: tables_live_def)

lemma live_obj_tab:
  assumes live: "tables_live s" and objs: "dr_objs s = xs @ o1 # ys" and t: "obj_tab (o1\<lparr>henv := dr_env s\<rparr>) o2"
  shows "tables_live (s\<lparr>dr_env := henv o2, dr_objs := xs @ o2 # ys\<rparr>) \<and> ids (xs @ o2 # ys) = ids (dr_objs s)"
proof -
  have hid: "hid o2 = hid o1" using t by (simp add: obj_tab_def)
  have del: "map delegate_hid (delegates [o2]) = map delegate_hid (delegates [o1])"
    using t by (auto simp: obj_tab_def split: option.splits)
  then have ids: "ids (xs @ o2 # ys) = ids (dr_objs s)" using hid by (simp add: ids_def objs)
  define J where "J = delegate_hid ` set (delegates [o1])"
  have "tables_live (s\<lparr>dr_env := henv o2, dr_objs := xs @ o2 # ys\<rparr>)"
  proof (rule live_update [OF live objs, where zs = "[]" and J = J])
    show "distinct (ids (xs @ o2 # ys @ []))" using live ids by (simp add: tables_live_def)
    show "hid o2 = hid o1" by (rule hid)
    show "others_kept J (dr_env s) (henv o2)"
      using t by (auto simp: J_def obj_tab_def split: option.splits)
    show "J \<subseteq> delegate_hid ` set (delegates [o2])" "delegate_hid ` set (delegates [o1]) \<subseteq> delegate_hid ` set (delegates [o2])"
      using arg_cong [OF del, of set] by (simp_all add: J_def)
    show "\<forall>d \<in> set (delegates [o2]). delegate_ok (henv o2) d"
      using t live_delegate [OF live objs] by (auto simp: obj_tab_def split: option.splits)
  qed simp_all
  then show ?thesis using ids by simp
qed

lemma live_obj_new:
  assumes live: "tables_live s" and objs: "dr_objs s = xs @ o1 # ys" and t: "obj_new i (o1\<lparr>henv := dr_env s\<rparr>) o2"
    and i: "i \<notin> set (ids (dr_objs s))"
  shows "tables_live (s\<lparr>dr_env := henv o2, dr_objs := xs @ o2 # ys\<rparr>)"
proof -
  obtain d where d: "hid o2 = hid o1" "delegatee o1 = None" "delegatee o2 = Some d" "delegate_hid d = i"
    "others_kept {i} (dr_env s) (henv o2)" "delegate_ok (henv o2) d"
    using t live_fresh [OF live i] by (auto simp: obj_new_def)
  show ?thesis
  proof (rule live_update [OF live objs, where zs = "[]" and J = "{i}"])
    show "distinct (ids (xs @ o2 # ys @ []))"
      using live i d by (auto simp: tables_live_def ids_def objs)
  qed (use d in simp_all)
qed

lemma live_with_tab:
  assumes "tables_live s" "\<And>o1 r o2. f o1 = (r, o2) \<Longrightarrow> obj_tab o1 o2" "with_obj i f s = (r, s')"
  shows "tables_live s' \<and> ids (dr_objs s') = ids (dr_objs s)"
proof (rule with_obj_cases [OF assms(3)])
  show "f o1 = (r, o2) \<Longrightarrow> hid o2 = hid o1" for o1 r o2 using assms(2) by (auto simp: obj_tab_def)
next
  fix xs o1 ys r2 o2
  assume o: "dr_objs s = xs @ o1 # ys" "f (o1\<lparr>henv := dr_env s\<rparr>) = (r2, o2)"
    "s' = s\<lparr>dr_env := henv o2, dr_objs := xs @ o2 # ys\<rparr>"
  show ?thesis using live_obj_tab [OF assms(1) o(1) assms(2) [OF o(2)]] o(3) by simp
qed (use assms(1) in simp)

lemma live_on_obj:
  assumes "tables_live s" "\<And>o1. obj_tab o1 (f o1)"
  shows "tables_live (on_obj i f s)"
  using live_with_tab [OF assms(1) _ prod.collapse [symmetric], of "\<lambda>o1. ((), f o1)" i] assms(2)
  by (auto simp: on_obj_def)

lemma live_on_handler:
  assumes "tables_live s" "\<And>h. conn_tab h (f h)" "\<And>h. \<not> deleted h \<Longrightarrow> tab_step h (g h)"
  shows "tables_live (on_handler i f g s)"
  using assms by (auto simp: on_handler_def intro!: live_on_obj obj_tab_delegate_unit split: option.split)

lemma live_control:
  assumes "tables_live s" "errno_law (op_open c)" "op_id c \<notin> set (ids (dr_objs s))"
  shows "tables_live (utp_control_cb P (c\<lparr>op_ans := map (run_utp P) rs\<rparr>)
    \<lparr>cw_ans = map (run_utp P) rs, cw_sockname = names, cw_peername = peer\<rparr> cmd buf rlen i s)"
proof -
  define f where "f o1 = note_outcome (MainHandler_control P (c\<lparr>op_ans := map (run_utp P) rs\<rparr>)
    \<lparr>cw_ans = map (run_utp P) rs, cw_sockname = names, cw_peername = peer\<rparr> cmd buf rlen o1)" for o1
  have f: "obj_ctl (op_id c) o1 (f o1)" for o1 unfolding f_def by (rule control_ctl [OF assms(2)])
  then have hid: "hid (f o1) = hid o1" for o1 by (auto simp: obj_ctl_def obj_tab_def obj_new_def)
  obtain r s' where w: "with_obj i (\<lambda>o1. ((), f o1)) s = (r, s')" by fastforce
  have "tables_live s'"
  proof (rule with_obj_cases [OF w])
    fix xs o1 ys r2 o2
    assume o: "dr_objs s = xs @ o1 # ys" "((), f (o1\<lparr>henv := dr_env s\<rparr>)) = (r2, o2)"
      "s' = s\<lparr>dr_env := henv o2, dr_objs := xs @ o2 # ys\<rparr>"
    then show "tables_live s'"
      using f [of "o1\<lparr>henv := dr_env s\<rparr>"] live_obj_tab [OF assms(1) o(1)]
        live_obj_new [OF assms(1) o(1) _ assms(3)] unfolding obj_ctl_def by auto
  qed (use assms(1) hid in auto)
  moreover have "utp_control_cb P (c\<lparr>op_ans := map (run_utp P) rs\<rparr>)
    \<lparr>cw_ans = map (run_utp P) rs, cw_sockname = names, cw_peername = peer\<rparr> cmd buf rlen i s = s'"
    using w by (simp add: utp_control_cb_def on_obj_def f_def)
  ultimately show ?thesis by simp
qed

text \<open>Starting a port: a new object, perhaps a new singleton.\<close>

lemma live_start:
  assumes live: "tables_live s" and i: "i \<notin> set (ids (dr_objs s))"
  shows "tables_live (utp_start i p q s)"
proof -
  define o1 where "o1 = start (MainHandler_new i p q (dr_env s))"
  have o1: "hid o1 = i" "delegatee o1 = None"
    by (simp_all add: o1_def start_def MainHandler_new_def Handler_set_port_def Let_def)
  have m: "main (henv o1) = (case main (dr_env s) of
      None \<Rightarrow> Some \<lparr>mh_id = i, mh_port = p, fdmap = [], mon_map = [], proc_mon_map = []\<rparr> | Some m \<Rightarrow> Some m)"
    by (simp add: o1_def start_def MainHandler_new_def Handler_set_port_def Let_def split: option.split)
  have "delegate_ok (henv o1) d" if d: "d \<in> set (delegates (dr_objs s))" for d
  proof -
    have "delegate_ok (dr_env s) d" using live d by (simp add: tables_live_def)
    moreover have "delegate_hid d \<noteq> i" using i d by (auto simp: ids_def)
    ultimately show ?thesis
      using m by (cases d) (auto simp: conn_ok_def tab_ok_def owned_def split: option.splits)
  qed
  moreover have "distinct (ids (dr_objs s @ [o1]))" "hid ` set (dr_objs s @ [o1]) = insert i (hid ` set (dr_objs s))"
    "delegates (dr_objs s @ [o1]) = delegates (dr_objs s)"
    using live i o1 by (auto simp: tables_live_def ids_def)
  ultimately have "tables_live (s\<lparr>dr_env := henv o1, dr_objs := dr_objs s @ [o1]\<rparr>)"
    using live m by (auto simp: tables_live_def entries_def split: option.splits)
  then show ?thesis by (simp add: utp_start_def o1_def Let_def)
qed

lemma live_env:
  "tables_live s \<Longrightarrow> main w = main (dr_env s) \<Longrightarrow> tables_live (s\<lparr>dr_env := w\<rparr>)"
  using delegate_ok_kept [OF kept_main, of w "dr_env s" _ "{}"] by (auto simp add: tables_live_def)

lemma live_log: "tables_live s \<Longrightarrow> tables_live (log_to a s)"
  unfolding log_to_def by (rule live_env) simp_all

lemma live_timeouts: "tables_live s \<Longrightarrow> tables_live (utp_check_timeouts P work i s)"
proof -
  have w: "tables_live s \<Longrightarrow> tables_live (timeout_work P work s)" for s
    by (induction P work s rule: timeout_work.induct) (simp_all add: live_on_handler conn_tab_ops(5))
  show "tables_live s \<Longrightarrow> tables_live (utp_check_timeouts P work i s)"
    by (auto simp: utp_check_timeouts_def check_utp_timeouts_def Let_def live_log w split: option.split)
qed

lemma live_exit: "tables_live s \<Longrightarrow> tables_live (utp_process_exit mon p i s)"
proof -
  assume live: "tables_live s"
  obtain r s1 where w: "with_obj i (find_exit mon p) s = (r, s1)" by fastforce
  have "tables_live s1"
    by (rule conjunct1 [OF live_with_tab [OF live _ w]]) (rule obj_tab_find(2))
  then show ?thesis
    using w by (auto simp: utp_process_exit_def process_exit_def live_on_handler conn_tab_ops(4) tab_exited
        split: option.split)
qed

section \<open>Datagrams\<close>

text \<open>What is assumed of a datagram for a listener: the new objects have identities of their own,
  \<open>connect\<close> fails on a socket that could not be created, and libutp does not destroy the
  socket it is about to create.\<close>

definition datagram_sane :: "'q datagram \<Rightarrow> utp_run list \<Rightarrow> 'q main_obj list \<Rightarrow> bool" where
  "datagram_sane d rs os \<longleftrightarrow>
     distinct (dg_server d # dg_main d # ids os) \<and> list_all lasting_run rs \<and>
     (\<forall>a. fst (os_socket (dg_open d) a) < 0 \<longrightarrow> connect_loop (dg_connect d) \<noteq> Some None)"

text \<open>The server that a datagram creates comes with a port object.\<close>

definition wrapped :: "'q datagram \<Rightarrow> 'q utp_handler option \<Rightarrow> env \<Rightarrow> 'q main_obj list" where
  "wrapped d srv w =
     (case srv of None \<Rightarrow> [] | Some s \<Rightarrow> [MainHandler_wrap (dg_main d) (ConnD s) (dg_queue d) w])"

lemma wrapped_simps [simp]:
  "delegates (wrapped d srv w) = (case srv of None \<Rightarrow> [] | Some s \<Rightarrow> [ConnD s])"
  "map hid (wrapped d srv w) = (case srv of None \<Rightarrow> [] | Some s \<Rightarrow> [dg_main d])"
  by (auto simp: wrapped_def MainHandler_wrap_def Handler_set_port_def split: option.split)

lemma live_served:
  assumes live: "tables_live s" and sane: "datagram_sane d rs (dr_objs s)"
    and o: "dr_objs s = xs @ o1 # ys" and h: "delegatee o1 = Some (ListD h)"
    and r: "Listener_input_ready P (d\<lparr>dg_ans := map (run_utp P) rs\<rparr>) (h\<lparr>henv := dr_env s\<rparr>) = (h', srv)"
  shows "tables_live (s\<lparr>dr_env := henv h',
    dr_objs := xs @ o1\<lparr>delegatee := Some (ListD h'), henv := henv h'\<rparr> # ys @ wrapped d srv (henv h')\<rparr>)"
proof -
  let ?i = "dg_server d" and ?o = "o1\<lparr>delegatee := Some (ListD h'), henv := henv h'\<rparr>"
  let ?zs = "wrapped d srv (henv h')"
  have new: "?i \<notin> set (ids (dr_objs s))" "dg_main d \<notin> set (ids (dr_objs s))" "dg_main d \<noteq> ?i"
    using sane by (auto simp: datagram_sane_def)
  have "served_well ?i (h\<lparr>henv := dr_env s\<rparr>) h' srv"
    using input_tables [OF _ _ r, of rs] sane live_fresh [OF live new(1)] by (auto simp: datagram_sane_def)
  then have sw: "hid h' = hid h" "tab_ok h' = owned (hid h) (udp_sock h) (selected h) (deleted h) (henv h')"
    "others_kept (case srv of None \<Rightarrow> {} | Some _ \<Rightarrow> {?i}) (dr_env s) (henv h')"
    "\<And>s. srv = Some s \<Longrightarrow> hid s = ?i \<and> conn_ok (s\<lparr>henv := henv h'\<rparr>)"
    by (auto simp: served_well_def lst_same_def tab_ok_def)
  have hs: "hid h \<noteq> ?i" using new(1) h o by (auto simp: ids_def)
  have "owned (hid h) (udp_sock h) (selected h) (deleted h) (dr_env s)"
    using live_delegate [OF live o h] by (simp add: tab_ok_def)
  then have ok: "tab_ok h'"
    unfolding sw(2) by (rule others_owned [OF sw(3), rotated]) (auto simp: hs split: option.split)
  show ?thesis
  proof (rule live_update [OF live o, where zs = ?zs and J = "case srv of None \<Rightarrow> {} | Some _ \<Rightarrow> {?i}"])
    show "distinct (ids (xs @ ?o # ys @ ?zs))"
      using live new o sw(1,4) h by (auto simp: tables_live_def ids_def split: option.splits)
    show "\<forall>x \<in> set (delegates (?o # ?zs)). delegate_ok (henv h') x"
      using ok sw(4) by (auto split: option.splits)
  qed (use sw h in \<open>auto split: option.splits\<close>)
qed

lemma live_listener_input:
  assumes live: "tables_live s" and sane: "datagram_sane d rs (dr_objs s)"
  shows "tables_live (listener_input P (d\<lparr>dg_ans := map (run_utp P) rs\<rparr>) i s)"
proof (cases "find_delegate i (dr_objs s)")
  case (Some o1)
  let ?d = "d\<lparr>dg_ans := map (run_utp P) rs\<rparr>"
  define f where "f = delegate (\<lambda>h. (None, h)) (\<lambda>h. case Listener_input_ready P ?d h of (h', srv) \<Rightarrow> (srv, h'))"
  obtain r s1 where w: "with_obj (hid o1) f s = (r, s1)" by fastforce
  have res: "listener_input P ?d i s = (case r of Some (Some srv) \<Rightarrow>
      s1\<lparr>dr_objs := dr_objs s1 @ wrapped d srv (dr_env s1)\<rparr> | _ \<Rightarrow> s1)"
    using Some w by (simp add: listener_input_def f_def wrapped_def split: option.split)
  show ?thesis
  proof (rule with_obj_cases [OF w])
    show "f o1 = (r, o2) \<Longrightarrow> hid o2 = hid o1" for o1 r o2
      by (auto simp: f_def delegate_def split: option.splits delegate.splits if_splits prod.splits)
  next
    fix xs o1 ys r2 o2
    assume o: "dr_objs s = xs @ o1 # ys" "f (o1\<lparr>henv := dr_env s\<rparr>) = (r2, o2)" "r = Some r2"
      "s1 = s\<lparr>dr_env := henv o2, dr_objs := xs @ o2 # ys\<rparr>"
    show ?thesis
    proof (cases "\<exists>h. delegatee o1 = Some (ListD h) \<and> \<not> deleted h")
      case False
      then have "r2 = None \<or> r2 = Some None" "obj_tab (o1\<lparr>henv := dr_env s\<rparr>) o2"
        using o(2) by (auto simp: f_def delegate_def obj_tab_def kept_main delegate_ok_kept
            split: option.splits delegate.splits if_splits)
      then show ?thesis using live_obj_tab [OF live o(1)] res o(3,4) by (auto simp: wrapped_def)
    next
      case True
      then obtain h where h: "delegatee o1 = Some (ListD h)" "\<not> deleted h" by blast
      obtain h' srv where r: "Listener_input_ready P ?d (h\<lparr>henv := dr_env s\<rparr>) = (h', srv)" by fastforce
      have "r2 = Some srv" "o2 = o1\<lparr>delegatee := Some (ListD h'), henv := henv h'\<rparr>"
        using o(2) h r by (simp_all add: f_def delegate_def)
      then show ?thesis using live_served [OF live sane o(1) h(1) r] res o(3,4) by simp
    qed
  qed (use live res in \<open>simp split: option.split\<close>)
qed (simp add: listener_input_def live)

text \<open>Whether input on a socket would reach a listener.\<close>

definition reaches_listener :: "'q driver \<Rightarrow> int \<Rightarrow> bool" where
  "reaches_listener s fd \<longleftrightarrow>
     (case main (dr_env s) of
        None \<Rightarrow> False
      | Some m \<Rightarrow>
          (case smap_find (fdmap m) fd of
             None \<Rightarrow> False
           | Some k \<Rightarrow>
               (case find_delegate k (dr_objs s) of
                  None \<Rightarrow> False
                | Some o1 \<Rightarrow> (case delegatee o1 of Some (ListD _) \<Rightarrow> True | _ \<Rightarrow> False))))"

lemma find_input_same:
  assumes "with_obj i (find_input fd) s = (Some (Some k), s1)"
  shows "\<exists>m. main (dr_env s) = Some m \<and> smap_find (fdmap m) fd = Some k"
  using assms by (auto simp: with_obj_def find_input_def input_handler_def split: option.splits if_splits prod.splits)

lemma find_input_keeps:
  assumes "with_obj i (find_input fd) s = (r, s1)"
  shows "main (dr_env s1) = main (dr_env s)" "map delegatee (dr_objs s1) = map delegatee (dr_objs s)"
    "map hid (dr_objs s1) = map hid (dr_objs s)"
proof -
  have f: "hid o2 = hid o1 \<and> delegatee o2 = delegatee o1 \<and> main (henv o2) = main (henv o1)"
    if "find_input fd o1 = (r, o2)" for o1 r and o2 :: "'a main_obj"
    using that by (auto simp: find_input_def input_handler_def split: option.splits if_splits)
  show "main (dr_env s1) = main (dr_env s)" "map delegatee (dr_objs s1) = map delegatee (dr_objs s)"
    "map hid (dr_objs s1) = map hid (dr_objs s)"
    by (rule with_obj_cases [OF assms]; use f in \<open>fastforce simp: dr_fault_def\<close>)+
qed

lemma find_delegate_type:
  "map delegatee os = map delegatee os' \<Longrightarrow>
   map_option delegatee (find_delegate i os) = map_option delegatee (find_delegate i os')"
proof (induction os arbitrary: os')
  case (Cons o1 os)
  then obtain o2 os2 where "os' = o2 # os2" "delegatee o1 = delegatee o2" "map delegatee os = map delegatee os2"
    by (cases os') auto
  then show ?case using Cons(1) [of os2] by (simp add: delegates_to_def)
qed simp

lemma live_ready_input:
  assumes live: "tables_live s" and sane: "reaches_listener s fd \<Longrightarrow> datagram_sane d rs (dr_objs s)"
  shows "tables_live (utp_ready_input P (map (run_utp P) rs) os (d\<lparr>dg_ans := map (run_utp P) rs\<rparr>) fd i s)"
proof -
  obtain r s1 where w: "with_obj i (find_input fd) s = (r, s1)" by fastforce
  have 1: "tables_live s1 \<and> ids (dr_objs s1) = ids (dr_objs s)"
    by (rule live_with_tab [OF live _ w]) (rule obj_tab_find(1))
  have "tables_live (dispatch_input P (map (run_utp P) rs) os (d\<lparr>dg_ans := map (run_utp P) rs\<rparr>) k s1)"
    if r: "r = Some (Some k)" for k
  proof (cases "\<exists>o1 l. find_delegate k (dr_objs s1) = Some o1 \<and> delegatee o1 = Some (ListD l)")
    case True
    then obtain o1 l where o1: "find_delegate k (dr_objs s1) = Some o1" "delegatee o1 = Some (ListD l)" by blast
    obtain o0 where o0: "find_delegate k (dr_objs s) = Some o0" "delegatee o0 = Some (ListD l)"
      using find_delegate_type [OF find_input_keeps(2) [OF w], of k] o1
      by (cases "find_delegate k (dr_objs s)") auto
    have "reaches_listener s fd"
      using find_input_same w r o0 by (fastforce simp: reaches_listener_def)
    then have "datagram_sane d rs (dr_objs s1)" using sane 1 by (simp add: datagram_sane_def)
    from live_listener_input [OF conjunct1 [OF 1] this, of P k]
    show ?thesis using o1 by (simp add: dispatch_input_def)
  next
    case False
    have "tables_live (on_handler k (input_ready P (map (run_utp P) rs) os) id s1)"
      using 1 by (simp add: live_on_handler conn_tab_ops(3))
    then show ?thesis
      using False 1 by (auto simp: dispatch_input_def split: option.split delegate.split)
  qed
  then show ?thesis
    using w 1 by (auto simp: utp_ready_input_def ready_input_def split: option.split)
qed

section \<open>Runs\<close>

text \<open>What is assumed of the surroundings at each call: objects that are created have identities of
  their own, failing system calls set \<open>errno\<close>, and datagrams are as above.\<close>

fun sane_call :: "'q driver \<Rightarrow> 'q drv_call \<Rightarrow> bool" where
  "sane_call s (Start i p q) = (i \<notin> set (ids (dr_objs s)))"
| "sane_call s (ControlCall c rs names peer cmd buf rlen i) =
     (errno_law (op_open c) \<and> op_id c \<notin> set (ids (dr_objs s)))"
| "sane_call s (ReadyInput rs os d fd i) =
     (reaches_listener s fd \<longrightarrow> datagram_sane d rs (dr_objs s))"
| "sane_call s _ = True"

fun sane_run :: "'q platform \<Rightarrow> 'q drv_call list \<Rightarrow> 'q driver \<Rightarrow> bool" where
  "sane_run P [] s = True"
| "sane_run P (c # cs) s = (sane_call s c \<and> sane_run P cs (drv_step P c s))"

lemma live_step: "tables_live s \<Longrightarrow> sane_call s c \<Longrightarrow> tables_live (drv_step P c s)"
proof (cases c)
  case (StopPort rs i)
  then show "tables_live s \<Longrightarrow> sane_call s c \<Longrightarrow> tables_live (drv_step P c s)"
    by (simp add: utp_stop_def runs_def live_on_obj obj_tab_stop)
next
  case (OutputV rs ev i)
  then show "tables_live s \<Longrightarrow> sane_call s c \<Longrightarrow> tables_live (drv_step P c s)"
    by (auto simp: utp_outputv_def runs_def MainHandler_outputv_def [abs_def]
        intro!: live_on_obj obj_tab_delegate_unit conn_tab_ops(1) tab_Listener_outputv)
qed (simp_all add: live_start live_timeouts live_exit live_ready_input live_control runs_def live_log live_env
  utp_init_def driver_init_def utp_finish_def driver_finish_def utp_stop_select_def)

lemma live_run: "tables_live s \<Longrightarrow> sane_run P cs s \<Longrightarrow> tables_live (drv_run P cs s)"
  by (induction cs arbitrary: s) (simp_all add: live_step)

lemma live_found:
  assumes "tables_live s" "main (dr_env s) = Some m" "i \<in> entries m"
  obtains o1 d where "find_delegate i (dr_objs s) = Some o1" "delegatee o1 = Some d" "delegate_hid d = i"
    "delegate_ok (dr_env s) d"
proof -
  have "find_delegate i os \<noteq> None" if "i \<in> delegate_hid ` set (delegates os)" for os :: "'a main_obj list"
    using that by (induction os) (auto simp: delegates_to_def split: option.splits)
  then obtain o1 where o1: "find_delegate i (dr_objs s) = Some o1"
    using assms unfolding tables_live_def by blast
  have "find_delegate i os = Some o1 \<Longrightarrow> o1 \<in> set os \<and> delegates_to i o1" for os :: "'a main_obj list"
    by (induction os) (auto split: if_splits)
  then have "o1 \<in> set (dr_objs s)" "delegates_to i o1" using o1 by blast+
  then obtain d where "delegatee o1 = Some d" "delegate_hid d = i" "d \<in> set (delegates (dr_objs s))"
    by (auto simp: delegates_to_def delegates_mem split: option.splits)
  then show ?thesis using that o1 assms(1) by (simp add: tables_live_def)
qed

text \<open>The socket that a handler reads from, while it does.\<close>

fun reads_from :: "'q delegate \<Rightarrow> int option" where
  "reads_from (ConnD h) = (if selected h then Some (udp_sock h) else None)"
| "reads_from (ListD h) = (if selected h then Some (udp_sock h) else None)"

text \<open>C4: the tables of the singleton hold no dangling pointers. Start the driver with no port, and let
  the runtime make any sequence of calls, with any answers of libutp, of the operating system and
  of the network that respect the stated assumptions: the handler that an entry of either table
  points to exists, is the delegatee of a port object, and has not been deleted. One that is in
  the table of sockets reads from that very socket. So what \<open>ready_input\<close> and \<open>process_exit\<close> find
  and call after they have released the mutex is a living handler.\<close>

theorem no_dangling_handlers:
  assumes "dr_objs s = []" "main (dr_env s) = None" "sane_run P cs s"
    and "main (dr_env (drv_run P cs s)) = Some m"
  shows "((fd, i) \<in> set (fdmap m) \<longrightarrow>
      (\<exists>o1 d. find_delegate i (dr_objs (drv_run P cs s)) = Some o1 \<and> delegatee o1 = Some d \<and>
         \<not> delegate_deleted d \<and> reads_from d = Some fd)) \<and>
    ((mon, i) \<in> set (mon_map m) \<longrightarrow>
      (\<exists>o1 d. find_delegate i (dr_objs (drv_run P cs s)) = Some o1 \<and> delegatee o1 = Some d \<and>
         \<not> delegate_deleted d))"
proof -
  let ?s = "drv_run P cs s"
  have "tables_live s" using assms(1,2) by (simp add: tables_live_def ids_def)
  then have live: "tables_live ?s" using assms(3) by (rule live_run)
  have own: "((fd, i) \<in> set (fdmap m) \<longrightarrow> \<not> delegate_deleted d \<and> reads_from d = Some fd) \<and>
      ((mon, i) \<in> set (mon_map m) \<longrightarrow> \<not> delegate_deleted d)"
    if "delegate_ok (dr_env ?s) d" "delegate_hid d = i" for d
    using that assms(4) by (cases d) (auto simp: conn_ok_def tab_ok_def owned_def)
  have "\<exists>o1 d. find_delegate i (dr_objs ?s) = Some o1 \<and> delegatee o1 = Some d \<and>
      delegate_hid d = i \<and> delegate_ok (dr_env ?s) d"
    if "i \<in> entries m"
    using live_found [OF live assms(4) that] by blast
  moreover have "(fd, i) \<in> set (fdmap m) \<Longrightarrow> i \<in> entries m" "(mon, i) \<in> set (mon_map m) \<Longrightarrow> i \<in> entries m"
    by (force simp: entries_def)+
  ultimately show ?thesis using own by blast
qed

section \<open>A sample run\<close>

text \<open>The singleton, a listener with a waiting process, and input that comes to nothing.\<close>

definition empty_driver :: "byte list list driver" where
  "empty_driver = \<lparr>dr_env = env0, dr_objs = [], dr_faults = []\<rparr>"

text \<open>A library that reads binaries of up to 255 bytes.\<close>

definition short_platform :: "byte list list platform" where
  "short_platform = sample_platform\<lparr>ei := sample_ei
     \<lparr>ei_x_call := \<lambda>_. put_bytes [0],
      ei_get_type := \<lambda>bs i. (0, i, 109, unat (bs ! (i + 4))),
      ei_decode_binary := tagged 109 (\<lambda>r. (4 + unat (r ! 3), take (unat (r ! 3)) (drop 4 r))) []\<rparr>\<rparr>"

definition sample_opener :: "byte list list opener" where
  "sample_opener =
     \<lparr>op_fdname = (0, 0), op_open = sample_open, op_myaddr = (0, 0, SockAddr_in [127, 0, 0, 1] 9),
      op_utp = Some 1, op_ans = [], op_id = 3\<rparr>"

definition sample_control :: "handler_id \<Rightarrow> nat \<Rightarrow> byte list \<Rightarrow> byte list list drv_call" where
  "sample_control j cmd bs = ControlCall (sample_opener\<lparr>op_id := j\<rparr>) []
     (0, 0, SockAddr_in [127, 0, 0, 1] 9) (0, SockAddr_in [127, 0, 0, 1] 9) cmd bs 100 2"

definition boot_datagram :: "byte list list datagram" where
  "boot_datagram = sample_datagram\<lparr>dg_recv := (0, [], SockAddr_in [127, 0, 0, 1] 80)\<rparr>"

definition boot_calls :: "byte list list drv_call list" where
  "boot_calls =
     [Start 1 7 [], Start 2 8 [], sample_control 3 1 [131, 109, 0, 0, 0, 0],
      sample_control 9 2 [131, 109, 0, 0, 0, 1, 9],
      ReadyInput [UtpRun 1 []] (2, [1, 2]) boot_datagram 5 1]"

lemma sane_run_take:
  "(\<And>n. n < length cs \<Longrightarrow> sane_call (drv_run P (take n cs) s) (cs ! n)) \<Longrightarrow> sane_run P cs s"
proof (induction cs arbitrary: s)
  case (Cons c cs)
  show ?case
    using Cons(2) [of 0] Cons(2) [of "Suc n" for n] by (auto intro!: Cons(1))
qed simp

lemma boot_run:
  "map (\<lambda>n. ids (dr_objs (drv_run short_platform (take n boot_calls) empty_driver))) [0, 1, 2, 3, 4] =
     [[], [1], [1, 2], [1, 2, 3], [1, 2, 3]] \<and>
   (case main (dr_env (drv_run short_platform boot_calls empty_driver)) of
      None \<Rightarrow> False | Some m \<Rightarrow> fdmap m = [(5, 3)] \<and> mon_map m = [(0, 3)])"
  by code_simp

lemma boot_sane: "sane_run short_platform boot_calls empty_driver"
proof (rule sane_run_take)
  fix n
  let ?s = "\<lambda>n. drv_run short_platform (take n boot_calls) empty_driver"
  have ids: "ids (dr_objs (?s 0)) = []" "ids (dr_objs (?s 1)) = [1]" "ids (dr_objs (?s 2)) = [1, 2]"
    "ids (dr_objs (?s 3)) = [1, 2, 3]" "ids (dr_objs (?s 4)) = [1, 2, 3]"
    using boot_run by simp_all
  have c: "boot_calls ! 0 = Start 1 7 []" "boot_calls ! 1 = Start 2 8 []" "boot_calls ! 2 = sample_control 3 1 [131, 109, 0, 0, 0, 0]"
    "boot_calls ! 3 = sample_control 9 2 [131, 109, 0, 0, 0, 1, 9]"
    "boot_calls ! 4 = ReadyInput [UtpRun 1 []] (2, [1, 2]) boot_datagram 5 1"
    by (simp_all add: boot_calls_def)
  have law: "errno_law (op_open (sample_opener\<lparr>op_id := j\<rparr>))" for j
    by (simp add: errno_law_def sample_opener_def sample_open_def)
  have dg: "datagram_sane boot_datagram [UtpRun 1 []] (dr_objs (?s 4))"
    using ids(5) by (simp add: datagram_sane_def boot_datagram_def sample_datagram_def sample_open_def)
  assume "n < length boot_calls"
  then consider "n = 0" | "n = 1" | "n = 2" | "n = 3" | "n = 4"
    by (simp add: boot_calls_def) linarith
  then show "sane_call (?s n) (boot_calls ! n)"
    by cases (simp_all only: c sample_control_def sane_call.simps ids law dg, simp_all)
qed

theorem no_dangling_handlers_witness:
  "\<exists>m. main (dr_env (drv_run short_platform boot_calls empty_driver)) = Some m \<and>
     (5, 3) \<in> set (fdmap m) \<and> (0, 3) \<in> set (mon_map m) \<and>
     (\<exists>o1 d. find_delegate 3 (dr_objs (drv_run short_platform boot_calls empty_driver)) = Some o1 \<and>
        delegatee o1 = Some d \<and> \<not> delegate_deleted d \<and> reads_from d = Some 5)"
proof -
  obtain m where m: "main (dr_env (drv_run short_platform boot_calls empty_driver)) = Some m"
    "fdmap m = [(5, 3)]" "mon_map m = [(0, 3)]"
    using boot_run by (auto split: option.splits)
  have e: "dr_objs empty_driver = []" "main (dr_env empty_driver) = None" by code_simp+
  show ?thesis
    using m no_dangling_handlers [OF e boot_sane m(1), where fd = 5 and i = 3]
    by auto
qed

end
