(* ===== verification/Driver_References.thy ===== *)
theory Driver_References
  imports References Driver_Tables
begin

text \<open>
  Reference counts over the whole driver: listeners, the servers that datagrams create, port
  objects, and every call of the runtime. No call gives back a reference that some handler still
  needs.
\<close>

section \<open>Listeners\<close>

definition listener_refs :: "'q listener \<Rightarrow> binary list" where
  "listener_refs h = (if deleted h then [] else map acc_ref (acceptor_queue h))"

interpretation lst: owner listener_refs
  by unfold_locales (simp_all add: listener_refs_def)

lemma keeps_queue:
  "\<not> deleted b \<Longrightarrow> (\<And>k. refc k (log w) - holders k (map acc_ref q) - holders k ls' =
     refc k (hlog b) - holders k (map acc_ref (acceptor_queue b)) - holders k ls) \<Longrightarrow>
   keeps listener_refs ls b ls' (b\<lparr>henv := w, acceptor_queue := q\<rparr>)"
  by (simp add: keeps_def spare_def listener_refs_def)

lemma cancel_loop_refs:
  "refc k (log (snd (cancel_loop ref q w))) - holders k (map acc_ref (fst (cancel_loop ref q w))) =
   refc k (log w) - holders k (map acc_ref q)"
  by (induction ref q w rule: cancel_loop.induct) (auto simp: refc_binary_destroy split: prod.splits)

lemma exited_loop_refs:
  "refc k (log (snd (exited_loop p q w))) - holders k (map acc_ref (fst (exited_loop p q w))) =
   refc k (log w) - holders k (map acc_ref q)"
  by (induction p q w rule: exited_loop.induct) (auto simp: refc_binary_destroy split: prod.splits)

lemma refc_fold_acceptors:
  "refc k (log (fold (binary_destroy \<circ> acc_ref) q w)) = refc k (log w) - holders k (map acc_ref q)"
  by (induction q arbitrary: w) (simp_all add: refc_binary_destroy)

lemma keeps_accept: "\<not> deleted h \<Longrightarrow> keeps listener_refs [] h [] (snd (accept P buf rlen h))"
proof -
  assume del: "\<not> deleted h"
  obtain pr b h1 where p: "parse_arg P buf h = (pr, b, h1)" by (metis prod_cases3)
  note 1 = lst.keeps_parse_arg [OF p]
  have d1: "\<not> deleted h1" using parse_arg_tab [OF p] del by simp
  let ?proc = "cur_caller (henv h1)"
  obtain ok h2 where m: "with_env (add_monitor (api P) ?proc (hid h1)) h1 = (ok, h2)" by fastforce
  have "h2 = h1\<lparr>henv := snd (add_monitor (api P) ?proc (hid h1) (henv h1))\<rparr>"
    using m snd_with_env [of "add_monitor (api P) ?proc (hid h1)" h1] by simp
  then have 2: "keeps listener_refs [] h [b] h2" "\<not> deleted h2"
    using keeps_trans [OF 1 lst.keeps_env [of h1 "[b]" "henv h2" "[b]"]] d1 by simp_all
  obtain ref h3 where c: "with_env (binary_copy b) (emit (Lock QueueMutex) h2) = (ref, h3)" by fastforce
  have "keeps listener_refs [] h [b] (emit (Lock QueueMutex) h2)" using 2(1) by simp
  then have 3: "keeps listener_refs [] h [ref, b] h3"
    using keeps_trans lst.keeps_copy [OF c] by blast
  have d3: "\<not> deleted h3" using 2(2) copy_deleted [OF c] by simp
  let ?h4 = "h3\<lparr>acceptor_queue := acceptor_queue h3 @ [\<lparr>acc_caller = ?proc, acc_ref = ref\<rparr>]\<rparr>"
  have "keeps listener_refs [ref, b] h3 [b] ?h4"
    using keeps_queue [OF d3, of "henv h3" "acceptor_queue h3 @ [\<lparr>acc_caller = ?proc, acc_ref = ref\<rparr>]"] by simp
  then have 4: "keeps listener_refs [] h [b] (emit (Unlock QueueMutex) ?h4)"
    using keeps_trans [OF 3] by simp
  obtain r h5 where e: "with_env (encode_plain P rlen [enc_tuple_header (ei P) 2, enc_atom (ei P) ''ok'',
      enc_binary (ei P) (bin_bytes b) (int (binary_size b))]) (emit (Unlock QueueMutex) ?h4) = (r, h5)"
    by fastforce
  note 5 = keeps_trans [OF 4 lst.keeps_gains [OF gains_encode_plain e]]
  have "snd (accept P buf rlen h) \<in> {h1, drop_binary b h1, drop_binary b h2, drop_binary b h5}"
    using p m c e by (cases pr; cases ok) (simp_all add: accept_def Let_def)
  then show ?thesis
    using keeps_lose [OF 1] lst.keeps_finish [OF 1] lst.keeps_finish [OF 2(1)] lst.keeps_finish [OF 5] by auto
qed

lemma keeps_cancel_accept: "\<not> deleted h \<Longrightarrow> keeps listener_refs [] h [] (snd (cancel_accept P buf h))"
proof -
  assume del: "\<not> deleted h"
  obtain pr b h1 where p: "parse_arg P buf h = (pr, b, h1)" by (metis prod_cases3)
  note 1 = lst.keeps_parse_arg [OF p]
  have d1: "\<not> deleted (emit (Lock QueueMutex) h1)" using parse_arg_tab [OF p] del by simp
  obtain q w where l: "cancel_loop b (acceptor_queue h1) (henv (emit (Lock QueueMutex) h1)) = (q, w)" by fastforce
  have "keeps listener_refs [b] (emit (Lock QueueMutex) h1) [b] ((emit (Lock QueueMutex) h1)\<lparr>henv := w, acceptor_queue := q\<rparr>)"
    by (rule keeps_queue [OF d1])
      (use cancel_loop_refs [of _ b "acceptor_queue h1" "henv (emit (Lock QueueMutex) h1)"] l in simp)
  then have "keeps listener_refs [] h [b]
      (emit (Unlock QueueMutex) ((emit (Lock QueueMutex) h1)\<lparr>henv := w, acceptor_queue := q\<rparr>))"
    using keeps_trans [OF 1] by simp
  note 2 = lst.keeps_finish [OF this]
  show ?thesis
    using p l keeps_lose [OF 1] lst.keeps_finish [OF 1] 2
    by (cases pr) (simp_all add: cancel_accept_def with_env_def Let_def)
qed

lemma keeps_exited: "\<not> deleted h \<Longrightarrow> keeps listener_refs [] h [] (Listener_process_exited p h)"
proof -
  assume del: "\<not> deleted h"
  then have d1: "\<not> deleted (emit (Lock QueueMutex) h)" by simp
  obtain q w where l: "exited_loop p (acceptor_queue h) (henv (emit (Lock QueueMutex) h)) = (q, w)" by fastforce
  have "keeps listener_refs [] (emit (Lock QueueMutex) h) [] ((emit (Lock QueueMutex) h)\<lparr>henv := w, acceptor_queue := q\<rparr>)"
    by (rule keeps_queue [OF d1])
      (use exited_loop_refs [of _ p "acceptor_queue h" "henv (emit (Lock QueueMutex) h)"] l in simp)
  then show ?thesis using l by (simp add: Listener_process_exited_def with_env_def Let_def)
qed

lemma keeps_Listener_control:
  "\<not> deleted h \<Longrightarrow> keeps listener_refs [] h [] (snd (Listener_control P names cmd buf rlen h))"
  by (cases "command_of cmd")
    (simp_all add: Listener_control_def SocketHandler_control_def Listener_close_def Listener_peername_def
      keeps_accept keeps_cancel_accept lst.keeps_reply lst.keeps_errno lst.keeps_sockname lst.keeps_setopts
      lst.keeps_getopts)

lemma keeps_delete_listener: "keeps listener_refs ls h ls (delete_listener h)"
  by (simp add: keeps_def spare_def delete_listener_def Listener_destroy_def SocketHandler_destroy_def
      Handler_destroy_def delete_this_def listener_refs_def refc_fold_acceptors)

lemma keeps_Listener_stop: "keeps listener_refs [] h [] (Listener_stop h)"
proof -
  let ?h1 = "if selected h then (on_env (stop_input (udp_sock h)) h)\<lparr>selected := False\<rparr> else h"
  have "keeps listener_refs [] h [] ?h1" by simp
  then show ?thesis unfolding Listener_stop_def Let_def by (rule keeps_trans [OF _ keeps_delete_listener])
qed

section \<open>Datagrams\<close>

lemma keeps_answer_front: "\<not> deleted h \<Longrightarrow> keeps listener_refs ls h ls (answer_front t h)"
  by (auto simp: answer_front_def keeps_def spare_def listener_refs_def drop_binary_def refc_binary_destroy Let_def
      split: list.split)

lemma keeps_front_monitor [simp]:
  "keeps listener_refs ls x ls' (del_front_monitor h) = keeps listener_refs ls x ls' h"
  by (simp add: del_front_monitor_def split: list.split)

text \<open>The server's references count as locals of the listener's operation.\<close>

lemma keeps_with_server:
  "keeps conn_refs [] s0 [] s1 \<Longrightarrow> henv s0 = henv h \<Longrightarrow> (\<And>k. holders k (conn_refs s0) = 0) \<Longrightarrow>
   keeps listener_refs [] h (conn_refs s1) (h\<lparr>henv := henv s1\<rparr>)"
  by (rule lst.keeps_env) (auto simp: keeps_def spare_def)

lemma keeps_offer:
  "refs.answers_ok ans \<Longrightarrow> offer_datagram ans bytes s = (u, s1) \<Longrightarrow> keeps conn_refs [] s [] s1"
proof -
  assume ans: "refs.answers_ok ans" and o: "offer_datagram ans bytes s = (u, s1)"
  let ?h = "emit (UtpCall (UTP_IsIncomingUTP bytes)) (emit (Lock UtpMutex) s)"
  obtain r as s2 where t: "take_answer ans ?h = (r, as, s2)" by (metis prod_cases3)
  have "keeps_all ?h s2" using refs.take_answer_rel [OF ans t] by blast
  then have "keeps conn_refs [] s [] s2" by (simp add: keeps_all_def)
  then show ?thesis using o t by (auto simp: offer_datagram_def)
qed

fun server_refs :: "'q utp_handler option \<Rightarrow> binary list" where
  "server_refs None = []"
| "server_refs (Some s) = conn_refs s"

lemma touch_conn [simp]: "conn_refs (touch s) = conn_refs s" "henv (touch s) = henv s"
  by (simp_all add: touch_def)

lemma set_port_conn [simp]: "conn_refs (set_port p s) = conn_refs s" "refc k (hlog (set_port p s)) = refc k (hlog s)"
  by (simp_all add: set_port_def Handler_set_port_def Let_def conn.refs_fields)

lemma keeps_create_port [simp]:
  "keeps listener_refs ls x ls' (create_port h) = keeps listener_refs ls x ls' h"
  "deleted (create_port h) = deleted h" "deleted (del_front_monitor h) = deleted h"
  by (simp_all add: create_port_def del_front_monitor_def split: list.split)

lemma refused_refs:
  "conn_refs (delete_wrapper i (delete_utp_handler (emit (CloseFd sock) s))) = []"
  "refc k (hlog (delete_wrapper i (delete_utp_handler (emit (CloseFd sock) s)))) =
   refc k (hlog s) - holders k (conn_refs s)"
  by (simp_all add: delete_wrapper_def delete_gives_back conn_refs_deleted)

lemma keeps_serve:
  assumes ans: "refs.answers_ok (dg_ans d)" and del: "\<not> deleted h"
    and r: "serve_datagram P d sock bytes h = (h', srv)"
  shows "keeps listener_refs [] h (server_refs srv) h'"
proof -
  have offer: "keeps listener_refs [] h (conn_refs s1) (h\<lparr>henv := henv s1\<rparr>)"
    if "offer_datagram (dg_ans d) bytes (new_server d sock h) = (u, s1)" for u s1
    by (rule keeps_with_server [OF keeps_offer [OF ans that]])
      (simp_all add: Server_new_def UtpHandler_new_def conn_refs_def binary_new_def wq_new_def)
  show ?thesis
    using r
  proof (cases rule: serve_datagram_cases)
    case (refused s1 s2)
    have "keeps listener_refs (conn_refs s1) (h\<lparr>henv := henv s1\<rparr>) [] ((h\<lparr>henv := henv s1\<rparr>)\<lparr>henv := henv s2\<rparr>)"
      by (rule lst.keeps_env) (simp add: refused(2) refused_refs(2))
    then show ?thesis
      using keeps_trans [OF offer [OF refused(1)]] by (simp add: refused(3,4), simp add: refused(2) refused_refs(1))
  next
    case (accepted s1 h3 s2)
    have 3: "keeps listener_refs [] h (conn_refs s1) h3" "\<not> deleted h3"
      using offer [OF accepted(1)] del by (simp_all add: accepted(2))
    have s2: "conn_refs s2 = conn_refs s1" "refc k (hlog s2) = refc k (hlog h3)" for k
      by (simp_all add: accepted(3) conn.refs_env)
    have "keeps listener_refs (conn_refs s1) h3 (conn_refs s1) (h3\<lparr>henv := henv s2\<rparr>)"
      by (rule lst.keeps_env) (simp add: s2(2))
    note 4 = keeps_trans [OF 3(1) this]
    have "keeps listener_refs [] h (conn_refs s1) h'"
      unfolding accepted(4) by (rule keeps_trans [OF 4 keeps_answer_front]) (simp add: 3(2))
    then show ?thesis by (simp add: accepted(5) conn.refs_env s2(1))
  qed
qed

lemma refc_open_socket: "open_udp_socket os a r w = (err, s, w') \<Longrightarrow> refc k (log w') = refc k (log w)"
  by (auto simp: open_udp_socket_def split: prod.splits if_splits)

lemma keeps_Listener_input:
  assumes ans: "refs.answers_ok (dg_ans d)" and del: "\<not> deleted h"
    and r: "Listener_input_ready P d h = (h', srv)"
  shows "keeps listener_refs [] h (server_refs srv) h'"
proof -
  have opened: "keeps listener_refs [] h [] (h\<lparr>henv := w\<rparr>)"
    if "open_udp_socket (dg_open d) (my_addr h) True (henv (emit (Lock QueueMutex) h)) = (err, sock, w)" for err sock w
    by (rule lst.keeps_env) (simp add: refc_open_socket [OF that])
  show ?thesis
    using r
  proof (cases rule: Listener_input_cases)
    case (unconnected err sock w e h3)
    have "keeps listener_refs [] h [] h3"
      unfolding unconnected(6)
      by (rule keeps_trans [OF _ keeps_answer_front]) (simp_all add: opened [OF unconnected(3)] del)
    then show ?thesis by (simp add: unconnected(7,8))
  next
    case (serving err sock w bytes h3 s)
    have "server_refs (map_option (emit (Unlock QueueMutex)) s) = server_refs s"
      by (cases s) simp_all
    moreover have "keeps listener_refs [] h (server_refs s) h3"
      by (rule keeps_trans [OF opened [OF serving(3)] keeps_serve [OF ans _ serving(7)]]) (simp add: del)
    ultimately show ?thesis by (simp add: serving(8,9) del: server_refs.simps)
  qed (simp_all add: opened)
qed

section \<open>Port objects\<close>

fun delegate_refs :: "'q delegate \<Rightarrow> binary list" where
  "delegate_refs (ConnD h) = conn_refs h"
| "delegate_refs (ListD h) = listener_refs h"

definition obj_refs :: "'q main_obj \<Rightarrow> binary list" where
  "obj_refs o1 = (case delegatee o1 of None \<Rightarrow> [] | Some d \<Rightarrow> delegate_refs d)"

interpretation obj: holder obj_refs
  by unfold_locales (simp_all add: obj_refs_def)

text \<open>The object stays the one it was, and its delegatee's references are kept.\<close>

definition obj_keeps :: "'q main_obj \<Rightarrow> binary list \<Rightarrow> 'q main_obj \<Rightarrow> bool" where
  "obj_keeps o1 ls o2 \<longleftrightarrow> hid o2 = hid o1 \<and> keeps obj_refs [] o1 ls o2"

lemma obj_keeps_refl [simp]: "obj_keeps o1 [] o1"
  by (simp add: obj_keeps_def)

lemma obj_keeps_trans: "obj_keeps o1 [] o2 \<Longrightarrow> obj_keeps o2 ls o3 \<Longrightarrow> obj_keeps o1 ls o3"
  unfolding obj_keeps_def using keeps_trans by metis

lemma obj_keeps_fault [simp]: "obj_keeps o1 ls (fault x o2) = obj_keeps o1 ls o2"
  by (simp add: obj_keeps_def)

lemma obj_keeps_delegate:
  assumes f: "\<And>h r h'. \<not> deleted h \<Longrightarrow> f h = (r, h') \<Longrightarrow> keeps conn_refs [] h (ls r) h'"
    and g: "\<And>h r h'. \<not> deleted h \<Longrightarrow> g h = (r, h') \<Longrightarrow> keeps listener_refs [] h (ls r) h'"
    and d: "delegate f g o1 = (r, o2)"
  shows "obj_keeps o1 (case r of None \<Rightarrow> [] | Some x \<Rightarrow> ls x) o2"
proof (cases "delegatee o1")
  case None
  then show ?thesis using d by (simp add: delegate_def)
next
  case (Some x)
  show ?thesis
  proof (cases x)
    case (ConnD h)
    obtain y h' where fh: "f (h\<lparr>henv := henv o1\<rparr>) = (y, h')" by fastforce
    show ?thesis
      using f [OF _ fh] d Some ConnD fh
      by (auto simp: delegate_def obj_keeps_def keeps_def spare_def obj_refs_def conn.refs_env split: if_splits)
  next
    case (ListD h)
    obtain y h' where gh: "g (h\<lparr>henv := henv o1\<rparr>) = (y, h')" by fastforce
    show ?thesis
      using g [OF _ gh] d Some ListD gh
      by (auto simp: delegate_def obj_keeps_def keeps_def spare_def obj_refs_def lst.refs_env split: if_splits)
  qed
qed

lemma obj_keeps_unit:
  assumes "\<And>h. \<not> deleted h \<Longrightarrow> keeps conn_refs [] h [] (f h)"
    and "\<And>h. \<not> deleted h \<Longrightarrow> keeps listener_refs [] h [] (g h)"
  shows "obj_keeps o1 [] (snd (delegate (\<lambda>h. ((), f h)) (\<lambda>h. ((), g h)) o1))"
proof -
  obtain r o2 where d: "delegate (\<lambda>h. ((), f h)) (\<lambda>h. ((), g h)) o1 = (r, o2)" by fastforce
  have "obj_keeps o1 (case r of None \<Rightarrow> [] | Some x \<Rightarrow> []) o2"
    by (rule obj_keeps_delegate [OF _ _ d]) (use assms in auto)
  then show ?thesis using d by (simp split: option.splits)
qed

lemma refc_deselect_all [simp]: "refc k (log (deselect_all m w)) = refc k (log w)"
  by (induction m w rule: deselect_all.induct) simp_all

lemma obj_keeps_same:
  "hid o2 = hid o1 \<Longrightarrow> delegatee o2 = delegatee o1 \<Longrightarrow> deleted o2 = deleted o1 \<Longrightarrow>
   (\<And>k. refc k (hlog o2) = refc k (hlog o1)) \<Longrightarrow> obj_keeps o1 [] o2"
  by (simp add: obj_keeps_def keeps_def spare_def obj_refs_def)

lemma obj_keeps_stop: "obj_keeps o1 [] (MainHandler_stop P (map (run_utp P) rs) o1)"
proof -
  have "obj_keeps x [] (stop_main x)" for x :: "'a main_obj"
    by (rule obj_keeps_same) (auto simp: stop_main_def Let_def split: option.splits)
  then show ?thesis
    unfolding MainHandler_stop_def
    by (rule obj_keeps_trans [OF obj_keeps_unit [OF keeps_stop [OF keeps_runs] keeps_Listener_stop]])
qed

lemma obj_keeps_find:
  "find_input fd o1 = (r, o2) \<Longrightarrow> obj_keeps o1 [] o2" "find_exit mon p o1 = (r2, o2) \<Longrightarrow> obj_keeps o1 [] o2"
  by (rule obj_keeps_same; auto simp: find_input_def input_handler_def find_exit_def exit_handler_def Let_def
      split: option.splits if_splits prod.splits)+

section \<open>Becoming a connection or a listener\<close>

lemma refc_choose_socket:
  "choose_socket P c so reuse w = (r, w') \<Longrightarrow> refc k (log w') = refc k (log w)"
  by (auto simp: choose_socket_def open_udp_socket_port_def refc_open_socket
      split: if_splits prod.splits cpp.splits dest: refc_open_socket [of _ _ _ _ _ _ _ k])

lemma clear_port_fields [simp]:
  "hid (clear_port o1) = hid o1" "delegatee (clear_port o1) = delegatee o1" "deleted (clear_port o1) = deleted o1"
  "refc k (hlog (clear_port o1)) = refc k (hlog o1)"
  by (auto simp: clear_port_def split: option.splits)

lemma new_client [simp]: "conn_refs (Client_new i q w sock so) = [None]" "henv (Client_new i q w sock so) = w"
  by (simp_all add: Client_new_def UtpHandler_new_def conn_refs_def binary_new_def wq_new_def)

lemma keeps_become_client:
  assumes "delegatee o1 = None" "refs.answers_ok (op_ans c)"
  shows "keeps obj_refs ls o1 ls (become_client P c so sock o1)" "hid (become_client P c so sock o1) = hid o1"
proof -
  define c1 where "c1 = set_port (port o1) (Client_new (op_id c) (ioq o1) (henv o1) sock so)"
  define o2 where "o2 = clear_port (o1\<lparr>henv := henv c1\<rparr>)"
  define c2 where "c2 = connect_to (op_ans c) (op_utp c) (c1\<lparr>henv := henv o2\<rparr>)"
  have c1: "refc k (hlog c1) = refc k (hlog o1)" "holders k (conn_refs c1) = 0" for k
    by (simp_all add: c1_def)
  have "keeps conn_refs [] (c1\<lparr>henv := henv o2\<rparr>) [] c2"
    unfolding c2_def by (rule keeps_connect_to [OF assms(2)])
  then have "refc k (hlog o1) \<le> refc k (hlog c2) - holders k (conn_refs c2)" for k
    by (simp add: keeps_def spare_def conn.refs_env c1 o2_def)
  moreover have o: "become_client P c so sock o1 = o2\<lparr>delegatee := Some (ConnD c2), henv := henv c2\<rparr>"
    by (simp add: become_client_def c1_def o2_def c2_def Let_def)
  ultimately show "keeps obj_refs ls o1 ls (become_client P c so sock o1)"
    using assms(1) by (simp add: keeps_def spare_def obj_refs_def o2_def)
  show "hid (become_client P c so sock o1) = hid o1" by (simp add: o o2_def)
qed

lemma keeps_become_listener:
  assumes "delegatee o1 = None" "become_listener P c so sock o1 = (r, o2)"
  shows "keeps obj_refs ls o1 ls o2 \<and> hid o2 = hid o1"
proof (cases "Listener_new (op_id c) (ioq o1) (henv o1) (op_myaddr c) sock so")
  case (Ret l)
  then have l: "listener_refs l = []" "henv l = henv o1"
    by (auto simp: Listener_new_def listener_refs_def split: prod.splits if_splits)
  have sp: "listener_refs (set_port p l) = listener_refs l" "refc k (hlog (set_port p l)) = refc k (hlog l)" for p k
    by (simp_all add: set_port_def Handler_set_port_def Let_def lst.refs_fields)
  show ?thesis
    using assms(2) Ret l sp
    by (simp add: become_listener_def Let_def keeps_def spare_def obj_refs_def lst.refs_env assms(1))
      (auto simp: assms(1) lst.refs_env)
qed (use assms in \<open>auto simp: become_listener_def\<close>)

lemma keeps_parse_connect:
  "parse_connect P buf o1 = (r, str, n, b, o2) \<Longrightarrow>
   keeps obj_refs [] o1 [b] o2 \<and> hid o2 = hid o1 \<and> delegatee o2 = delegatee o1"
  by (auto simp: parse_connect_def obj.keeps_none split: cpp.splits prod.splits if_splits
      dest!: obj.keeps_parse_at)

lemma gains_encode_caught: "gains w (snd (encode_caught P rlen ms w))"
  using gains_copy_to_binary [of w "api P" _ rlen]
  by (auto simp: encode_caught_def split: prod.splits cpp.splits) (metis snd_conv)+

lemma obj_keeps_caught:
  "obj_keeps o1 ls o2 \<Longrightarrow> with_env (encode_caught P rlen ms) o2 = (r, o3) \<Longrightarrow> obj_keeps o1 ls o3"
  using keeps_trans [OF _ obj.keeps_gains [OF gains_encode_caught]] snd_with_env [of "encode_caught P rlen ms" o2]
  by (fastforce simp: obj_keeps_def)

lemma obj_keeps_encoded:
  "obj_keeps o1 ls o2 \<Longrightarrow> with_env (encode_error P rlen e) o2 = (r, o3) \<Longrightarrow> obj_keeps o1 ls o3"
  "obj_keeps o1 ls o2 \<Longrightarrow> with_env (encode_atom P rlen e) o2 = (r, o3) \<Longrightarrow> obj_keeps o1 ls o3"
  unfolding encode_error_def [abs_def] encode_atom_def [abs_def] by (erule obj_keeps_caught, assumption)+

text \<open>The end of the local \<open>binopts\<close>; it is not destroyed if the end is not reached.\<close>

lemma obj_keeps_ended: "obj_keeps o1 [b] o2 \<Longrightarrow> obj_keeps o1 [] o2 \<and> obj_keeps o1 [] (drop_binary b o2)"
  using keeps_lose obj.keeps_finish by (auto simp: obj_keeps_def drop_binary_def)

interpretation ref_start: port_start P "\<lambda>c. refs.answers_ok (op_ans c)"
  "\<lambda>o1 b o2. obj_keeps o1 [b] o2 \<and> delegatee o2 = None" "\<lambda>c k o1 b o2. obj_keeps o1 [b] o2"
  "\<lambda>rlen c k o1 r o2. obj_keeps o1 [] o2" for P :: "'q platform"
proof unfold_locales
  fix o1 o2 :: "'q main_obj" and b buf pr str n r rlen
  assume o1: "delegatee o1 = None"
  show "obj_keeps o1 [b] o2 \<and> delegatee o2 = None" if "parse_connect P buf o1 = (pr, str, n, b, o2)"
    using keeps_parse_connect [OF that] o1 by (simp add: obj_keeps_def)
  show "obj_keeps o1 [b] o2 \<and> delegatee o2 = None" if "parse_arg P buf o1 = (pr, b, o2)"
    using obj.keeps_parse_arg [OF that] parse_arg_same [OF that] o1 by (auto simp: obj_keeps_def)
  show "obj_keeps o1 [] o2" if "with_env (encode_error P rlen ''enotsup'') o1 = (r, o2)"
    by (rule obj_keeps_encoded(1) [OF obj_keeps_refl that])
next
  fix o1 o2 o3 :: "'q main_obj" and b so reuse rs w w' sock r err rlen and c :: "'q opener"
  assume 2: "obj_keeps o1 [b] o2 \<and> delegatee o2 = None"
  then have k: "keeps obj_refs [] o1 [b] o2" "hid o2 = hid o1" "delegatee o2 = None" by (simp_all add: obj_keeps_def)
  show "obj_keeps o1 [b] (o2\<lparr>henv := w\<rparr>) \<and> delegatee (o2\<lparr>henv := w\<rparr>) = None"
    if "choose_socket P c so reuse (henv o2) = (rs, w)"
    using keeps_trans [OF k(1) obj.keeps_env [of o2 "[b]" w "[b]"]] refc_choose_socket [OF that] k(2,3)
    by (simp add: obj_keeps_def)
  show "obj_keeps o1 [b] (become_client P c so sock o2)" if "refs.answers_ok (op_ans c)"
    using keeps_trans [OF k(1) keeps_become_client(1)] keeps_become_client(2) [OF k(3) that] k(2,3) that
    by (simp add: obj_keeps_def)
  show "obj_keeps o1 [b] o3" if "become_listener P c so sock o2 = (Ret (), o3)"
    using keeps_trans [OF k(1)] keeps_become_listener [OF k(3) that] k(2) by (simp add: obj_keeps_def)
  show "obj_keeps o1 [] (drop_binary b o3)" if "with_env (encode_error P rlen (errno_id (api P) err)) o2 = (r, o3)"
    using obj_keeps_ended obj_keeps_encoded(1) [OF _ that] 2 by blast
qed (use obj_keeps_ended obj_keeps_encoded(2) in \<open>blast+\<close>)

lemma obj_keeps_note [simp]: "obj_keeps o1 ls (note_outcome x) = obj_keeps o1 ls (snd x)"
  by (cases x; cases "fst x") (auto simp: note_outcome_def)

lemma obj_keeps_control:
  "obj_keeps o1 [] (snd (MainHandler_control P (c\<lparr>op_ans := map (run_utp P) rs\<rparr>)
    \<lparr>cw_ans = map (run_utp P) rs, cw_sockname = names, cw_peername = peer\<rparr> cmd buf rlen o1))"
proof (cases "delegatee o1")
  case None
  show ?thesis
    by (rule ref_start.control_ended [OF None _ prod.collapse [symmetric]]) (simp add: keeps_runs)
next
  case (Some x)
  let ?cw = "\<lparr>cw_ans = map (run_utp P) rs, cw_sockname = names, cw_peername = peer\<rparr>"
  obtain r o2 where d: "delegate (utp_control P ?cw cmd buf rlen) (Listener_control P names cmd buf rlen) o1 = (r, o2)"
    by fastforce
  have "keeps conn_refs [] h [] h'" if "\<not> deleted h" "utp_control P ?cw cmd buf rlen h = (r, h')" for h r h'
    using keeps_control [of ?cw h P cmd buf rlen] that by (simp add: keeps_runs)
  moreover have "keeps listener_refs [] h [] h'"
    if "\<not> deleted h" "Listener_control P names cmd buf rlen h = (r, h')" for h r h'
    using keeps_Listener_control [OF that(1), of P names cmd buf rlen] that(2) by simp
  ultimately have "obj_keeps o1 (case r of None \<Rightarrow> [] | Some x \<Rightarrow> []) o2"
    by (rule obj_keeps_delegate [OF _ _ d])
  then have "obj_keeps o1 [] o2" by (simp split: option.splits)
  then show ?thesis using Some d by (simp add: MainHandler_control_def split: option.splits)
qed

section \<open>The driver\<close>

definition all_refs :: "'q main_obj list \<Rightarrow> binary list" where
  "all_refs os = concat (map obj_refs os)"

lemma all_refs_simps [simp]:
  "all_refs [] = []" "all_refs (o1 # os) = obj_refs o1 @ all_refs os" "all_refs (xs @ ys) = all_refs xs @ all_refs ys"
  by (simp_all add: all_refs_def)

text \<open>All the pointers to a binary are covered by references, also those in \<open>ls\<close>.\<close>

definition covered :: "binary list \<Rightarrow> 'q driver \<Rightarrow> bool" where
  "covered ls s \<longleftrightarrow> (\<forall>k. holders k (all_refs (dr_objs s)) + holders k ls \<le> refc k (log (dr_env s)))"

lemma covered_fault [simp]: "covered ls (dr_fault x s) = covered ls s"
  by (simp add: covered_def dr_fault_def)

lemma covered_log [simp]: "(\<And>k. refc k [a] = 0) \<Longrightarrow> covered ls (log_to a s) = covered ls s"
  by (simp add: covered_def log_to_def)

lemma covered_with_obj:
  assumes "covered [] s" "\<And>o1 r o2. f o1 = (r, o2) \<Longrightarrow> obj_keeps o1 (case r of None \<Rightarrow> [] | Some x \<Rightarrow> ls x) o2"
    and "with_obj i f s = (r, s')"
  shows "covered (case r of Some (Some x) \<Rightarrow> ls x | _ \<Rightarrow> []) s'"
proof (rule with_obj_cases [OF assms(3)])
  show "hid o2 = hid o1" if "f o1 = (r, o2)" for o1 r o2
    using assms(2) [OF that] by (simp add: obj_keeps_def)
next
  fix xs o1 ys r2 o2
  assume o: "dr_objs s = xs @ o1 # ys" "f (o1\<lparr>henv := dr_env s\<rparr>) = (r2, o2)" "r = Some r2"
    "s' = s\<lparr>dr_env := henv o2, dr_objs := xs @ o2 # ys\<rparr>"
  have "refc k (log (dr_env s)) - holders k (obj_refs o1) \<le>
      refc k (hlog o2) - holders k (obj_refs o2) - holders k (case r2 of None \<Rightarrow> [] | Some x \<Rightarrow> ls x)" for k
    using assms(2) [OF o(2)] by (simp add: obj_keeps_def keeps_def spare_def obj_refs_def)
  note this [rule_format]
  moreover have "holders k (all_refs (dr_objs s)) \<le> refc k (log (dr_env s))" for k
    using assms(1) by (simp add: covered_def)
  ultimately have "holders k (all_refs (xs @ o2 # ys)) + holders k (case r2 of None \<Rightarrow> [] | Some x \<Rightarrow> ls x) \<le> refc k (hlog o2)" for k
    by (smt (verit) o(1) all_refs_simps(2,3) holders_append)
  then show ?thesis by (simp add: covered_def o(3,4) split: option.splits)
qed (use assms(1) in simp)

lemma covered_on_obj: "covered [] s \<Longrightarrow> (\<And>o1. obj_keeps o1 [] (f o1)) \<Longrightarrow> covered [] (on_obj i f s)"
proof -
  assume s: "covered [] s" and f: "\<And>o1. obj_keeps o1 [] (f o1)"
  obtain r s' where w: "with_obj i (\<lambda>o1. (None :: unit option, f o1)) s = (r, s')" by fastforce
  have "snd (with_obj i (\<lambda>o1. ((), f o1)) s) = s'"
    using w by (auto simp: with_obj_def split: option.splits)
  moreover have "covered (case r of Some (Some x) \<Rightarrow> [] | _ \<Rightarrow> []) s'"
    by (rule covered_with_obj [OF s _ w]) (use f in auto)
  ultimately show ?thesis by (simp add: on_obj_def split: option.splits)
qed

lemma covered_on_handler:
  assumes "covered [] s" "\<And>h. \<not> deleted h \<Longrightarrow> keeps conn_refs [] h [] (f h)"
    and "\<And>h. \<not> deleted h \<Longrightarrow> keeps listener_refs [] h [] (g h)"
  shows "covered [] (on_handler i f g s)"
  using assms(1) covered_on_obj [OF assms(1) obj_keeps_unit [OF assms(2,3)]]
  by (auto simp: on_handler_def split: option.split)

lemma covered_cong:
  "dr_objs s' = dr_objs s \<Longrightarrow> (\<And>k. refc k (log (dr_env s')) = refc k (log (dr_env s))) \<Longrightarrow> covered ls s' = covered ls s"
  by (simp add: covered_def)

lemma covered_append:
  "covered (obj_refs o1) s \<Longrightarrow> covered [] (s\<lparr>dr_objs := dr_objs s @ [o1]\<rparr>)"
  by (simp add: covered_def)

lemma obj_refs_wrap: "obj_refs (MainHandler_wrap i d q w) = delegate_refs d"
  by (simp add: MainHandler_wrap_def Handler_set_port_def obj_refs_def)

lemma covered_start: "covered [] s \<Longrightarrow> covered [] (utp_start i p q s)"
proof -
  define o1 where "o1 = start (MainHandler_new i p q (dr_env s))"
  have o1: "obj_refs o1 = []" "refc k (hlog o1) = refc k (log (dr_env s))" for k
    by (simp_all add: o1_def start_def MainHandler_new_def Handler_set_port_def obj_refs_def Let_def emit_def on_env_def)
  assume "covered [] s"
  then have "covered (obj_refs o1) (s\<lparr>dr_env := henv o1\<rparr>)" using o1 by (simp add: covered_def)
  then show ?thesis
    using covered_append [of o1 "s\<lparr>dr_env := henv o1\<rparr>"] by (simp add: utp_start_def o1_def Let_def)
qed

lemma keeps_cbs: "keeps conn_refs [] h [] (run_cbs P cbs h)"
  using refs.run_rel_aux(2) [of P P cbs h] by (simp add: keeps_all_def)

lemma covered_timeouts: "covered [] s \<Longrightarrow> covered [] (utp_check_timeouts P work i s)"
proof -
  have w: "covered [] s \<Longrightarrow> covered [] (timeout_work P work s)" for s
    by (induction P work s rule: timeout_work.induct) (simp_all add: covered_on_handler keeps_cbs)
  show "covered [] s \<Longrightarrow> covered [] (utp_check_timeouts P work i s)"
    by (auto simp: utp_check_timeouts_def check_utp_timeouts_def Let_def w split: option.split)
qed

lemma covered_found:
  fixes f :: "'q main_obj \<Rightarrow> 'x option \<times> 'q main_obj"
  assumes "covered [] s" "with_obj i f s = (r, s1)" "\<And>o1 x o2. f o1 = (x, o2) \<Longrightarrow> obj_keeps o1 [] o2"
  shows "covered [] s1"
proof -
  have "covered (case r of Some (Some x) \<Rightarrow> [] | _ \<Rightarrow> []) s1"
    by (rule covered_with_obj [OF assms(1) _ assms(2)]) (use assms(3) in \<open>auto split: option.split\<close>)
  then show ?thesis by (simp split: option.splits)
qed

lemma covered_exit: "covered [] s \<Longrightarrow> covered [] (utp_process_exit mon p i s)"
proof -
  assume s: "covered [] s"
  obtain r s1 where w: "with_obj i (find_exit mon p) s = (r, s1)" by fastforce
  have 1: "covered [] s1" by (rule covered_found [OF s w obj_keeps_find(2)])
  have "covered [] (on_handler k (Handler_process_exited p) (Listener_process_exited p) s1)" for k
    by (rule covered_on_handler [OF 1 conn.keeps_exit keeps_exited])
  then show ?thesis
    using w 1 by (auto simp: utp_process_exit_def process_exit_def split: option.split)
qed

text \<open>A datagram: the server that a listener answers with comes with its own references.\<close>

lemma covered_listener_input:
  assumes s: "covered [] s" and ans: "refs.answers_ok (dg_ans d)"
  shows "covered [] (listener_input P d i s)"
proof (cases "find_delegate i (dr_objs s)")
  case (Some o1)
  let ?f = "delegate (\<lambda>h. (None, h)) (\<lambda>h. case Listener_input_ready P d h of (h', srv) \<Rightarrow> (srv, h'))"
  obtain r s1 where w: "with_obj (hid o1) ?f s = (r, s1)" by fastforce
  have "obj_keeps o1 (case r of None \<Rightarrow> [] | Some x \<Rightarrow> server_refs x) o2" if "?f o1 = (r, o2)" for o1 r o2
    by (rule obj_keeps_delegate [OF _ _ that])
      (auto split: prod.splits intro: keeps_Listener_input [OF ans])
  then have 1: "covered (case r of Some (Some x) \<Rightarrow> server_refs x | _ \<Rightarrow> []) s1"
    by (rule covered_with_obj [OF s _ w])
  show ?thesis
  proof (cases "\<exists>srv. r = Some (Some (Some srv))")
    case True
    then obtain srv where r: "r = Some (Some (Some srv))" by blast
    let ?o = "MainHandler_wrap (dg_main d) (ConnD srv) (dg_queue d) (dr_env s1)"
    have "covered [] (s1\<lparr>dr_objs := dr_objs s1 @ [?o]\<rparr>)"
      by (rule covered_append) (use 1 r in \<open>simp add: obj_refs_wrap\<close>)
    then show ?thesis using Some w r by (simp add: listener_input_def)
  next
    case False
    then show ?thesis using Some w 1 by (auto simp: listener_input_def split: option.splits)
  qed
qed (simp add: listener_input_def s)

lemma covered_ready_input:
  assumes s: "covered [] s"
  shows "covered [] (utp_ready_input P (runs P rs) os (d\<lparr>dg_ans := runs P rs\<rparr>) fd i s)"
proof -
  obtain r s1 where w: "with_obj i (find_input fd) s = (r, s1)" by fastforce
  have 1: "covered [] s1" by (rule covered_found [OF s w obj_keeps_find(1)])
  have "covered [] (on_handler k (input_ready P (runs P rs) os) id s1)" for k
    by (rule covered_on_handler [OF 1]) (simp_all add: runs_def keeps_input keeps_runs)
  then have "covered [] (dispatch_input P (runs P rs) os (d\<lparr>dg_ans := runs P rs\<rparr>) k s1)" for k
    using 1 covered_listener_input [OF 1]
    by (auto simp: dispatch_input_def runs_def keeps_runs split: option.split delegate.split)
  then show ?thesis using w 1 by (auto simp: utp_ready_input_def ready_input_def split: option.split)
qed

lemma covered_step: "covered [] s \<Longrightarrow> covered [] (drv_step P c s)"
proof -
  assume s: "covered [] s"
  have out: "obj_keeps o1 [] (MainHandler_outputv P (runs P rs) ev o1)" for o1 rs ev
    unfolding MainHandler_outputv_def Listener_outputv_def
    by (rule obj_keeps_unit) (simp_all add: runs_def keeps_outputv keeps_runs lst.keeps_not_connected)
  show ?thesis
  proof (cases c)
    case (StopPort rs i)
    then show ?thesis using covered_on_obj [OF s obj_keeps_stop] by (simp add: utp_stop_def runs_def)
  next
    case (OutputV rs ev i)
    then show ?thesis using covered_on_obj [OF s out] by (simp add: utp_outputv_def)
  next
    case (ControlCall c rs names peer cmd buf rlen i)
    then show ?thesis
      using covered_on_obj [OF s, of "\<lambda>o1. note_outcome (MainHandler_control P (c\<lparr>op_ans := runs P rs\<rparr>)
        \<lparr>cw_ans = runs P rs, cw_sockname = names, cw_peername = peer\<rparr> cmd buf rlen o1)" i]
      by (simp add: utp_control_cb_def runs_def obj_keeps_control)
  next
    case (StopSelect fd)
    then show ?thesis using s by (simp add: utp_stop_select_def covered_def)
  next
    case (Caller p f)
    then show ?thesis using s by (simp add: covered_def)
  qed (simp_all add: s utp_init_def utp_finish_def driver_init_def driver_finish_def covered_start covered_timeouts
      covered_ready_input covered_exit)
qed

lemma covered_run: "covered [] s \<Longrightarrow> covered [] (drv_run P cs s)"
  by (induction P cs s rule: drv_run.induct) (simp_all add: covered_step)

section \<open>Pointers are covered by references\<close>

lemma holders_mem: "Some b \<in> set bs \<Longrightarrow> 1 \<le> holders (bin_id b) bs"
proof (induction bs)
  case (Cons x bs)
  have "0 \<le> holders (bin_id b) bs" "0 \<le> holds (bin_id b) x" by simp_all
  then show ?case using Cons by (auto simp: holds_def)
qed simp

lemma all_refs_mem: "o1 \<in> set os \<Longrightarrow> delegatee o1 = Some d \<Longrightarrow> x \<in> set (delegate_refs d) \<Longrightarrow> x \<in> set (all_refs os)"
  by (force simp: all_refs_def obj_refs_def)

text \<open>
  C5: no binary is given back too early. After any sequence of calls of the runtime, with any
  answers and callbacks of libutp in between, the driver's log has at least as many references
  outstanding to every binary as there are \<open>Binary\<close> objects pointing to it, in the write queues,
  the \<open>caller_ref\<close>s and the acceptors of all ports together. So a binary that a live connection or
  listener still points to has not been freed.
\<close>

theorem references_held:
  assumes "dr_objs s = []" "\<forall>k. 0 \<le> refc k (log (dr_env s))"
  shows "holders k (all_refs (dr_objs (drv_run P cs s))) \<le> refc k (log (dr_env (drv_run P cs s))) \<and>
    (\<forall>o1 d b. o1 \<in> set (dr_objs (drv_run P cs s)) \<and> delegatee o1 = Some d \<and> Some b \<in> set (delegate_refs d) \<longrightarrow>
       0 < refc (bin_id b) (log (dr_env (drv_run P cs s))))"
proof -
  let ?s = "drv_run P cs s"
  have "covered [] s" using assms by (simp add: covered_def)
  then have "covered [] ?s" by (rule covered_run)
  then have le: "holders k (all_refs (dr_objs ?s)) \<le> refc k (log (dr_env ?s))" for k
    by (simp add: covered_def)
  have "0 < refc (bin_id b) (log (dr_env ?s))" if "Some b \<in> set (all_refs (dr_objs ?s))" for b
    using le [of "bin_id b"] holders_mem [OF that] by simp
  then show ?thesis using le all_refs_mem by metis
qed

text \<open>A listener with one waiting acceptor: its reference is the only one.\<close>

lemma boot_refs:
  "case find_obj 2 (dr_objs (drv_run short_platform boot_calls empty_driver)) of
     None \<Rightarrow> False
   | Some o1 \<Rightarrow> (case delegatee o1 of None \<Rightarrow> False | Some d \<Rightarrow> map (map_option bin_id) (delegate_refs d) = [Some 1])"
  by code_simp

theorem references_held_witness:
  "\<exists>o1 d b. find_obj 2 (dr_objs (drv_run short_platform boot_calls empty_driver)) = Some o1 \<and>
     delegatee o1 = Some d \<and> delegate_refs d = [Some b] \<and> bin_id b = 1 \<and>
     0 < refc 1 (log (dr_env (drv_run short_platform boot_calls empty_driver)))"
proof -
  let ?s = "drv_run short_platform boot_calls empty_driver"
  obtain o1 d where o: "find_obj 2 (dr_objs ?s) = Some o1" "delegatee o1 = Some d"
    "map (map_option bin_id) (delegate_refs d) = [Some 1]"
    using boot_refs by (auto split: option.splits)
  then obtain b where b: "delegate_refs d = [Some b]" "bin_id b = 1" by auto
  have e: "dr_objs empty_driver = []" "\<forall>k. 0 \<le> refc k (log (dr_env empty_driver))"
    by (simp_all add: empty_driver_def env0_def)
  have "0 < refc (bin_id b) (log (dr_env ?s))"
    using references_held [OF e, THEN conjunct2, rule_format, of o1 short_platform boot_calls d b]
      find_obj_mem [OF o(1)] o(2) b(1) by (metis list.set_intros(1))
  then show ?thesis using o b by auto
qed

end
