(* ===== verification/Monitors.thy ===== *)
theory Monitors
  imports Main_Maps "HOL-Library.Multiset"
begin

text \<open>
  \<open>del_mons\<close> of \<open>main_handler.cc\<close> against a reference: instead of its two nested loops under one
  lock, demonitor the handler's processes one at a time with \<open>del_mon\<close>. The two agree, except that
  \<open>del_mons\<close> also drops the entries that no process leads to.
\<close>

section \<open>The reference\<close>

definition watched :: "handler_id \<Rightarrow> main_handler \<Rightarrow> (pid \<times> monitor) list" where
  "watched h m = filter (\<lambda>e. snd e \<in> set (mons_of h (mon_map m))) (proc_mon_map m)"

definition del_each :: "handler_id \<Rightarrow> main_handler \<Rightarrow> env \<Rightarrow> env" where
  "del_each h m w = fold del_monitor (map fst (watched h m)) w"

definition unlisted :: "main_handler \<Rightarrow> monitor set" where
  "unlisted m = fst ` set (mon_map m) - snd ` set (proc_mon_map m)"

section \<open>Removing several processes\<close>

definition without :: "(pid \<times> monitor) list \<Rightarrow> main_handler \<Rightarrow> main_handler" where
  "without es m = m\<lparr>mon_map := filter (\<lambda>e. fst e \<notin> snd ` set es) (mon_map m),
     proc_mon_map := filter (\<lambda>e. fst e \<notin> fst ` set es) (proc_mon_map m)\<rparr>"

lemma without_Nil [simp]: "without [] m = m"
  by (simp add: without_def)

lemma without_Cons: "without (e # es) m = without es (without [e] m)"
  by (simp add: without_def conj_commute)

lemma del_monitor_without:
  "main w = Some m \<Longrightarrow> smap_find (proc_mon_map m) p = Some mon \<Longrightarrow>
   del_monitor p w = w\<lparr>main := Some (without [(p, mon)] m),
     log := log w @ [Lock MapMutex, DemonitorProcess mon, Unlock MapMutex]\<rparr>"
  by (simp add: del_monitor_def del_mon_def without_def smap_erase_def env_log_def Let_def)

lemma fold_del_monitor:
  assumes "main w = Some m" "distinct (map fst (proc_mon_map m))"
    and "distinct (map fst es)" "set es \<subseteq> set (proc_mon_map m)"
  shows "\<exists>as. fold del_monitor (map fst es) w = w\<lparr>main := Some (without es m), log := log w @ as\<rparr> \<and>
    demonitors as = map snd es"
  using assms
proof (induction es arbitrary: w m)
  case Nil
  then show ?case by (intro exI [of _ "[]"]) simp
next
  case (Cons e es)
  obtain p mon where e: "e = (p, mon)" by fastforce
  let ?m = "without [e] m" and ?as = "[Lock MapMutex, DemonitorProcess mon, Unlock MapMutex]"
  have "smap_find (proc_mon_map m) p = Some mon"
    using Cons.prems(2,4) by (simp add: smap_find_def e)
  then have step: "del_monitor p w = w\<lparr>main := Some ?m, log := log w @ ?as\<rparr>"
    using del_monitor_without [OF Cons.prems(1)] by (simp add: e)
  have "distinct (map fst (proc_mon_map ?m))" "set es \<subseteq> set (proc_mon_map ?m)"
    using Cons.prems(2-4) by (auto simp: without_def distinct_map_filter e)
  then obtain as where "fold del_monitor (map fst es) (del_monitor p w) =
      w\<lparr>main := Some (without es ?m), log := log w @ ?as @ as\<rparr>" "demonitors as = map snd es"
    using Cons.IH [of "del_monitor p w" ?m] Cons.prems(3) by (auto simp: step)
  then show ?case
    by (intro exI [of _ "?as @ as"]) (simp add: e without_Cons [of "(p, mon)" es])
qed

lemma del_each_eq:
  assumes "main w = Some m" "distinct (map fst (proc_mon_map m))"
  shows "\<exists>as. del_each h m w = w\<lparr>main := Some (without (watched h m) m), log := log w @ as\<rparr> \<and>
    demonitors as = map snd (watched h m)"
  unfolding del_each_def
  by (rule fold_del_monitor [OF assms]) (use assms(2) in \<open>auto simp: watched_def distinct_map_filter\<close>)

section \<open>The loops\<close>

lemma del_procs_eq:
  "snd (del_procs mon ps w) = w\<lparr>log := log w @ map (\<lambda>_. DemonitorProcess mon) (filter (\<lambda>e. snd e = mon) ps)\<rparr>"
  by (induction mon ps w rule: del_procs.induct) (auto simp: env_log_def split: prod.splits)

lemma del_mons_loop_eq:
  "\<exists>as. snd (snd (del_mons_loop h ms pm w)) = w\<lparr>log := log w @ map DemonitorProcess as\<rparr>"
proof (induction h ms pm w rule: del_mons_loop.induct)
  case (1 h pm w)
  show ?case by (intro exI [of _ "[]"]) simp
next
  case (2 h mon h' ms pm w)
  show ?case
  proof (cases "h' = h")
    case True
    obtain pm' w' where r: "del_procs mon pm w = (pm', w')" by fastforce
    have w': "w' = w\<lparr>log := log w @ map DemonitorProcess (map (\<lambda>_. mon) (filter (\<lambda>e. snd e = mon) pm))\<rparr>"
      using del_procs_eq [of mon pm w] r by (simp add: comp_def)
    from 2(1) [OF True r [symmetric]] obtain as
      where "snd (snd (del_mons_loop h ms pm' w')) = w'\<lparr>log := log w' @ map DemonitorProcess as\<rparr>" by blast
    then show ?thesis
      using True r
      by (intro exI [of _ "map (\<lambda>_. mon) (filter (\<lambda>e. snd e = mon) pm) @ as"]) (simp add: w')
  next
    case False
    then show ?thesis using 2(2) by (auto split: prod.splits)
  qed
qed

lemma demonitors_DemonitorProcess [simp]: "demonitors (map DemonitorProcess ds) = ds"
  by (induction ds) simp_all

lemma del_monitors_loops:
  assumes "main w = Some m" "h \<noteq> mh_id m" "distinct (map fst (mon_map m))" "distinct (map snd (proc_mon_map m))"
  shows "del_monitors h w =
    w\<lparr>main := Some (m\<lparr>mon_map := filter (\<lambda>e. snd e \<noteq> h) (mon_map m),
                      proc_mon_map := filter (\<lambda>e. snd e \<notin> set (mons_of h (mon_map m))) (proc_mon_map m)\<rparr>),
      log := log w @ Lock MapMutex # map DemonitorProcess
        (filter (\<lambda>x. x \<in> snd ` set (proc_mon_map m)) (mons_of h (mon_map m))) @ [Unlock MapMutex]\<rparr>"
proof -
  let ?w = "env_log (Lock MapMutex) w"
  obtain ms pm w1 where r: "del_mons_loop h (mon_map m) (proc_mon_map m) ?w = (ms, pm, w1)"
    by (metis prod_cases3)
  obtain as where as: "w1 = ?w\<lparr>log := log ?w @ map DemonitorProcess as\<rparr>"
    using del_mons_loop_eq [of h "mon_map m" "proc_mon_map m" ?w] r by auto
  have "as = filter (\<lambda>x. x \<in> snd ` set (proc_mon_map m)) (mons_of h (mon_map m))"
    using del_mons_loop_demonitors [OF assms(3,4), of h ?w] r by (simp add: as)
  then show ?thesis
    using del_mons_loop_maps [of h "mon_map m" "proc_mon_map m" ?w] r assms(1,2)
    by (simp add: del_monitors_def del_mons_def as env_log_def)
qed

section \<open>The two agree\<close>

lemma key_filter:
  assumes "distinct (map fst xs)" "e \<in> set xs"
  shows "fst e \<in> fst ` set (filter Q xs) \<longleftrightarrow> Q e"
proof
  assume "fst e \<in> fst ` set (filter Q xs)"
  then obtain x where "x \<in> set xs" "Q x" "fst x = fst e" by auto
  then have "x = e" using assms by (auto simp: distinct_map dest: inj_onD)
  then show "Q e" using \<open>Q x\<close> by simp
qed (use assms(2) in simp)

lemma mons_of_mem: "distinct (map fst ms) \<Longrightarrow> e \<in> set ms \<Longrightarrow> fst e \<in> set (mons_of h ms) \<longleftrightarrow> snd e = h"
  using key_filter [of ms e "\<lambda>e. snd e = h"] by (simp add: mons_of_def)

lemma watched_mem:
  "distinct (map fst (proc_mon_map m)) \<Longrightarrow> e \<in> set (proc_mon_map m) \<Longrightarrow>
   fst e \<in> fst ` set (watched h m) \<longleftrightarrow> snd e \<in> set (mons_of h (mon_map m))"
  unfolding watched_def by (rule key_filter)

lemma snd_watched:
  "snd ` set (watched h m) = {x \<in> set (mons_of h (mon_map m)). x \<in> snd ` set (proc_mon_map m)}"
  by (auto simp: watched_def)

lemma without_watched:
  assumes "distinct (map fst (mon_map m))" "distinct (map fst (proc_mon_map m))"
  shows "mon_map (without (watched h m) m) =
      filter (\<lambda>e. snd e = h \<longrightarrow> fst e \<in> unlisted m) (mon_map m)"
    and "proc_mon_map (without (watched h m) m) =
      filter (\<lambda>e. snd e \<notin> set (mons_of h (mon_map m))) (proc_mon_map m)"
proof -
  have "fst e \<notin> snd ` set (watched h m) \<longleftrightarrow> (snd e = h \<longrightarrow> fst e \<in> unlisted m)" if "e \<in> set (mon_map m)" for e
    using mons_of_mem [OF assms(1) that, of h] that by (auto simp: snd_watched unlisted_def)
  then show "mon_map (without (watched h m) m) =
      filter (\<lambda>e. snd e = h \<longrightarrow> fst e \<in> unlisted m) (mon_map m)"
    by (simp add: without_def cong: filter_cong)
  show "proc_mon_map (without (watched h m) m) =
      filter (\<lambda>e. snd e \<notin> set (mons_of h (mon_map m))) (proc_mon_map m)"
    using watched_mem [OF assms(2), of _ h] by (simp add: without_def cong: filter_cong)
qed

text \<open>The same monitors are demonitored, each once.\<close>

lemma same_monitors:
  assumes "distinct (map fst (mon_map m))" "distinct (map snd (proc_mon_map m))"
  shows "mset (filter (\<lambda>x. x \<in> snd ` set (proc_mon_map m)) (mons_of h (mon_map m))) =
    mset (map snd (watched h m))"
proof (subst set_eq_iff_mset_eq_distinct [symmetric])
  show "distinct (map snd (watched h m))"
    using assms(2) by (simp add: watched_def distinct_map_filter)
  show "distinct (filter (\<lambda>x. x \<in> snd ` set (proc_mon_map m)) (mons_of h (mon_map m)))"
    using assms(1) by (simp add: mons_of_def distinct_map_filter)
  show "set (filter (\<lambda>x. x \<in> snd ` set (proc_mon_map m)) (mons_of h (mon_map m))) = set (map snd (watched h m))"
    using snd_watched [of h m] by auto
qed

text \<open>C16: removing all monitors of a handler with the two nested loops of \<open>del_mons\<close>, under one
  lock, against demonitoring the handler's processes one by one: the same monitors are demonitored,
  each once, and the same processes leave the table of processes. From the table of monitors the
  loops also drop the handler's monitors that no process leads to (as a second monitor of one
  process leaves behind), without demonitoring them. The two results are equal exactly if there are
  none of those.\<close>

theorem del_monitors_equiv:
  "tables_ok D w \<Longrightarrow> main w = Some m \<Longrightarrow> h \<noteq> mh_id m \<Longrightarrow>
   \<exists>ds. log (del_monitors h w) = log w @ Lock MapMutex # map DemonitorProcess ds @ [Unlock MapMutex] \<and>
     demonitors (log (del_each h m w)) = demonitors (log w) @ map snd (watched h m) \<and>
     mset ds = mset (map snd (watched h m)) \<and> distinct ds \<and>
     (\<exists>m'. main (del_each h m w) = Some m' \<and>
        main (del_monitors h w) = Some (m'\<lparr>mon_map := filter (\<lambda>e. snd e \<noteq> h) (mon_map m')\<rparr>)) \<and>
     ((del_monitors h w)\<lparr>log := []\<rparr> = (del_each h m w)\<lparr>log := []\<rparr> \<longleftrightarrow>
        set (mons_of h (mon_map m)) \<inter> unlisted m = {})"
proof -
  assume "tables_ok D w" and m: "main w = Some m" "h \<noteq> mh_id m"
  then have d: "distinct (map fst (mon_map m))" "distinct (map fst (proc_mon_map m))"
    "distinct (map snd (proc_mon_map m))"
    by (auto simp: tables_ok_def mon_ok_def smap_inv_def)
  let ?ds = "filter (\<lambda>x. x \<in> snd ` set (proc_mon_map m)) (mons_of h (mon_map m))"
  let ?m' = "without (watched h m) m"
  obtain as where e: "del_each h m w = w\<lparr>main := Some ?m', log := log w @ as\<rparr>" "demonitors as = map snd (watched h m)"
    using del_each_eq [OF m(1) d(2)] by blast
  note l = del_monitors_loops [OF m d(1,3)]
  have "filter (\<lambda>e. snd e \<noteq> h) (mon_map ?m') = filter (\<lambda>e. snd e \<noteq> h) (mon_map m)"
    by (auto simp: without_watched [OF d(1,2)] intro: filter_cong)
  then have main: "m\<lparr>mon_map := filter (\<lambda>e. snd e \<noteq> h) (mon_map m),
      proc_mon_map := filter (\<lambda>e. snd e \<notin> set (mons_of h (mon_map m))) (proc_mon_map m)\<rparr> =
      ?m'\<lparr>mon_map := filter (\<lambda>e. snd e \<noteq> h) (mon_map ?m')\<rparr>"
    using without_watched(2) [OF d(1,2), of h] by (simp add: without_def)
  have same: "?m'\<lparr>mon_map := filter (\<lambda>e. snd e \<noteq> h) (mon_map ?m')\<rparr> = ?m' \<longleftrightarrow>
      set (mons_of h (mon_map m)) \<inter> unlisted m = {}"
  proof -
    have "?m'\<lparr>mon_map := filter (\<lambda>e. snd e \<noteq> h) (mon_map ?m')\<rparr> = ?m' \<longleftrightarrow> (\<forall>e \<in> set (mon_map ?m'). snd e \<noteq> h)"
      by (cases ?m') (simp add: filter_id_conv)
    also have "\<dots> \<longleftrightarrow> set (mons_of h (mon_map m)) \<inter> unlisted m = {}"
      unfolding without_watched(1) [OF d(1,2)] by (force simp: mons_of_def)
    finally show ?thesis .
  qed
  have eq: "w\<lparr>main := Some x, log := []\<rparr> = w\<lparr>main := Some y, log := []\<rparr> \<longleftrightarrow> x = y" for x y
    by (cases w) simp
  have "distinct ?ds" using d(1) by (simp add: mons_of_def distinct_map_filter)
  then show ?thesis
    using l e same eq same_monitors [OF d(1,3), of h] by (intro exI [of _ ?ds]) (simp add: main)
qed

text \<open>A handler with two monitored processes, among others.\<close>

definition sample_watch :: main_handler where
  "sample_watch = \<lparr>mh_id = 1, mh_port = 9, fdmap = [], mon_map = [(0, 2), (1, 3), (2, 2)],
     proc_mon_map = [(5, 1), (6, 2), (8, 0)]\<rparr>"

definition watch_env :: env where
  "watch_env = env0\<lparr>main := Some sample_watch, n_monitors := 3\<rparr>"

theorem del_monitors_equiv_witness:
  "(del_monitors 2 watch_env)\<lparr>log := []\<rparr> = (del_each 2 sample_watch watch_env)\<lparr>log := []\<rparr> \<and>
   demonitors (log (del_each 2 sample_watch watch_env)) = [2, 0]"
proof -
  have "mon_ok chunk_api sample_watch 3 []"
    by (auto simp: mon_ok_def sample_watch_def smap_inv_def created_def chunk_api_def)
  then have ok: "tables_ok chunk_api watch_env"
    by (simp add: tables_ok_def watch_env_def env0_def)
  have "main watch_env = Some sample_watch" "2 \<noteq> mh_id sample_watch"
    by (simp_all add: watch_env_def sample_watch_def)
  moreover have "set (mons_of 2 (mon_map sample_watch)) \<inter> unlisted sample_watch = {}"
    by (simp add: sample_watch_def unlisted_def mons_of_def)
  moreover have "demonitors (log watch_env) @ map snd (watched 2 sample_watch) = [2, 0]"
    by (simp add: watch_env_def env0_def watched_def sample_watch_def mons_of_def)
  ultimately show ?thesis using del_monitors_equiv [OF ok] by metis
qed

end
