(* ===== verification/Starting.thy ===== *)
theory Starting
  imports Driver_Tables
begin

text \<open>
  How a port becomes a connection or a listener: \<open>connect_start\<close> and \<open>listen\<close> of \<open>main_handler.cc\<close>
  along all their early returns and exceptions. Either the port object is as it was and the reply
  is a refusal, or it has handed its port over to the new handler and the reply is \<open>ok\<close>.
\<close>

section \<open>A port that stays as it was\<close>

definition preparatory :: "action \<Rightarrow> bool" where
  "preparatory a \<longleftrightarrow> (case a of AllocBinary _ \<Rightarrow> True | IncRefc _ \<Rightarrow> True | FreeBinary _ \<Rightarrow> True | CloseFd _ \<Rightarrow> True | _ \<Rightarrow> False)"

definition untouched :: "env \<Rightarrow> env \<Rightarrow> bool" where
  "untouched w w' \<longleftrightarrow> main w' = main w \<and> (\<exists>as. log w' = log w @ as \<and> list_all preparatory as)"

text \<open>No field of the object has changed, nor the singleton; only binaries and descriptors came and went.\<close>

definition unchanged :: "'q main_obj \<Rightarrow> 'q main_obj \<Rightarrow> bool" where
  "unchanged o1 o2 \<longleftrightarrow> (\<exists>w. o2 = o1\<lparr>henv := w\<rparr> \<and> untouched (henv o1) w)"

lemma untouched_refl [simp]: "untouched w w"
  by (simp add: untouched_def)

lemma untouched_trans: "untouched w w' \<Longrightarrow> untouched w' w'' \<Longrightarrow> untouched w w''"
  by (auto simp: untouched_def)

lemma untouched_binaries: "only_binaries w w' \<Longrightarrow> untouched w w'"
  by (fastforce simp: only_binaries_def untouched_def list_all_iff preparatory_def)

lemma untouched_close: "untouched w (env_log (CloseFd s) w)"
  by (simp add: untouched_def preparatory_def)

lemma unchanged_refl [simp]: "unchanged o1 o1"
  by (auto simp: unchanged_def intro: exI [of _ "henv o1"])

lemma unchanged_trans: "unchanged o1 o2 \<Longrightarrow> unchanged o2 o3 \<Longrightarrow> unchanged o1 o3"
proof -
  assume "unchanged o1 o2" "unchanged o2 o3"
  then obtain w w' where "o2 = o1\<lparr>henv := w\<rparr>" "o3 = o2\<lparr>henv := w'\<rparr>" "untouched (henv o1) w" "untouched w w'"
    by (auto simp: unchanged_def)
  then have "o3 = o1\<lparr>henv := w'\<rparr>" "untouched (henv o1) w'" using untouched_trans by simp_all
  then show ?thesis unfolding unchanged_def by blast
qed

lemma unchanged_with_env:
  "(\<And>w. only_binaries w (snd (f w))) \<Longrightarrow> with_env f o1 = (r, o2) \<Longrightarrow> unchanged o1 o2"
  using snd_with_env [of f o1] by (auto simp: unchanged_def intro: untouched_binaries)

lemma unchanged_drop: "unchanged o1 o2 \<Longrightarrow> unchanged o1 (drop_binary b o2)"
proof (rule unchanged_trans)
  show "unchanged o2 (drop_binary b o2)"
    using untouched_binaries [OF only_binaries_reset [of "henv o2" None b]]
    by (auto simp: unchanged_def drop_binary_def on_env_def binary_destroy_def)
qed

lemma unchanged_choose: "choose_socket P c so reuse (henv o1) = (r, w) \<Longrightarrow> unchanged o1 (o1\<lparr>henv := w\<rparr>)"
  by (auto simp: unchanged_def choose_socket_def open_udp_socket_port_def open_udp_socket_def untouched_close
      split: if_splits prod.splits cpp.splits)

lemma unchanged_parse_connect: "parse_connect P buf o1 = (r, str, n, b, o2) \<Longrightarrow> unchanged o1 o2"
  using parse_connect_env [of P buf o1] by (auto simp: unchanged_def dest: untouched_binaries)

lemma unchanged_parse_arg: "parse_arg P buf o1 = (r, b, o2) \<Longrightarrow> unchanged o1 o2"
  using untouched_binaries [OF only_binaries_parse [of "henv o1" "api P" "ei P" _ binary_new]]
  by (auto simp: parse_arg_def parse_binary_def unchanged_def split: prod.splits) (metis snd_conv)+

lemma unchanged_fields:
  "unchanged o1 o2 \<Longrightarrow> hid o2 = hid o1 \<and> delegatee o2 = delegatee o1 \<and> port o2 = port o1"
  by (auto simp: unchanged_def)

section \<open>The two outcomes\<close>

text \<open>A reply that tells the process of the failure: bad argument, or an error term.\<close>

definition refusal :: "'q platform \<Rightarrow> nat \<Rightarrow> ctl cpp \<Rightarrow> bool" where
  "refusal P rlen r \<longleftrightarrow> r = Ret CtlBadArg \<or>
     (\<exists>err w. err \<noteq> 0 \<and> r = fst (encode_error P rlen (errno_id (api P) err) w)) \<or>
     (\<exists>w. r = fst (encode_error P rlen ''enotsup'' w))"

text \<open>No reply: an exception leaves the callback, or its behaviour is undefined.\<close>

definition unanswered :: "ctl cpp \<Rightarrow> bool" where
  "unanswered r \<longleftrightarrow> r = Undef \<or> (\<exists>e. r = Throw e)"

text \<open>A new connection as \<open>connect_to\<close> has set it up when it calls \<open>UTP_Connect\<close>.\<close>

definition connecting :: "'q opener \<Rightarrow> nat \<Rightarrow> 'q utp_handler \<Rightarrow> bool" where
  "connecting c p h \<longleftrightarrow> hid h = op_id c \<and> port h = p \<and> selected h \<and> \<not> server h \<and> \<not> deleted h \<and>
     status h = connect_pending \<and> utp h = op_utp c \<and> wsz (write_q h) = 0 \<and> caller_ref h = None \<and>
     \<not> writable h \<and> \<not> close_pending h \<and> \<not> sender_waiting h \<and> \<not> receiver_waiting h \<and>
     UtpCall UTP_Create \<in> set (hlog h)"

text \<open>
  The new handler: a connection is what the callbacks that libutp makes during \<open>UTP_Connect\<close>, if any,
  have made of one that is connecting.
\<close>

fun serves :: "'q opener \<Rightarrow> command \<Rightarrow> nat \<Rightarrow> 'q delegate \<Rightarrow> bool" where
  "serves c k p (ConnD h) = (k = UTP_CONNECT_START \<and> hid h = op_id c \<and>
     (\<exists>g. connecting c p g \<and> h = emit (Unlock UtpMutex) (snd (snd (call_utp UTP_Connect (op_ans c) g)))))"
| "serves c k p (ListD l) = (k = UTP_LISTEN \<and> hid l = op_id c \<and> port l = p \<and> selected l \<and>
     acceptor_queue l = [] \<and> my_addr l = snd (snd (op_myaddr c)))"

definition started :: "'q opener \<Rightarrow> command \<Rightarrow> 'q main_obj \<Rightarrow> 'q main_obj \<Rightarrow> bool" where
  "started c k o1 o2 \<longleftrightarrow> hid o2 = hid o1 \<and> port o2 = 0 \<and> (\<exists>d. delegatee o2 = Some d \<and> serves c k (port o1) d)"

definition outcome :: "'q platform \<Rightarrow> nat \<Rightarrow> 'q opener \<Rightarrow> command \<Rightarrow> 'q main_obj \<Rightarrow> ctl cpp \<times> 'q main_obj \<Rightarrow> bool" where
  "outcome P rlen c k o1 x \<longleftrightarrow> (case x of (r, o2) \<Rightarrow>
     unchanged o1 o2 \<and> (refusal P rlen r \<or> unanswered r) \<or>
     started c k o1 o2 \<and> (\<exists>w. r = fst (encode_atom P rlen ''ok'' w)))"

lemma outcome_refused: "unchanged o1 o2 \<Longrightarrow> refusal P rlen r \<Longrightarrow> outcome P rlen c k o1 (r, o2)"
  by (simp add: outcome_def)

lemma outcome_early:
  "unchanged o1 o2 \<Longrightarrow> outcome P rlen c k o1 (Ret CtlBadArg, o2)"
  "unchanged o1 o2 \<Longrightarrow> outcome P rlen c k o1 (Undef, o2)"
  "unchanged o1 o2 \<Longrightarrow> outcome P rlen c k o1 (Throw e, o2)"
  by (simp_all add: outcome_def refusal_def unanswered_def)

lemma outcome_errno:
  assumes "unchanged o1 o2" "err \<noteq> 0" "with_env (encode_error P rlen (errno_id (api P) err)) o2 = (r, o3)"
  shows "outcome P rlen c k o1 (r, drop_binary b o3)"
proof -
  have "unchanged o2 o3" by (rule unchanged_with_env [OF encode_error_env assms(3)])
  moreover have "refusal P rlen r"
    using assms(2,3) fst_with_env [of "encode_error P rlen (errno_id (api P) err)" o2] by (auto simp: refusal_def)
  ultimately show ?thesis
    using unchanged_trans [OF assms(1)] by (intro outcome_refused) (simp_all add: unchanged_drop)
qed

text \<open>After a start only the reply is left to be encoded.\<close>

lemma started_unchanged: "unchanged o1 o2 \<Longrightarrow> started c k o2 o3 \<Longrightarrow> started c k o1 o3"
  by (auto simp: started_def dest!: unchanged_fields)

lemma outcome_started:
  assumes "started c k o1 o2" "with_env (encode_atom P rlen ''ok'') o2 = (r, o3)"
  shows "outcome P rlen c k o1 (r, drop_binary b o3)"
proof -
  have "unchanged o2 (drop_binary b o3)"
    by (rule unchanged_drop [OF unchanged_with_env [OF encode_atom_env assms(2)]])
  then have "started c k o1 (drop_binary b o3)"
    using assms(1) by (auto simp: started_def dest!: unchanged_fields)
  moreover have "\<exists>w. r = fst (encode_atom P rlen ''ok'' w)"
    using assms(2) fst_with_env [of "encode_atom P rlen ''ok''" o2] by auto
  ultimately show ?thesis by (simp add: outcome_def)
qed

section \<open>The operations\<close>

lemma connecting_client:
  "connect_to ans u h = emit (Unlock UtpMutex) (snd (snd (call_utp UTP_Connect ans
     (set_utp_callbacks ((emit (UtpCall UTP_Create) (emit (Lock UtpMutex) (h\<lparr>status := connect_pending\<rparr>)))\<lparr>utp := u\<rparr>)))))"
  by (simp add: connect_to_def Let_def)

lemma set_utp_callbacks_fields:
  "hid (set_utp_callbacks h) = hid h" "port (set_utp_callbacks h) = port h" "selected (set_utp_callbacks h) = selected h"
  "server (set_utp_callbacks h) = server h" "deleted (set_utp_callbacks h) = deleted h"
  "status (set_utp_callbacks h) = status h" "utp (set_utp_callbacks h) = utp h" "write_q (set_utp_callbacks h) = write_q h"
  "caller_ref (set_utp_callbacks h) = caller_ref h" "writable (set_utp_callbacks h) = writable h"
  "close_pending (set_utp_callbacks h) = close_pending h" "sender_waiting (set_utp_callbacks h) = sender_waiting h"
  "receiver_waiting (set_utp_callbacks h) = receiver_waiting h"
  "set (hlog h) \<subseteq> set (hlog (set_utp_callbacks h))"
  by (auto simp: set_utp_callbacks_def set_sockopt_def split: option.splits)

lemma started_client:
  "started (c\<lparr>op_ans := map (run_utp P) rs\<rparr>) UTP_CONNECT_START o1
     (become_client P (c\<lparr>op_ans := map (run_utp P) rs\<rparr>) so sock o1)"
proof -
  define c1 where "c1 = set_port (port o1) (Client_new (op_id c) (ioq o1) (henv o1) sock so)"
  define o2 where "o2 = clear_port (o1\<lparr>henv := henv c1\<rparr>)"
  define c2 where "c2 = connect_to (map (run_utp P) rs) (op_utp c) (c1\<lparr>henv := henv o2\<rparr>)"
  define x where "x = (emit (UtpCall UTP_Create) (emit (Lock UtpMutex) (c1\<lparr>henv := henv o2, status := connect_pending\<rparr>)))
      \<lparr>utp := op_utp c\<rparr>"
  have c1: "hid c1 = op_id c" "port c1 = port o1" "selected c1" "\<not> server c1" "\<not> deleted c1" "write_q c1 = wq_new"
    "caller_ref c1 = None" "\<not> writable c1" "\<not> close_pending c1" "\<not> sender_waiting c1" "\<not> receiver_waiting c1"
    by (simp_all add: c1_def set_port_def Handler_set_port_def Client_new_def UtpHandler_new_def binary_new_def Let_def)
  have "UtpCall UTP_Create \<in> set (hlog x)" by (simp add: x_def)
  then have "connecting (c\<lparr>op_ans := map (run_utp P) rs\<rparr>) (port o1) (set_utp_callbacks x)"
    using c1 set_utp_callbacks_fields(14) [of x]
    by (auto simp: connecting_def set_utp_callbacks_fields(1-13)) (simp_all add: x_def wq_new_def)
  moreover have "c2 = emit (Unlock UtpMutex) (snd (snd (call_utp UTP_Connect (map (run_utp P) rs) (set_utp_callbacks x))))"
    by (simp add: c2_def x_def connecting_client)
  moreover have "hid c2 = op_id c" using conn_tab_connect_to [of "c1\<lparr>henv := henv o2\<rparr>" P rs "op_utp c"] c1(1)
    by (simp add: c2_def conn_tab_def tab_frame_def)
  moreover have "port o2 = 0" "hid o2 = hid o1" by (simp_all add: o2_def clear_port_def)
  moreover have "become_client P (c\<lparr>op_ans := map (run_utp P) rs\<rparr>) so sock o1 =
      o2\<lparr>delegatee := Some (ConnD c2), henv := henv c2\<rparr>"
    by (simp add: become_client_def c1_def o2_def c2_def Let_def)
  ultimately show ?thesis by (auto simp: started_def)
qed

lemma started_listener:
  assumes "become_listener P c so sock o1 = (r, o2)"
  shows "(\<exists>e. r = Throw e \<and> o2 = o1) \<or> r = Ret () \<and> started c UTP_LISTEN o1 o2"
proof (cases "Listener_new (op_id c) (ioq o1) (henv o1) (op_myaddr c) sock so")
  case (Ret l)
  then have "hid l = op_id c" "acceptor_queue l = []" "my_addr l = snd (snd (op_myaddr c))" "\<not> selected l"
    by (auto simp: Listener_new_def split: prod.splits if_splits)
  then show ?thesis
    using assms Ret
    by (auto simp: become_listener_def started_def clear_port_def set_port_def Handler_set_port_def Let_def)
qed (use assms in \<open>auto simp: become_listener_def Listener_new_def split: prod.splits if_splits\<close>)

interpretation outcomes: port_start P "answers_by_runs P"
  "\<lambda>o1 b o2. unchanged o1 o2" "\<lambda>c k o1 b o2. started c k o1 o2"
  "\<lambda>rlen c k o1 r o2. outcome P rlen c k o1 (r, o2)" for P :: "'q platform"
proof unfold_locales
  fix o1 o2 :: "'q main_obj" and b buf pr str n r rlen k and c :: "'q opener"
  show "unchanged o1 o2" if "parse_connect P buf o1 = (pr, str, n, b, o2)"
    by (rule unchanged_parse_connect [OF that])
  show "unchanged o1 o2" if "parse_arg P buf o1 = (pr, b, o2)"
    by (rule unchanged_parse_arg [OF that])
  show "outcome P rlen c k o1 (r, o2)" if "with_env (encode_error P rlen ''enotsup'') o1 = (r, o2)"
    using that fst_with_env [of "encode_error P rlen ''enotsup''" o1]
    by (intro outcome_refused [OF unchanged_with_env [OF encode_error_env that]]) (auto simp: refusal_def)
next
  fix o1 o2 o3 :: "'q main_obj" and b so reuse rs w w' sock r err rlen k and c :: "'q opener"
  assume 2: "unchanged o1 o2"
  show "unchanged o1 (o2\<lparr>henv := w\<rparr>)" if "choose_socket P c so reuse (henv o2) = (rs, w)"
    by (rule unchanged_trans [OF 2 unchanged_choose [OF that]])
  show "started c UTP_CONNECT_START o1 (become_client P c so sock o2)" if "answers_by_runs P c"
    using that started_unchanged [OF 2] started_client by (metis answers_by_runsE)
  show "started c UTP_LISTEN o1 o3" if "become_listener P c so sock o2 = (Ret (), o3)"
    using started_unchanged [OF 2] started_listener [OF that] by auto
  show "outcome P rlen c k o1 (r, drop_binary b o3)"
    if "err \<noteq> 0" "with_env (encode_error P rlen (errno_id (api P) err)) o2 = (r, o3)"
    by (rule outcome_errno [OF 2 that])
  show "outcome P rlen c k o1 (r, o2) \<and> outcome P rlen c k o1 (r, drop_binary b o2)"
    if "r = Ret CtlBadArg \<or> r = Undef \<or> (\<exists>e. r = Throw e)"
    using that 2 by (auto simp: outcome_early unchanged_drop)
qed (rule outcome_started)

text \<open>
  C12: a port object that serves nothing yet either starts completely or not at all. Whatever the
  command, its argument and the answers of the operating system and of libutp are: if the port
  object has no delegatee afterwards, none of its fields nor the singleton has changed, only
  binaries and descriptors came and went, and the process is told (bad argument, or an error
  term), unless an exception or undefined behaviour ends the call, which then answers nothing.
  Otherwise the reply is \<open>ok\<close>, the command was to connect or to listen, and the object has handed
  its port over. A new listener has an empty queue and its input is selected. A new connection was
  set up, when libutp was asked to connect, as a client with the new socket of libutp whose
  connection is pending and whose input is selected, and it is what the callbacks made during
  that call have left of it; without any, its connection is still pending.
\<close>

theorem port_starts_or_stays:
  assumes "delegatee o1 = None"
    and "MainHandler_control P (c\<lparr>op_ans := map (run_utp P) rs\<rparr>) cw cmd buf rlen o1 = (r, o2)"
  shows "case delegatee o2 of
      None \<Rightarrow> unchanged o1 o2 \<and> (refusal P rlen r \<or> unanswered r)
    | Some d \<Rightarrow> (\<exists>w. r = fst (encode_atom P rlen ''ok'' w)) \<and> hid o2 = hid o1 \<and> port o2 = 0 \<and>
        serves (c\<lparr>op_ans := map (run_utp P) rs\<rparr>) (command_of cmd) (port o1) d \<and>
        (rs = [] \<longrightarrow> (\<forall>h. d = ConnD h \<longrightarrow> status h = connect_pending \<and> utp h = op_utp c \<and> port h = port o1))"
proof -
  have none: "unchanged o1 o2 \<Longrightarrow> delegatee o2 = None" using unchanged_fields [of o1 o2] assms(1) by simp
  have pending: "status h = connect_pending \<and> utp h = op_utp c \<and> port h = port o1"
    if "serves (c\<lparr>op_ans := []\<rparr>) k (port o1) (ConnD h)" for k h
    using that by (auto simp: connecting_def call_utp_def take_answer_def split: option.splits)
  show ?thesis
    using outcomes.control_ended [OF assms(1) answers_by_runs assms(2)] assms(1)
    by (auto simp: outcome_def started_def none pending simp del: serves.simps)
qed

theorem port_starts_or_stays_witness:
  "\<exists>r o2 l. MainHandler_control short_platform (sample_opener\<lparr>op_ans := map (run_utp short_platform) []\<rparr>)
       \<lparr>cw_ans = [], cw_sockname = (0, 0, SockAddr_in [127, 0, 0, 1] 9), cw_peername = (0, SockAddr_in [127, 0, 0, 1] 9)\<rparr>
       1 [131, 109, 0, 0, 0, 0] 100 (MainHandler_new 2 8 [] env0) = (r, o2) \<and>
     delegatee o2 = Some (ListD l) \<and> port o2 = 0 \<and> port l = 8"
proof -
  let ?cw = "\<lparr>cw_ans = [], cw_sockname = (0, 0, SockAddr_in [127, 0, 0, 1] 9), cw_peername = (0, SockAddr_in [127, 0, 0, 1] 9)\<rparr>"
  let ?o = "MainHandler_new 2 8 [] env0 :: byte list list main_obj"
  obtain r o2 where c: "MainHandler_control short_platform (sample_opener\<lparr>op_ans := map (run_utp short_platform) []\<rparr>) ?cw
      1 [131, 109, 0, 0, 0, 0] 100 ?o = (r, o2)" by fastforce
  have "delegatee (snd (MainHandler_control short_platform (sample_opener\<lparr>op_ans := map (run_utp short_platform) []\<rparr>) ?cw
      1 [131, 109, 0, 0, 0, 0] 100 ?o)) \<noteq> None"
    by code_simp
  then obtain d where d: "delegatee o2 = Some d" using c by auto
  have o: "delegatee ?o = None" "port ?o = 8" "command_of 1 = UTP_LISTEN" by code_simp+
  show ?thesis
    using port_starts_or_stays [OF o(1) c] d o(2,3) c by (cases d) auto
qed

end
