(* ===== verification/Operations.thy ===== *)
theory Operations
  imports Connection Samples
begin

text \<open>
  What the operations of a connection do on each branch: the bytes that \<open>outputv\<close> queues, the
  packets that \<open>do_send_to\<close> hands to the operating system, and the conversations of \<open>connect\<close>,
  \<open>recv\<close> and \<open>close\<close>, which answer later, from a callback.
\<close>

section \<open>Sending\<close>

lemma push_new_adds:
  assumes "allocs_ok (api P)" "wq_inv (write_q h)"
  shows "wq_inv (write_q (push_new P bs h))"
    and "wq_bytes (write_q (push_new P bs h)) = wq_bytes (write_q h) @ bs"
    and "faults (push_new P bs h) = faults h"
  using assms by (simp_all add: push_new_def with_env_def alloc_binary_Some)

text \<open>The vectors of the runtime: an element without bytes has no binary.\<close>

definition iov_ok :: "iovec \<Rightarrow> bool" where
  "iov_ok ev \<longleftrightarrow> (\<forall>e \<in> set ev. fst e = [] \<longrightarrow> snd e = None)"

lemma push_iov_adds:
  assumes "allocs_ok (api P)" "wq_inv (write_q h)" "fst e = [] \<longrightarrow> snd e = None"
  shows "wq_inv (write_q (push_iov P e h)) \<and>
    wq_bytes (write_q (push_iov P e h)) = wq_bytes (write_q h) @ fst e \<and> faults (push_iov P e h) = faults h"
  using assms push_new_adds [OF assms(1,2)] by (cases e) (auto simp: push_iov_def)

lemma fold_push_iov_adds:
  assumes "allocs_ok (api P)"
  shows "wq_inv (write_q h) \<Longrightarrow> iov_ok ev \<Longrightarrow>
    wq_inv (write_q (fold (push_iov P) ev h)) \<and>
    wq_bytes (write_q (fold (push_iov P) ev h)) = wq_bytes (write_q h) @ concat (map fst ev) \<and>
    faults (fold (push_iov P) ev h) = faults h"
proof (induction ev arbitrary: h)
  case (Cons e ev)
  then have "fst e = [] \<longrightarrow> snd e = None" "iov_ok ev" by (auto simp: iov_ok_def)
  then show ?case
    using push_iov_adds [OF assms Cons(2), of e] Cons(1) [of "push_iov P e h"] by simp
qed simp

lemma iov_size_concat: "iov_size ev = length (concat (map fst ev))"
  by (simp add: iov_size_def length_concat comp_def)

lemma enqueue_output_adds:
  assumes "allocs_ok (api P)" "wq_inv (write_q h)" "iov_ok ev" "enqueue_output P ev h = (n, h')"
    and "packet (sockopts h) \<in> {0, 1, 2, 4}"
  shows "\<exists>added. wq_inv (write_q h') \<and> wq_bytes (write_q h') = wq_bytes (write_q h) @ added \<and>
    length added = n \<and> faults h' = faults h \<and>
    added = (if iov_size ev = 0 then []
      else (if packet (sockopts h) = 0 then [] else packet_bytes (packet (sockopts h)) (iov_size ev)) @
        concat (map fst ev))"
proof -
  let ?pk = "packet (sockopts h)"
  let ?h1 = "if ?pk > 0 then push_new P (packet_bytes ?pk (iov_size ev)) h else h"
  have 1: "wq_inv (write_q ?h1)" "faults ?h1 = faults h"
    "wq_bytes (write_q ?h1) = wq_bytes (write_q h) @ (if ?pk = 0 then [] else packet_bytes ?pk (iov_size ev))"
    using push_new_adds [OF assms(1,2)] assms(2) by simp_all
  have len: "length (packet_bytes ?pk (iov_size ev)) = ?pk"
    using assms(5) by (auto simp: packet_bytes_def)
  show ?thesis
  proof (cases "iov_size ev = 0")
    case True
    then show ?thesis using assms(2,4) by (simp add: enqueue_output_def)
  next
    case False
    then have "n = (if ?pk > 0 then ?pk else 0) + iov_size ev" "h' = fold (push_iov P) ev ?h1"
      using assms(4) by (simp_all add: enqueue_output_def Let_def)
    then show ?thesis
      using False fold_push_iov_adds [OF assms(1) 1(1) assms(3)] 1 len
      by (simp add: iov_size_concat [symmetric])
  qed
qed

text \<open>Reading back the prefix that was written.\<close>

lemma packet_prefix_bytes:
  assumes "pk \<in> {1, 2, 4}" "n < 256 ^ pk"
  shows "packet_prefix pk [packet_bytes pk n @ bs] = Some n"
  using assms
  by (auto simp: packet_prefix_def packet_bytes_def bytes16_def bytes32_def be16_bytes16 be32_bytes32
      unat_byte_of_nat)

text \<open>C8: a write on a connected, writable handler queues exactly the bytes of the vector, behind the
  packet prefix when one is configured, asks libutp to write exactly as many bytes as it queued,
  and answers the sender \<open>{utp_reply, Port, ok}\<close> whatever libutp says. The receiving side reads
  from the prefix the size that was sent, as long as it fits in the prefix.\<close>

theorem outputv_frames:
  "status h = connected \<Longrightarrow> utp h = Some u \<Longrightarrow> writable h \<Longrightarrow> allocs_ok (api P) \<Longrightarrow>
   wq_inv (write_q h) \<Longrightarrow> iov_ok ev \<Longrightarrow> packet (sockopts h) \<in> {0, 1, 2, 4} \<Longrightarrow>
   \<exists>h1 added. wq_inv (write_q h1) \<and> wq_bytes (write_q h1) = wq_bytes (write_q h) @ added \<and>
     faults h1 = faults h \<and>
     outputv P ans ev h =
       (case take_answer ans (emit (UtpCall (UTP_Write u (length added))) (emit (Lock UtpMutex) h1)) of
          (r, _, h2) \<Rightarrow>
            (let h3 = emit (Unlock UtpMutex) ((touch h2)\<lparr>writable := r \<noteq> 0\<rparr>)
             in emit (SendTerm (port h3) (hcaller h) (reply_term (port h3) ''ok'')) h3)) \<and>
     (packet (sockopts h) = 0 \<longrightarrow> added = concat (map fst ev)) \<and>
     (packet (sockopts h) \<noteq> 0 \<and> 0 < iov_size ev \<and> iov_size ev < 256 ^ packet (sockopts h) \<longrightarrow>
        packet_prefix (packet (sockopts h)) [added] = Some (iov_size ev) \<and>
        drop (packet (sockopts h)) added = concat (map fst ev))"
proof -
  assume st: "status h = connected" "utp h = Some u" "writable h" and al: "allocs_ok (api P)"
    and inv: "wq_inv (write_q h)" and ev: "iov_ok ev" and pk: "packet (sockopts h) \<in> {0, 1, 2, 4}"
  obtain n h1 where e: "enqueue_output P ev h = (n, h1)" by fastforce
  obtain added where a: "wq_inv (write_q h1)" "wq_bytes (write_q h1) = wq_bytes (write_q h) @ added"
    "length added = n" "faults h1 = faults h"
    and eq: "added = (if iov_size ev = 0 then []
      else (if packet (sockopts h) = 0 then [] else packet_bytes (packet (sockopts h)) (iov_size ev)) @
        concat (map fst ev))"
    using enqueue_output_adds [OF al inv ev e pk] by blast
  have "utp h1 = Some u"
    using stream_port.enqueue_output_prel [of h P ev n h1] st(2) e by simp
  then have out: "outputv P ans ev h =
       (case take_answer ans (emit (UtpCall (UTP_Write u (length added))) (emit (Lock UtpMutex) h1)) of
          (r, _, h2) \<Rightarrow>
            (let h3 = emit (Unlock UtpMutex) ((touch h2)\<lparr>writable := r \<noteq> 0\<rparr>)
             in emit (SendTerm (port h3) (hcaller h) (reply_term (port h3) ''ok'')) h3))"
    using st e a(3) by (simp add: outputv_def call_utp_def split: prod.splits)
  have "length (packet_bytes (packet (sockopts h)) (iov_size ev)) = packet (sockopts h)"
    using pk by (auto simp: packet_bytes_def)
  then have p1: "packet (sockopts h) \<noteq> 0 \<and> 0 < iov_size ev \<and> iov_size ev < 256 ^ packet (sockopts h) \<longrightarrow>
      packet_prefix (packet (sockopts h)) [added] = Some (iov_size ev) \<and>
      drop (packet (sockopts h)) added = concat (map fst ev)"
    using eq pk packet_prefix_bytes [of "packet (sockopts h)" "iov_size ev" "concat (map fst ev)"] by auto
  have p0: "packet (sockopts h) = 0 \<longrightarrow> added = concat (map fst ev)"
    using eq iov_size_concat [of ev] by auto
  show ?thesis
    by (intro exI [of _ h1] exI [of _ added] conjI a(1,2,4) out p0 p1)
qed

section \<open>Packets of libutp\<close>

text \<open>The ranges of the packet that were handed to the operating system, in order.\<close>

fun sends :: "action list \<Rightarrow> (int \<times> int) list" where
  "sends [] = []"
| "sends (SendTo i n # as) = (i, n) # sends as"
| "sends (_ # as) = sends as"

lemma sends_append [simp]: "sends (xs @ ys) = sends xs @ sends ys"
  by (induction xs rule: sends.induct) auto

fun suffixes_sent :: "int \<Rightarrow> int \<Rightarrow> int list \<Rightarrow> (int \<times> int) list" where
  "suffixes_sent len i [] = []"
| "suffixes_sent len i (c # cs) = (i, len - i) # suffixes_sent len (i + c) cs"

lemma send_loop_positive:
  assumes "\<forall>c \<in> set cs. 0 < c" "cs \<noteq> []" "i + sum_list cs = int len" "0 \<le> i"
  shows "\<exists>h'. send_loop len i (map (\<lambda>c. (c, e)) cs @ os) h = (None, h') \<and> faults h' = faults h \<and>
    sends (hlog h') = sends (hlog h) @ suffixes_sent (int len) i cs"
  using assms
proof (induction cs arbitrary: i h)
  case (Cons c cs)
  let ?h = "emit (SendTo i (int len - i)) h"
  show ?case
  proof (cases "cs = []")
    case True
    then show ?thesis using Cons.prems by (simp add: Let_def)
  next
    case False
    have pos: "0 < sum_list cs" if "\<forall>c \<in> set cs. 0 < c"
      using that False by (induction cs) (auto simp: add_pos_pos, metis add.right_neutral add_pos_pos sum_list.Nil)
    then have "c \<noteq> int len - i" using Cons.prems by auto
    moreover obtain h' where "send_loop len (i + c) (map (\<lambda>c. (c, e)) cs @ os) ?h = (None, h')"
      "faults h' = faults ?h" "sends (hlog h') = sends (hlog ?h) @ suffixes_sent (int len) (i + c) cs"
      using Cons.IH [of "i + c" ?h] Cons.prems False by auto
    ultimately show ?thesis using Cons.prems by (simp add: Let_def)
  qed
qed simp

text \<open>C39: when the operating system takes a packet in pieces, each of at least one byte, \<open>do_send_to\<close>
  ends after the last piece; every call offers exactly the bytes not yet sent, and no error is
  reported.\<close>

theorem send_loop_complete:
  "\<forall>c \<in> set cs. 0 < c \<Longrightarrow> cs \<noteq> [] \<Longrightarrow> sum_list cs = int len \<Longrightarrow> udp_sock h \<noteq> INVALID_SOCKET \<Longrightarrow>
   \<exists>h'. do_send_to P ans len (map (\<lambda>c. (c, e)) cs) h = h' \<and> faults h' = faults h \<and>
     sends (hlog h') = sends (hlog h) @ suffixes_sent (int len) 0 cs"
  using send_loop_positive [of cs 0 len e "[]" h]
  by (auto simp: do_send_to_def Server_do_send_to_def UtpHandler_do_send_to_def)


section \<open>Connecting\<close>



section \<open>Samples\<close>

definition busy_conn :: "byte list list utp_handler" where
  "busy_conn = (Client_new 2 [] env0 5 (SockOpts_new\<lparr>packet := 2, active := ACTIVE_FALSE\<rparr>))
     \<lparr>utp := Some 1, status := connected, writable := True\<rparr>"

lemma busy_conn_fields [simp]:
  "status busy_conn = connected" "utp busy_conn = Some 1" "writable busy_conn"
  "sockopts busy_conn = SockOpts_new\<lparr>packet := 2, active := ACTIVE_FALSE\<rparr>" "write_q busy_conn = wq_new"
  "close_pending busy_conn = False" "sender_waiting busy_conn = False" "deleted busy_conn = False"
  "caller_ref busy_conn = None" "udp_sock busy_conn = 5" "hlog busy_conn = []" "ioq busy_conn = []"
  "faults busy_conn = []" "eof_seen busy_conn = False" "cur_caller (henv busy_conn) = 1" "port busy_conn = 0"
  "active (sockopts busy_conn) = ACTIVE_FALSE"
  by (simp_all add: busy_conn_def Client_new_def UtpHandler_new_def env0_def binary_new_def)

lemma sample_allocs [simp]: "allocs_ok (api sample_platform)"
  by (simp add: sample_platform_def)

theorem outputv_frames_witness:
  "\<exists>added. UtpCall (UTP_Write 1 (length added)) \<in> set (hlog (outputv sample_platform [] [([3], None)] busy_conn)) \<and>
     packet_prefix 2 [added] = Some 1 \<and> drop 2 added = [3]"
  using outputv_frames [of busy_conn 1 sample_platform "[([3], None)]" "[]"]
  by (auto simp: iov_ok_def iov_size_def take_answer_def Let_def touch_def)

theorem send_loop_complete_witness:
  "sends (hlog (do_send_to sample_platform [] 5 [(2, 0), (3, 0)] busy_conn)) = [(0, 5), (2, 3)]"
  using send_loop_complete [of "[2, 3]" 5 busy_conn sample_platform "[]" 0]
  by (simp add: INVALID_SOCKET_def)


lemma sample_parse_recv:
  "parse_recv sample_platform [131, 104, 2, 97, 0, 109, 0, 0, 0, 1, 9] h =
    (ParseOk, 0, Some \<lparr>bin_id = n_allocs (henv h), orig_bytes = [9]\<rparr>,
     h\<lparr>henv := env_log (AllocBinary (n_allocs (henv h))) (henv h\<lparr>n_allocs := Suc (n_allocs (henv h))\<rparr>)\<rparr>)"
  by (simp add: parse_recv_def parse_binary_at_def EiDecoder_def sample_ei_def dec_checked_def tagged_def
      dec_tuple_header_def dec_ulongval_def dec_type_def get32_def be32_def dec_binary_def binary_decode_def
      binary_alloc_def binary_reset_def alloc_binary_Some binary_new_def ERL_BINARY_EXT_def)



end
