(* ===== verification/Closing.thy ===== *)
theory Closing
  imports Operations
begin

text \<open>
  \<open>UtpHandler::close\<close>: when the process that closes is answered, and the ways in which it is not.
  The callbacks that libutp makes after a close may nest to any depth; \<open>close_kept\<close> says what each of
  them leaves as it is.
\<close>

text \<open>A close that waits for libutp to let go of the socket.\<close>

definition close_waits :: "caller \<Rightarrow> drv_binary \<Rightarrow> 'q utp_handler \<Rightarrow> bool" where
  "close_waits c b h \<longleftrightarrow> status h = closing \<and> close_pending h \<and> caller_ref h = Some b \<and> caller h = c \<and>
     c \<noteq> NilTerm \<and> \<not> sender_waiting h \<and> \<not> deleted h"

text \<open>The same when no \<open>recv\<close> waits either, on a server or a client.\<close>

definition close_alone :: "bool \<Rightarrow> caller \<Rightarrow> drv_binary \<Rightarrow> 'q utp_handler \<Rightarrow> bool" where
  "close_alone sv c b h \<longleftrightarrow> close_waits c b h \<and> \<not> receiver_waiting h \<and> server h = sv"

text \<open>
  The callbacks that libutp makes for a socket that was connected, up to the last one: it reports
  no new connection, and does not yet say that it destroys the socket. Reporting a socket that has
  come in does nothing to a client, but makes a server that has none take it.
\<close>

fun settled_cb :: "bool \<Rightarrow> callback \<Rightarrow> bool" where
  "settled_cb sv (CbState s) = (s \<noteq> UTP_STATE_CONNECT \<and> s \<noteq> UTP_STATE_DESTROYING)"
| "settled_cb sv (CbIncoming u) = (\<not> sv)"
| "settled_cb sv _ = True"

fun settled_run :: "bool \<Rightarrow> utp_run \<Rightarrow> bool"
and settled :: "bool \<Rightarrow> (callback \<times> utp_run list) list \<Rightarrow> bool" where
  "settled_run sv (UtpRun r cbs) = settled sv cbs"
| "settled sv [] = True"
| "settled sv ((cb, rs) # cbs) = (settled_cb sv cb \<and> list_all (settled_run sv) rs \<and> settled sv cbs)"

text \<open>Logs in which libutp is not asked to close a socket.\<close>

fun closes_socket :: "action \<Rightarrow> bool" where
  "closes_socket (UtpCall (UTP_Close u)) = True"
| "closes_socket _ = False"

definition unclosed :: "action list \<Rightarrow> bool" where
  "unclosed as \<longleftrightarrow> \<not> list_ex closes_socket as"

lemma closes_socket_iff: "closes_socket a \<longleftrightarrow> (\<exists>u. a = UtpCall (UTP_Close u))"
  by (cases a rule: closes_socket.cases) simp_all

lemma unclosed_iff: "unclosed as \<longleftrightarrow> (\<forall>u. UtpCall (UTP_Close u) \<notin> set as)"
  by (auto simp: unclosed_def list_ex_iff closes_socket_iff)

lemma unclosed_simps [simp]:
  "unclosed []" "unclosed (a # as) \<longleftrightarrow> (\<forall>u. a \<noteq> UtpCall (UTP_Close u)) \<and> unclosed as"
  "unclosed (xs @ ys) \<longleftrightarrow> unclosed xs \<and> unclosed ys"
  by (auto simp: unclosed_def closes_socket_iff)

section \<open>What callbacks keep of a close that waits\<close>

definition close_kept ::
  "bool \<Rightarrow> caller \<Rightarrow> drv_binary \<Rightarrow> 'q utp_handler \<Rightarrow> 'q utp_handler \<Rightarrow> bool" where
  "close_kept sv c b h h' \<longleftrightarrow> (close_alone sv c b h \<longrightarrow>
     close_alone sv c b h' \<and> close_replies (hlog h') = close_replies (hlog h))"

lemma close_kept_refl [simp]: "close_kept sv c b h h"
  by (simp add: close_kept_def)

lemma close_kept_trans: "close_kept sv c b h h1 \<Longrightarrow> close_kept sv c b h1 h2 \<Longrightarrow> close_kept sv c b h h2"
  by (simp add: close_kept_def)

lemma close_kept_emit: "close_reply a = [] \<Longrightarrow> close_kept sv c b h (emit a h)"
  by (simp add: close_kept_def close_alone_def close_waits_def)

lemma close_kept_fault [simp]: "close_kept sv c b h (fault x h)"
  by (simp add: close_kept_def close_alone_def close_waits_def)

lemma close_kept_touch [simp]: "close_kept sv c b h (touch h)"
  by (simp add: touch_def)

lemma close_kept_fields [simp]:
  "close_kept sv c b x (h\<lparr>state := i\<rparr>) = close_kept sv c b x h"
  "close_kept sv c b x (h\<lparr>error_code := i\<rparr>) = close_kept sv c b x h"
  "close_kept sv c b x (h\<lparr>writable := v\<rparr>) = close_kept sv c b x h"
  "close_kept sv c b x (h\<lparr>eof_seen := v\<rparr>) = close_kept sv c b x h"
  "close_kept sv c b x (h\<lparr>utp := u\<rparr>) = close_kept sv c b x h"
  "close_kept sv c b x (h\<lparr>write_q := q\<rparr>) = close_kept sv c b x h"
  "close_kept sv c b x (h\<lparr>ioq := i2\<rparr>) = close_kept sv c b x h"
  "close_kept sv c b x (h\<lparr>read_count := rc\<rparr>) = close_kept sv c b x h"
  by (simp_all add: close_kept_def close_alone_def close_waits_def)

definition kept_answers :: "bool \<Rightarrow> caller \<Rightarrow> drv_binary \<Rightarrow> 'q answers \<Rightarrow> bool" where
  "kept_answers sv c b ans \<longleftrightarrow> (\<forall>a \<in> set ans. \<forall>h. close_kept sv c b h (snd (a h)))"

lemma close_kept_take_answer:
  "kept_answers sv c b ans \<Longrightarrow> take_answer ans h = (r, ans', h') \<Longrightarrow>
   close_kept sv c b h h' \<and> kept_answers sv c b ans'"
  by (cases ans) (auto simp: take_answer_def kept_answers_def split: prod.splits, metis snd_conv)

lemma close_kept_call_utp:
  assumes "kept_answers sv c b ans" "call_utp f ans h = (r, ans', h')"
  shows "close_kept sv c b h h' \<and> kept_answers sv c b ans'"
proof (cases "utp h")
  case (Some u)
  then have "take_answer ans (emit (UtpCall (f u)) h) = (r, ans', h')" using assms(2) by (simp add: call_utp_def)
  then have "close_kept sv c b (emit (UtpCall (f u)) h) h'" "kept_answers sv c b ans'"
    using close_kept_take_answer [OF assms(1)] by blast+
  moreover have "close_kept sv c b h (emit (UtpCall (f u)) h)" by (simp add: close_kept_emit)
  ultimately show ?thesis using close_kept_trans by blast
qed (use assms in \<open>auto simp: call_utp_def\<close>)

lemma close_kept_close_utp:
  assumes ans: "kept_answers sv c b ans"
  shows "close_kept sv c b h (snd (close_utp ans h))"
proof (cases "close_alone sv c b h")
  case True
  then have s: "h\<lparr>status := closing\<rparr> = h" by (simp add: close_alone_def close_waits_def)
  obtain r ans' h' where u: "call_utp UTP_Close ans h = (r, ans', h')" by (metis prod_cases3)
  have "close_kept sv c b h ((touch h')\<lparr>utp := None\<rparr>)"
    using close_kept_call_utp [OF ans u] close_kept_trans [of sv c b h h' "touch h'"] by simp
  then show ?thesis by (simp add: close_utp_def s u)
qed (simp add: close_kept_def)

lemma close_kept_send_loop: "close_kept sv c b h (snd (send_loop len i os h))"
proof (induction len i os h rule: send_loop.induct)
  case (2 len i count err os h)
  let ?h = "emit (SendTo i (int len - i)) (if i < 0 then fault OutOfBounds h else h)"
  have k: "close_kept sv c b h ?h" by (rule close_kept_trans [OF _ close_kept_emit]) simp_all
  show ?case using k close_kept_trans [OF k 2] by (simp add: Let_def)
qed simp

lemma close_kept_error: "close_kept sv c b h (do_error P ans e h)"
  by (simp add: close_kept_def do_error_def close_alone_def close_waits_def Let_def)

lemma close_kept_send_to: "close_kept sv c b h (do_send_to P ans len os h)"
proof -
  obtain r h' where e: "send_loop len 0 os h = (r, h')" by fastforce
  have k: "close_kept sv c b h h'" using close_kept_send_loop [of sv c b h len 0 os] e by simp
  then have "close_kept sv c b h (do_error P ans x h')" for x
    by (rule close_kept_trans [OF _ close_kept_error])
  then show ?thesis
    using e k
    by (simp add: do_send_to_def Server_do_send_to_def UtpHandler_do_send_to_def split: option.splits)
qed

lemma close_kept_writable:
  assumes ans: "kept_answers sv c b ans"
  shows "close_kept sv c b h (on_writable ans h)"
proof (cases "close_alone sv c b h")
  case True
  define h1 where "h1 = h\<lparr>writable := True\<rparr>"
  obtain ans2 h2 where st: "(if wsz (write_q h1) \<noteq> 0 then
               (case call_utp (\<lambda>u. UTP_Write u (wsz (write_q h1))) ans h1 of
                  (r, ans', h') \<Rightarrow> (ans', (touch h')\<lparr>writable := r \<noteq> 0\<rparr>))
             else (ans, h1)) = (ans2, h2)" by fastforce
  have 1: "close_kept sv c b h h1" by (simp add: h1_def)
  have 2: "close_kept sv c b h h2 \<and> kept_answers sv c b ans2"
  proof (cases "wsz (write_q h1) \<noteq> 0")
    case True
    obtain r ans' h' where u: "call_utp (\<lambda>u. UTP_Write u (wsz (write_q h1))) ans h1 = (r, ans', h')"
      by (metis prod_cases3)
    have "close_kept sv c b h ((touch h')\<lparr>writable := r \<noteq> 0\<rparr>)"
      using close_kept_call_utp [OF ans u] close_kept_trans [OF 1] close_kept_trans [of sv c b h h' "touch h'"] by simp
    then show ?thesis using close_kept_call_utp [OF ans u] True u st by auto
  qed (use st 1 ans in auto)
  then have "close_pending h2" "\<not> sender_waiting h2"
    using True by (simp_all add: close_kept_def close_alone_def close_waits_def)
  then have "on_writable ans h = snd (close_utp ans2 h2)"
    unfolding on_writable_def Let_def h1_def [symmetric] st by simp
  then show ?thesis using 2 close_kept_trans [OF _ close_kept_close_utp] by metis
qed (simp add: close_kept_def)

lemma close_kept_eof:
  assumes "kept_answers sv c b ans"
  shows "close_kept sv c b h (on_eof ans h)"
proof -
  define h1 where "h1 = h\<lparr>write_q := wq_clear (write_q h)\<rparr>"
  define h2 where "h2 = (if status h1 \<noteq> stopped then snd (close_utp ans h1) else h1)"
  have "close_kept sv c b h h1" "close_kept sv c b h1 h2"
    by (simp_all add: h1_def h2_def close_kept_close_utp [OF assms])
  then have "close_kept sv c b h (touch h2)" by (blast intro: close_kept_trans close_kept_touch)
  then have "close_kept sv c b h ((touch h2)\<lparr>writable := False, eof_seen := True\<rparr>)" by simp
  then show ?thesis by (simp only: on_eof_def Let_def h1_def h2_def)
qed

lemma close_kept_write: "close_kept sv c b h (snd (do_write n h))"
proof -
  obtain as where "hlog (snd (do_write n h)) = hlog h @ as" "\<forall>a \<in> set as. \<exists>i. a = FreeBinary i"
    using do_write_frees by blast
  then have "close_replies (hlog (snd (do_write n h))) = close_replies (hlog h)"
    by (auto simp: close_replies_def)
  then show ?thesis
    by (auto simp: do_write_def close_kept_def close_alone_def close_waits_def split: cpp.splits)
qed

text \<open>Data that arrive are queued, so the close is not forgotten, and go to the port's owner.\<close>

lemma close_pending_move: "move_read_data D vec bs n h = (b, q, h') \<Longrightarrow> close_pending h' = close_pending h"
  by (drule move_read_data_eq) simp

lemma close_pending_deliver_loop: "close_pending (snd (deliver_loop D n rcvr vec buf pkt q h)) = close_pending h"
proof (induction D n rcvr vec buf pkt q h rule: deliver_loop.induct)
  case (2 D n rcvr vec buf pkt q h)
  show ?case
  proof (cases "buf = [] \<and> read_count h = []")
    case False
    obtain pkt1 buf1 q1 h1 where st: "(if buf = [] then
              (let c = hd (read_count h); pkt = of_nat c :: u32
               in (pkt, move_read_data D vec buf (unat pkt) (h\<lparr>read_count := tl (read_count h)\<rparr>)))
            else (pkt, buf, q, h)) = (pkt1, buf1, q1, h1)"
      by (metis prod_cases4)
    then have 1: "close_pending h1 = close_pending h"
      by (auto simp: Let_def split: if_splits dest!: close_pending_move)
    define h2 where "h2 = send_packet rcvr pkt1 buf1 h1"
    have 2: "close_pending h2 = close_pending h" using 1 by (cases rcvr) (simp_all add: h2_def)
    have "in_buffer (sockopts h1) pkt1 buf1 \<Longrightarrow> n \<noteq> 0 \<Longrightarrow>
        close_pending (snd (deliver_loop D n rcvr (drv_peekq D (ioq h2)) [] pkt1 q1 h2)) = close_pending h"
      using "2.IH" [OF False st [symmetric] refl refl] 2 h2_def by simp
    moreover have "deliver_loop D (Suc n) rcvr vec buf pkt q h =
        (if \<not> in_buffer (sockopts h1) pkt1 buf1 then (q1, fault OutOfBounds h1)
         else (if n \<noteq> 0 then deliver_loop D n rcvr (drv_peekq D (ioq h2)) [] pkt1 q1 h2 else (q1, h2)))"
      using False by (simp only: deliver_loop.simps if_False st [unfolded Let_def] prod.case Let_def h2_def)
    ultimately show ?thesis using 1 2 by (simp del: deliver_loop.simps)
  qed simp
qed simp

lemma close_pending_finish: "close_pending (snd (snd (finish_emit (deliver_loop D n rcvr vec buf pkt q h)))) = close_pending h"
  using close_pending_deliver_loop [of D n rcvr vec buf pkt q h]
  by (auto simp: finish_emit_def split: prod.splits)

lemma close_pending_emit_data: "close_pending (snd (snd (emit_data D len rcvr h))) = close_pending h"
proof -
  have "close_pending (snd (snd (emit_prefixed D rcvr pkt q h))) = close_pending h" for pkt q
    by (auto simp: emit_prefixed_def Let_def close_pending_finish simp del: deliver_loop.simps One_nat_def
        split: option.splits prod.splits dest!: close_pending_move)
  moreover have "close_pending (snd (snd (emit_passive D len rcvr q h))) = close_pending h" for q
    by (auto simp: emit_passive_def Let_def close_pending_finish simp del: deliver_loop.simps One_nat_def
        split: option.splits prod.splits dest!: close_pending_move)
  moreover have "close_pending (snd (snd (emit_pieces D rcvr q h))) = close_pending h" for q
    by (simp add: emit_pieces_def close_pending_finish)
  ultimately show ?thesis by (auto simp: emit_data_def Let_def split: option.splits)
qed

lemma close_kept_read:
  assumes laws: "ioq_laws (api P)" and ans: "kept_answers sv c b ans"
  shows "close_kept sv c b h (do_read P ans bytes (emit (DataIn bytes) h))"
proof (cases "close_alone sv c b h \<and> bytes \<noteq> []")
  case True
  define h1 where "h1 = (emit (DataIn bytes) h)\<lparr>ioq := drv_enq (api P) (ioq h) bytes,
      read_count := read_count h @ [length bytes]\<rparr>"
  have 1: "close_kept sv c b h h1" by (simp add: h1_def close_kept_emit)
  then have a: "close_alone sv c b h1" using True by (simp add: close_kept_def)
  have "drv_sizeq (api P) (ioq h1) \<noteq> 0" using True by (simp add: h1_def ioq_simps [OF laws])
  then have em: "emit_read_buffer (api P) 0 ToConnected 1 h1 = emit_data (api P) 0 ToConnected h1"
    by (simp add: emit_read_buffer_def emit_closed_message_def)
  define g where "g = snd (snd (emit_data (api P) 0 ToConnected h1))"
  have "close_pending g = close_pending h1" by (simp add: g_def close_pending_emit_data)
  moreover have "delivers h1 g"
    using delivers_emit_read_buffer [of h1 "api P" 0 ToConnected 1] by (simp add: g_def em del: One_nat_def)
  ultimately have "close_kept sv c b h1 g"
    by (auto simp: close_kept_def close_alone_def close_waits_def delivers_def neutral_def)
  then have g: "close_kept sv c b h g" using close_kept_trans [OF 1] by blast
  obtain q h2 where r: "read_deliver P bytes (emit (DataIn bytes) h) = (q, h2)" by fastforce
  moreover have "read_deliver P bytes (emit (DataIn bytes) h) =
      (if active (sockopts h1) = ACTIVE_FALSE then (1, h1) else snd (emit_data (api P) 0 ToConnected h1))"
    using a unfolding em [symmetric]
    by (simp add: read_deliver_def Let_def h1_def [symmetric] close_alone_def del: One_nat_def split: prod.splits)
  ultimately have 2: "close_kept sv c b h h2" using 1 g by (auto simp: g_def split: if_splits)
  obtain r2 ans2 h3 where u: "call_utp UTP_RBDrained ans h2 = (r2, ans2, h3)" by (metis prod_cases3)
  then show ?thesis
    using True r 2 close_kept_trans [OF 2 conjunct1 [OF close_kept_call_utp [OF ans u]]] by (simp add: do_read_def)
next
  case False
  then show ?thesis by (cases "bytes = []") (simp_all add: do_read_def close_kept_emit, simp add: close_kept_def)
qed

lemma close_kept_callback:
  assumes "ioq_laws (api P)" "kept_answers sv c b ans" "settled_cb sv cb"
  shows "close_kept sv c b h (do_callback P ans cb h)"
proof (cases "close_alone sv c b h")
  case True
  have s: "close_kept sv c b h (on_eof ans (h\<lparr>state := s\<rparr>))" "close_kept sv c b h (on_writable ans (h\<lparr>state := s\<rparr>))" for s
    using close_kept_trans [OF _ close_kept_eof [OF assms(2)], of h "h\<lparr>state := s\<rparr>"]
      close_kept_trans [OF _ close_kept_writable [OF assms(2)], of h "h\<lparr>state := s\<rparr>"] by simp_all
  show ?thesis
    using True assms(3) s close_kept_error close_kept_send_to close_kept_read [OF assms(1,2)] close_kept_write
    by (cases cb) (auto simp: do_callback_def do_state_change_def Let_def do_overhead_def do_incoming_def
        Client_do_incoming_def close_alone_def)
qed (simp add: close_kept_def)

lemma close_kept_run_aux:
  "ioq_laws (api P) \<Longrightarrow> settled_run sv r \<Longrightarrow> close_kept sv c b h (snd (run_utp P r h))"
  "ioq_laws (api P) \<Longrightarrow> settled sv cbs \<Longrightarrow> close_kept sv c b h (run_cbs P cbs h)"
proof (induction P r h and P cbs h rule: run_utp_run_cbs.induct)
  case (3 P cb rs cbs h)
  have ok: "kept_answers sv c b (map (run_utp P) rs)"
    using 3(1,3,4) by (auto simp: kept_answers_def list_all_iff)
  show ?case
    using close_kept_trans [OF close_kept_callback [where cb = cb and h = h, OF _ ok]] 3 by auto
qed simp_all

lemmas close_kept_run = close_kept_run_aux(2)

lemma run_cbs_append: "run_cbs P (xs @ ys) h = run_cbs P ys (run_cbs P xs h)"
  by (induction xs arbitrary: h) auto

lemma close_replies_binaries: "only_binaries w w' \<Longrightarrow> close_replies (log w') = close_replies (log w)"
proof -
  have none: "close_replies as = []"
    if "\<forall>a \<in> set as. \<exists>i. a = AllocBinary i \<or> a = IncRefc i \<or> a = FreeBinary i" for as
    using that by (induction as) auto
  show "only_binaries w w' \<Longrightarrow> close_replies (log w') = close_replies (log w)"
    unfolding only_binaries_def using none by fastforce
qed

lemma close_replies_stop_input [simp]: "close_replies (log (stop_input fd w)) = close_replies (log w)"
  by (simp add: stop_input_def deselect_def Let_def split: option.splits)

lemma close_destroying:
  assumes "close_waits c b h" "h' = do_callback P ans (CbState UTP_STATE_DESTROYING) h"
  shows "close_replies (hlog h') = close_replies (hlog h) @ [(c, Some (orig_bytes b))]"
    and "status h' = destroying" "\<not> close_pending h'" "\<not> deleted h'" "\<not> selected h'"
    and "do_callback P ans' (CbState UTP_STATE_DESTROYING) h' = h'"
proof -
  let ?t = "SendTerm (port h) c [T_EXT2TERM (Some (orig_bytes b)), T_ATOM ''ok'', T_TUPLE 2]"
  let ?h = "h\<lparr>state := UTP_STATE_DESTROYING\<rparr>"
  define h1 where "h1 = (if selected ?h then (on_env (stop_input (udp_sock ?h)) ?h)\<lparr>selected := False\<rparr> else ?h)"
  have 1: "status h1 = closing" "close_pending h1" "caller_ref h1 = Some b" "caller h1 = c" "port h1 = port h"
    "\<not> deleted h1" "\<not> selected h1" "state h1 = UTP_STATE_DESTROYING"
    "close_replies (hlog h1) = close_replies (hlog h)"
    using assms(1) by (simp_all add: h1_def close_waits_def)
  have "on_destroying P ?h = (emit ?t h1)\<lparr>caller := NilTerm, close_pending := False,
      writable := False, status := destroying, eof_seen := False\<rparr>"
    using 1 assms(1) unfolding on_destroying_def Let_def h1_def [symmetric]
    by (simp add: binary_bool_def ref_ok_term_def binary_term_data_def close_waits_def)
  then have h': "h' = (emit ?t h1)\<lparr>caller := NilTerm, close_pending := False,
      writable := False, status := destroying, eof_seen := False\<rparr>"
    using assms by (simp add: do_callback_def do_state_change_def utp_state_defs close_waits_def)
  show "close_replies (hlog h') = close_replies (hlog h) @ [(c, Some (orig_bytes b))]"
    "status h' = destroying" "\<not> close_pending h'" "\<not> deleted h'" "\<not> selected h'"
    using 1 by (simp_all add: h')
  then show "do_callback P ans' (CbState UTP_STATE_DESTROYING) h' = h'"
    using 1(8) by (simp add: do_callback_def do_state_change_def utp_state_defs on_destroying_def h')
qed


section \<open>A close is answered once\<close>

lemma binaries_kept: "only_binaries (henv h) w \<Longrightarrow> close_kept sv c b h (h\<lparr>henv := w\<rparr>)"
  using close_replies_binaries [of "henv h" w] by (auto simp: close_kept_def close_alone_def close_waits_def)

text \<open>A valid close, up to the call of \<open>close_utp\<close>, and the reply.\<close>

lemma close_starts:
  assumes "\<not> close_pending h" "eof_seen h \<or> status h \<noteq> closing \<and> status h \<noteq> destroying"
    and "\<not> sender_waiting h" "\<not> receiver_waiting h" "\<not> deleted h"
    and "parse_caller_ref P buf
      ((emit (Lock UtpMutex) h)\<lparr>status := closing, close_pending := True, eof_seen := False\<rparr>) = (ParseOk, h0)"
    and "caller_ref h0 = Some b"
  shows "\<exists>g. close_alone (server h) (hcaller h) b g \<and> close_replies (hlog g) = close_replies (hlog h) \<and>
    utp g = utp h \<and> write_q g = write_q h \<and>
    (\<forall>ans. let x = emit (Unlock UtpMutex) (snd (close_utp ans g))
      in \<exists>w. only_binaries (henv x) w \<and>
           close P ans buf rlen h = (fst (encode_plain P rlen [enc_atom (ei P) ''wait''] (henv x)), x\<lparr>henv := w\<rparr>))"
proof -
  define g where "g = (emit (Lock UtpMutex) h)\<lparr>status := closing, close_pending := True, eof_seen := False\<rparr>"
  obtain b' w where h0: "h0 = g\<lparr>caller_ref := b', henv := w\<rparr>" "only_binaries (henv g) w"
    using assms(6) only_binaries_parse [of "henv g" "api P" "ei P" _ "caller_ref g"] unfolding g_def [symmetric]
    by (auto simp: parse_caller_ref_def parse_binary_def split: prod.splits) (metis snd_conv)
  let ?h0 = "h0\<lparr>caller := hcaller h0\<rparr>"
  have "hcaller h0 = hcaller h" using h0 by (simp add: g_def only_binaries_def)
  then have "close_alone (server h) (hcaller h) b ?h0"
    using assms(3,4,5,7) h0 by (simp add: close_alone_def close_waits_def g_def)
  moreover have "close_replies (hlog ?h0) = close_replies (hlog h)" "utp ?h0 = utp h" "write_q ?h0 = write_q h"
    using close_replies_binaries [OF h0(2)] h0 by (simp_all add: g_def)
  moreover have "\<exists>w. only_binaries (henv x) w \<and>
      close P ans buf rlen h = (fst (encode_plain P rlen [enc_atom (ei P) ''wait''] (henv x)), x\<lparr>henv := w\<rparr>)"
    if "x = emit (Unlock UtpMutex) (snd (close_utp ans ?h0))" for ans x
    using assms(1,2,6) encode_plain_env [of "henv x" P rlen "[enc_atom (ei P) ''wait'']"]
    by (intro exI [of _ "snd (encode_plain P rlen [enc_atom (ei P) ''wait''] (henv x))"])
      (auto simp: close_def with_env_def Let_def that split: prod.splits)
  ultimately show ?thesis unfolding Let_def by blast
qed

text \<open>C6: a close is answered exactly once. The process is answered \<open>wait\<close>. When no \<open>send\<close> and no
  \<open>recv\<close> waits at that time, then whatever libutp calls for the socket during \<open>UTP_Close\<close> and later
  (delivering data, writing out the queue, sending packets, reporting errors, at any depth of
  nesting, short of reporting that the socket connects or that another one comes in for the
  server), the closing process gets no answer before libutp destroys the socket; then it gets
  \<open>{Ref, ok}\<close>, and a second notification adds nothing. The same holds when libutp destroys the socket
  within \<open>UTP_Close\<close>.\<close>

theorem close_answered_once:
  "ioq_laws (api P) \<Longrightarrow> \<not> close_pending h \<Longrightarrow> eof_seen h \<or> status h \<noteq> closing \<and> status h \<noteq> destroying \<Longrightarrow>
   \<not> sender_waiting h \<Longrightarrow> \<not> receiver_waiting h \<Longrightarrow> \<not> deleted h \<Longrightarrow>
   settled (server h) cbs \<Longrightarrow> settled (server h) cbs' \<Longrightarrow>
   parse_caller_ref P buf
     ((emit (Lock UtpMutex) h)\<lparr>status := closing, close_pending := True, eof_seen := False\<rparr>) = (ParseOk, h0) \<Longrightarrow>
   caller_ref h0 = Some b \<Longrightarrow>
   close P [run_utp P (UtpRun n cbs)] buf rlen h = (r, h1) \<Longrightarrow>
   (\<exists>w. r = fst (encode_plain P rlen [enc_atom (ei P) ''wait''] w)) \<and>
   close_replies (hlog (run_cbs P cbs' h1)) = close_replies (hlog h) \<and>
   (\<exists>h2. run_cbs P (cbs' @ [(CbState UTP_STATE_DESTROYING, rs)]) h1 = h2 \<and>
      close_replies (hlog h2) = close_replies (hlog h) @ [(hcaller h, Some (orig_bytes b))] \<and>
      status h2 = destroying \<and> \<not> close_pending h2 \<and>
      run_cbs P [(CbState UTP_STATE_DESTROYING, rs')] h2 = h2) \<and>
   (utp h \<noteq> None \<and> wsz (write_q h) = 0 \<longrightarrow>
      (\<exists>h2. snd (close P [run_utp P (UtpRun n (cbs @ [(CbState UTP_STATE_DESTROYING, rs)]))] buf rlen h) = h2 \<and>
         close_replies (hlog h2) = close_replies (hlog h) @ [(hcaller h, Some (orig_bytes b))] \<and>
         status h2 = destroying \<and> \<not> close_pending h2))"
proof -
  assume laws: "ioq_laws (api P)" and a: "\<not> close_pending h" "eof_seen h \<or> status h \<noteq> closing \<and> status h \<noteq> destroying"
    "\<not> sender_waiting h" "\<not> receiver_waiting h" "\<not> deleted h"
    and s: "settled (server h) cbs" "settled (server h) cbs'"
    and p: "parse_caller_ref P buf
      ((emit (Lock UtpMutex) h)\<lparr>status := closing, close_pending := True, eof_seen := False\<rparr>) = (ParseOk, h0)"
      "caller_ref h0 = Some b" and c: "close P [run_utp P (UtpRun n cbs)] buf rlen h = (r, h1)"
  let ?sv = "server h" and ?c = "hcaller h" and ?run = "\<lambda>cbs. [run_utp P (UtpRun n cbs)]"
  obtain g where g: "close_alone ?sv ?c b g" "close_replies (hlog g) = close_replies (hlog h)"
      "utp g = utp h" "write_q g = write_q h"
    and ends: "\<And>ans. \<exists>w. only_binaries (henv (emit (Unlock UtpMutex) (snd (close_utp ans g)))) w \<and>
      close P ans buf rlen h =
        (fst (encode_plain P rlen [enc_atom (ei P) ''wait''] (henv (emit (Unlock UtpMutex) (snd (close_utp ans g))))),
         (emit (Unlock UtpMutex) (snd (close_utp ans g)))\<lparr>henv := w\<rparr>)"
    using close_starts [OF a p] unfolding Let_def by blast
  have "kept_answers ?sv ?c b (?run cbs)"
    using close_kept_run [OF laws s(1)] by (simp add: kept_answers_def)
  then have k: "close_kept ?sv ?c b g (emit (Unlock UtpMutex) (snd (close_utp (?run cbs) g)))"
    by (rule close_kept_trans [OF close_kept_close_utp close_kept_emit]) simp
  obtain w where h1: "only_binaries (henv (emit (Unlock UtpMutex) (snd (close_utp (?run cbs) g)))) w"
    "h1 = (emit (Unlock UtpMutex) (snd (close_utp (?run cbs) g)))\<lparr>henv := w\<rparr>"
    and r: "\<exists>w. r = fst (encode_plain P rlen [enc_atom (ei P) ''wait''] w)"
    using ends [of "?run cbs"] c by auto
  have k1: "close_kept ?sv ?c b g (run_cbs P cbs' h1)"
    unfolding h1(2) by (intro close_kept_trans [OF close_kept_trans [OF k binaries_kept [OF h1(1)]] close_kept_run [OF laws s(2)]])
  then have 1: "close_waits ?c b (run_cbs P cbs' h1)" "close_replies (hlog (run_cbs P cbs' h1)) = close_replies (hlog h)"
    using g(1,2) by (simp_all add: close_kept_def close_alone_def)
  note 2 = close_destroying(1-3) [OF 1(1) refl, of P "map (run_utp P) rs"]
    close_destroying(6) [OF 1(1) refl, of P "map (run_utp P) rs'" "map (run_utp P) rs"]
  have 3: "\<exists>h2. snd (close P (?run (cbs @ [(CbState UTP_STATE_DESTROYING, rs)])) buf rlen h) = h2 \<and>
      close_replies (hlog h2) = close_replies (hlog h) @ [(?c, Some (orig_bytes b))] \<and>
      status h2 = destroying \<and> \<not> close_pending h2" if u: "utp h \<noteq> None" "wsz (write_q h) = 0"
  proof -
    obtain u where uu: "utp h = Some u" using u(1) by blast
    have st: "g\<lparr>status := closing\<rparr> = g" "status g = closing" using g(1) by (simp_all add: close_alone_def close_waits_def)
    define x where "x = run_cbs P cbs (emit (UtpCall (UTP_Close u)) g)"
    have "close_kept ?sv ?c b g x"
      unfolding x_def by (rule close_kept_trans [OF close_kept_emit close_kept_run [OF laws s(1)]]) simp
    then have x: "close_waits ?c b x" "close_replies (hlog x) = close_replies (hlog h)"
      using g(1,2) by (simp_all add: close_kept_def close_alone_def)
    define y where "y = do_callback P (map (run_utp P) rs) (CbState UTP_STATE_DESTROYING) x"
    note d = close_destroying(1-4) [OF x(1) y_def]
    have "call_utp UTP_Close (?run (cbs @ [(CbState UTP_STATE_DESTROYING, rs)])) g = (n, [], y)"
      using uu g(3) by (simp add: call_utp_def take_answer_def run_cbs_append x_def [symmetric] y_def)
    then have "close_utp (?run (cbs @ [(CbState UTP_STATE_DESTROYING, rs)])) g = ([], y\<lparr>utp := None\<rparr>)"
      using u g(3,4) d(4) unfolding close_utp_def st(1) by (simp add: st(2) touch_def)
    then obtain w where w: "only_binaries (henv (emit (Unlock UtpMutex) (y\<lparr>utp := None\<rparr>))) w"
      "snd (close P (?run (cbs @ [(CbState UTP_STATE_DESTROYING, rs)])) buf rlen h) =
         (emit (Unlock UtpMutex) (y\<lparr>utp := None\<rparr>))\<lparr>henv := w\<rparr>"
      using ends [of "?run (cbs @ [(CbState UTP_STATE_DESTROYING, rs)])"] by auto
    then show ?thesis using d x(2) close_replies_binaries [OF w(1)] by simp
  qed
  show ?thesis using r 1 2 3 by (simp add: run_cbs_append)
qed

section \<open>A close with a bad argument\<close>

text \<open>Later attempts to use the connection: to close it, or to write.\<close>

datatype 'q use = UseClose "'q answers" "byte list" nat | UseWrite "'q answers" iovec

fun use_closed :: "'q platform \<Rightarrow> 'q use \<Rightarrow> 'q utp_handler \<Rightarrow> 'q utp_handler" where
  "use_closed P (UseClose ans buf rlen) h = snd (close P ans buf rlen h)"
| "use_closed P (UseWrite ans ev) h = outputv P ans ev h"

text \<open>What is true from then on.\<close>

definition stuck :: "'q utp_handler \<Rightarrow> 'q utp_handler \<Rightarrow> bool" where
  "stuck h g \<longleftrightarrow> status g = closing \<and> close_pending g \<and> \<not> eof_seen g \<and> utp g = utp h \<and> write_q g = write_q h \<and>
     (\<exists>as. hlog g = hlog h @ as \<and> unclosed as)"

lemma unclosed_binaries:
  assumes "only_binaries w w'"
  shows "\<exists>as. log w' = log w @ as \<and> unclosed as"
proof -
  obtain as where "log w' = log w @ as" "\<forall>a \<in> set as. \<exists>i. a = AllocBinary i \<or> a = IncRefc i \<or> a = FreeBinary i"
    using assms unfolding only_binaries_def by blast
  then show ?thesis by (auto simp: unclosed_iff)
qed

lemma stuck_close: "stuck h g \<Longrightarrow> close P ans buf rlen g = with_env (encode_plain P rlen [enc_atom (ei P) ''ok'']) g"
  by (simp add: stuck_def close_def)

lemma stuck_write: "stuck h g \<Longrightarrow> outputv P ans ev g = on_env (send_not_connected P (port g)) g"
  by (simp add: stuck_def outputv_def)

lemma stuck_binaries: "stuck h g \<Longrightarrow> only_binaries (henv g) w \<Longrightarrow> stuck h (g\<lparr>henv := w\<rparr>)"
  using unclosed_binaries [of "henv g" w] by (fastforce simp: stuck_def)

lemma stuck_use: "stuck h g \<Longrightarrow> stuck h (use_closed P u g)"
proof (cases u)
  case (UseClose ans buf rlen)
  assume "stuck h g"
  then show ?thesis
    unfolding UseClose using stuck_binaries [OF _ encode_plain_env]
    by (simp add: stuck_close snd_with_env)
next
  case (UseWrite ans ev)
  assume "stuck h g"
  then show ?thesis
    unfolding UseWrite by (auto simp: stuck_write) (auto simp: stuck_def on_env_def send_not_connected_def env_log_def)
qed

lemma stuck_uses: "stuck h g \<Longrightarrow> stuck h (fold (use_closed P) us g)"
  by (induction us arbitrary: g) (simp_all add: stuck_use)

text \<open>C36: a close with a bad argument answers \<open>badarg\<close>, but has already marked the handler as
  closing. From then on, however often the process tries to close or to write: every close answers
  \<open>ok\<close>, every write is answered with an error, and libutp is not asked to close the socket. But when
  libutp next reports that the socket is writable and nothing is left to write, the driver closes
  the socket after all, although the process was told that its close was refused.\<close>

theorem bad_close_blocks_closing:
  "\<not> close_pending h \<Longrightarrow> eof_seen h \<or> status h \<noteq> closing \<and> status h \<noteq> destroying \<Longrightarrow>
   parse_caller_ref P buf
     ((emit (Lock UtpMutex) h)\<lparr>status := closing, close_pending := True, eof_seen := False\<rparr>) = (ParseBadArg, h0) \<Longrightarrow>
   close P ans buf rlen h = (r, h1) \<Longrightarrow> g = fold (use_closed P) us h1 \<Longrightarrow>
   r = Ret CtlBadArg \<and> status g = closing \<and> utp g = utp h \<and>
   unclosed (drop (length (hlog h)) (hlog g)) \<and>
   close P ans' buf' rlen' g = with_env (encode_plain P rlen' [enc_atom (ei P) ''ok'']) g \<and>
   outputv P ans' ev g = on_env (send_not_connected P (port g)) g \<and>
   (\<forall>u. utp h = Some u \<and> wsz (write_q h) = 0 \<longrightarrow>
      UtpCall (UTP_Close u) \<in> set (drop (length (hlog g)) (hlog (do_state_change P [] UTP_STATE_WRITABLE g))))"
proof -
  assume a: "\<not> close_pending h" "eof_seen h \<or> status h \<noteq> closing \<and> status h \<noteq> destroying"
    and p: "parse_caller_ref P buf
      ((emit (Lock UtpMutex) h)\<lparr>status := closing, close_pending := True, eof_seen := False\<rparr>) = (ParseBadArg, h0)"
    and c: "close P ans buf rlen h = (r, h1)" and g: "g = fold (use_closed P) us h1"
  let ?x = "(emit (Lock UtpMutex) h)\<lparr>status := closing, close_pending := True, eof_seen := False\<rparr>"
  have h1: "r = Ret CtlBadArg" "h1 = emit (Unlock UtpMutex) h0" using a p c by (auto simp: close_def)
  obtain b w where h0: "h0 = ?x\<lparr>caller_ref := b, henv := w\<rparr>" "only_binaries (henv ?x) w"
    using p only_binaries_parse [of "henv ?x" "api P" "ei P" _ "caller_ref ?x"]
    by (auto simp: parse_caller_ref_def parse_binary_def split: prod.splits) (metis snd_conv)
  obtain as where "log w = log (henv ?x) @ as" "unclosed as" using unclosed_binaries [OF h0(2)] by blast
  then have "stuck h h1" unfolding h1(2) h0(1) by (simp add: stuck_def)
  then have s: "stuck h g" unfolding g by (rule stuck_uses)
  have "UtpCall (UTP_Close u) \<in> set (drop (length (hlog g)) (hlog (do_state_change P [] UTP_STATE_WRITABLE g)))"
    if "utp h = Some u" "wsz (write_q h) = 0" for u
    using s that
    by (auto simp: stuck_def do_state_change_def utp_state_defs on_writable_def Let_def close_utp_def call_utp_def
        take_answer_def touch_def)
  then show ?thesis using s h1(1) stuck_close [OF s] stuck_write [OF s] by (auto simp: stuck_def)
qed

section \<open>A close whose answer is taken away\<close>

lemma parse_recv_env:
  "parse_recv P buf h = (r, n, b, h') \<Longrightarrow> only_binaries (henv h) (henv h') \<and> h' = h\<lparr>henv := henv h'\<rparr>"
  using only_binaries_parse [of "henv h" "api P" "ei P" _ binary_new]
  by (auto simp: parse_recv_def split: cpp.splits prod.splits if_splits) (metis snd_conv)

text \<open>C38: a \<open>recv\<close> can take the answer away from a process whose \<open>close\<close> is under way. It overwrites the
  caller and the reference, and finding the queue empty it sends \<open>utp_closed\<close> and forgets that a
  close is pending; when libutp destroys the socket the closer is not told.\<close>

theorem recv_steals_close:
  "close_waits c b h \<Longrightarrow> active (sockopts h) = ACTIVE_FALSE \<Longrightarrow> drv_sizeq (api P) (ioq h) = 0 \<Longrightarrow>
   parse_recv P buf h = (ParseOk, len, Some x, h0) \<Longrightarrow> recv P [] buf rlen h = (r, h1) \<Longrightarrow>
   caller h1 = hcaller h0 \<and> caller_ref h1 = Some x \<and> \<not> close_pending h1 \<and>
   close_replies (hlog (do_callback P [] (CbState UTP_STATE_DESTROYING) h1)) = close_replies (hlog h)"
proof -
  assume a: "close_waits c b h" "active (sockopts h) = ACTIVE_FALSE" "drv_sizeq (api P) (ioq h) = 0"
    and p: "parse_recv P buf h = (ParseOk, len, Some x, h0)" and rc: "recv P [] buf rlen h = (r, h1)"
  obtain w0 where h0: "only_binaries (henv h) w0" "h0 = h\<lparr>henv := w0\<rparr>"
    using parse_recv_env [OF p] by blast
  define g where "g = h\<lparr>henv := inc_refc x w0\<rparr>"
  have cg: "caller_ref g = Some b" using a(1) by (simp add: g_def close_waits_def)
  define g2 where "g2 = emit (Unlock UtpMutex) ((emit (Lock UtpMutex)
    (emit (OutputTerm (port h) (closed_term (port h))) g\<lparr>close_pending := False\<rparr>))
    \<lparr>caller_ref := Some x, caller := hcaller h0, recv_len := len, receiver_waiting := True\<rparr>)"
  obtain w' where e: "with_env (encode_plain P rlen [enc_atom (ei P) ''wait'']) g2 = (r, g2\<lparr>henv := w'\<rparr>)"
    and h1: "h1 = drop_binary (Some b) (drop_binary (Some x) (g2\<lparr>henv := w'\<rparr>))"
    and w': "only_binaries (henv g2) w'"
  proof -
    obtain r' w' where e: "encode_plain P rlen [enc_atom (ei P) ''wait''] (henv g2) = (r', w')" by fastforce
    have em: "emit_read_buffer (api P) len rcvr 1 g =
        (False, 1, emit (OutputTerm (port h) (closed_term (port h))) g\<lparr>close_pending := False\<rparr>)" for rcvr
      using a h0(2) g_def by (simp add: emit_read_buffer_def emit_closed_message_def close_waits_def)
    have "recv P [] buf rlen h = (r', drop_binary (Some b) (drop_binary (Some x) (g2\<lparr>henv := w'\<rparr>)))"
      using a(2) em e p h0(2) a(1) cg
      by (simp add: recv_def with_env_def binary_copy_def g_def [symmetric] binary_swap_def g2_def Let_def
        close_waits_def)
    moreover have "only_binaries (henv g2) w'" by (metis e encode_plain_env snd_conv)
    ultimately show ?thesis using rc e that [of w'] by (simp add: with_env_def)
  qed
  have h1': "status h1 = closing" "\<not> close_pending h1" "active (sockopts h1) = ACTIVE_FALSE" "\<not> deleted h1"
    "caller h1 = hcaller h0" "caller_ref h1 = Some x"
    using a(1,2) h0(2) by (simp_all add: h1 drop_binary_def g2_def g_def close_waits_def)
  moreover have "close_replies (hlog h1) = close_replies (hlog h)"
    using close_replies_binaries [OF h0(1)] close_replies_binaries [OF w']
    by (simp add: h1 drop_binary_def g2_def g_def binary_destroy_def
        close_replies_binaries [OF only_binaries_reset])
  ultimately show ?thesis
    by (simp add: do_callback_def do_state_change_def utp_state_defs on_destroying_def Let_def)
qed

section \<open>Samples\<close>

theorem close_answered_once_witness:
  "\<exists>h1 h2. snd (close sample_platform [run_utp sample_platform (UtpRun 0 [(CbSendTo 3 [(3, 0)], [])])]
       (binary_term [9]) 100 busy_conn) = h1 \<and>
     run_cbs sample_platform [(CbRead [1, 2], []), (CbState UTP_STATE_DESTROYING, [])] h1 = h2 \<and>
     close_replies (hlog (run_cbs sample_platform [(CbRead [1, 2], [])] h1)) = [] \<and>
     close_replies (hlog h2) = [(Proc 1, Some [9])]"
proof -
  let ?g = "(emit (Lock UtpMutex) busy_conn)\<lparr>status := closing, close_pending := True, eof_seen := False\<rparr>"
  obtain h0 b where p: "parse_caller_ref sample_platform (binary_term [9]) ?g = (ParseOk, h0)"
    "caller_ref h0 = Some b" "orig_bytes b = [9]"
    using sample_parse_arg [of "[9]" ?g] unfolding parse_arg_def parse_caller_ref_def
    by (simp add: binary_new_def split: prod.splits)
  obtain r h1 where c: "close sample_platform [run_utp sample_platform (UtpRun 0 [(CbSendTo 3 [(3, 0)], [])])]
      (binary_term [9]) 100 busy_conn = (r, h1)"
    by fastforce
  have "ioq_laws (api sample_platform)" "\<not> receiver_waiting busy_conn"
    by (simp_all add: busy_conn_def Client_new_def UtpHandler_new_def)
  then show ?thesis
    using close_answered_once [of sample_platform busy_conn "[(CbSendTo 3 [(3, 0)], [])]" "[(CbRead [1, 2], [])]"
        "binary_term [9]" h0 b 0 100 r h1 "[]"] p c
    by auto
qed

theorem bad_close_blocks_closing_witness:
  "\<exists>h1. close sample_platform [] [131, 97, 5] 100 busy_conn = (Ret CtlBadArg, h1) \<and>
     status (snd (close sample_platform [] (binary_term [9]) 100 h1)) = closing \<and>
     unclosed (drop (length (hlog busy_conn)) (hlog (snd (close sample_platform [] (binary_term [9]) 100 h1))))"
proof -
  let ?g = "(emit (Lock UtpMutex) busy_conn)\<lparr>status := closing, close_pending := True, eof_seen := False\<rparr>"
  have "dec_type sample_ei \<lparr>dbuf = [131, 97, 5], dlen = 3, dindex = Suc 0\<rparr> =
      Ret ((97, 0), \<lparr>dbuf = [131, 97, 5], dlen = 3, dindex = Suc 0\<rparr>)"
    by (simp add: sample_ei_def dec_checked_def dec_type_def)
  then have "fst (parse_caller_ref sample_platform [131, 97, 5] ?g) = ParseBadArg"
    by (simp add: parse_caller_ref_def parse_binary_def parse_binary_at_def sample_decoder
      ERL_BINARY_EXT_def numeral_3_eq_3)
  then obtain h0 where p: "parse_caller_ref sample_platform [131, 97, 5] ?g = (ParseBadArg, h0)"
    by (cases "parse_caller_ref sample_platform [131, 97, 5] ?g") simp
  obtain r h1 where c: "close sample_platform [] [131, 97, 5] 100 busy_conn = (r, h1)" by fastforce
  show ?thesis
    using bad_close_blocks_closing [OF _ _ p c refl, of "[UseClose [] (binary_term [9]) 100]"] c by simp
qed

definition closing_conn :: "byte list list utp_handler" where
  "closing_conn = busy_conn\<lparr>status := closing, close_pending := True, caller_ref := Some \<lparr>bin_id = 7, orig_bytes = [8]\<rparr>,
     caller := Proc 3\<rparr>"

theorem recv_steals_close_witness:
  "\<exists>h1. snd (recv sample_platform [] [131, 104, 2, 97, 0, 109, 0, 0, 0, 1, 9] 100 closing_conn) = h1 \<and>
     caller h1 = Proc 1 \<and> \<not> close_pending h1 \<and>
     close_replies (hlog (do_callback sample_platform [] (CbState UTP_STATE_DESTROYING) h1)) = []"
proof -
  let ?buf = "[131, 104, 2, 97, 0, 109, 0, 0, 0, 1, 9] :: byte list"
  obtain x h0 where p: "parse_recv sample_platform ?buf closing_conn = (ParseOk, 0, Some x, h0)" "hcaller h0 = Proc 1"
    using sample_parse_recv [of closing_conn] by (simp add: closing_conn_def)
  obtain r h1 where c: "recv sample_platform [] ?buf 100 closing_conn = (r, h1)" by fastforce
  have "close_waits (Proc 3) \<lparr>bin_id = 7, orig_bytes = [8]\<rparr> closing_conn"
    by (simp add: close_waits_def closing_conn_def)
  moreover have "active (sockopts closing_conn) = ACTIVE_FALSE" "drv_sizeq (api sample_platform) (ioq closing_conn) = 0"
    "hlog closing_conn = []"
    by (simp_all add: closing_conn_def sample_platform_def chunk_api_def)
  ultimately show ?thesis using recv_steals_close [OF _ _ _ p(1) c] p(2) c by simp
qed

end
