(* ===== verification/Stopping.thy ===== *)
theory Stopping
  imports Closing
begin

text \<open>
  What becomes of a connection whose port is closed: \<open>UtpHandler::stop\<close>, and the callbacks that
  libutp makes afterwards. The relation \<open>rests\<close> says what every callback keeps of a connection that
  is closing or stopped, at any depth of nesting; from it follows when the object is deleted, and
  that it never is when bytes are left to write.
\<close>

section \<open>Runs of libutp on a connection that is closing or stopped\<close>

text \<open>Steps that neither close nor delete nor change the status.\<close>

definition idle :: "'q utp_handler \<Rightarrow> 'q utp_handler \<Rightarrow> bool" where
  "idle h h' \<longleftrightarrow> deleted h' = deleted h \<and> status h' = status h \<and> utp h' = utp h \<and> server h' = server h \<and>
     (\<exists>as. hlog h' = hlog h @ as \<and> unclosed as)"

lemma idle_refl [simp]: "idle h h"
  by (simp add: idle_def)

lemma idle_trans: "idle a b \<Longrightarrow> idle b c \<Longrightarrow> idle a c"
  unfolding idle_def by auto

lemma idle_emit: "(\<And>u. a \<noteq> UtpCall (UTP_Close u)) \<Longrightarrow> idle h (emit a h)"
  by (simp add: idle_def)

lemma idle_fault [simp]: "idle h (fault x h)"
  by (simp add: idle_def)

lemma idle_fields [simp]:
  "idle x (h\<lparr>state := i\<rparr>) = idle x h" "idle x (h\<lparr>error_code := i\<rparr>) = idle x h"
  "idle x (h\<lparr>writable := b\<rparr>) = idle x h" "idle x (h\<lparr>sender_waiting := b\<rparr>) = idle x h"
  "idle x (h\<lparr>receiver_waiting := b\<rparr>) = idle x h" "idle x (h\<lparr>eof_seen := b\<rparr>) = idle x h"
  "idle x (h\<lparr>caller := c\<rparr>) = idle x h" "idle x (h\<lparr>caller_ref := r\<rparr>) = idle x h"
  "idle x (h\<lparr>recv_len := n\<rparr>) = idle x h" "idle x (h\<lparr>ioq := q\<rparr>) = idle x h"
  "idle x (h\<lparr>read_count := rc\<rparr>) = idle x h" "idle x (h\<lparr>write_q := wq\<rparr>) = idle x h"
  by (simp_all add: idle_def)

lemma idle_touch: "idle h (touch h)"
  by (simp add: touch_def)

lemma idle_binaries:
  assumes "only_binaries (henv h) w"
  shows "idle h (h\<lparr>henv := w\<rparr>)"
proof -
  obtain as where "log w = log (henv h) @ as" "\<forall>a \<in> set as. \<exists>i. a = AllocBinary i \<or> a = IncRefc i \<or> a = FreeBinary i"
    using assms unfolding only_binaries_def by blast
  then show ?thesis by (auto simp: idle_def unclosed_iff)
qed

lemma idle_with_env: "(\<And>w. only_binaries w (snd (f w))) \<Longrightarrow> idle h (snd (with_env f h))"
  by (simp add: snd_with_env idle_binaries)

lemma idle_read_buffer: "idle h (snd (snd (emit_read_buffer D len rcvr q h)))"
  using delivers_emit_read_buffer [of h D len rcvr q]
  by (auto simp: delivers_def idle_def neutral_def unclosed_iff)

lemma idle_send_loop: "idle h (snd (send_loop len i os h))"
proof (induction len i os h rule: send_loop.induct)
  case (2 len i count err os h)
  let ?h = "emit (SendTo i (int len - i)) (if i < 0 then fault OutOfBounds h else h)"
  have "idle h ?h" by (rule idle_trans [OF _ idle_emit]) simp_all
  then show ?case using idle_trans [OF _ 2] by (simp add: Let_def)
qed simp

text \<open>
  What every callback keeps of a connection that is closing or stopped: it is not deleted; one that
  is closing stays so; one that is stopped stays so, unless it closes its socket.
\<close>

definition rests :: "bool \<Rightarrow> 'q utp_handler \<Rightarrow> 'q utp_handler \<Rightarrow> bool" where
  "rests sv h h' \<longleftrightarrow> (\<not> deleted h \<and> server h = sv \<and> status h \<in> {closing, stopped} \<longrightarrow>
     \<not> deleted h' \<and> server h' = sv \<and>
     (\<exists>as. hlog h' = hlog h @ as \<and>
        (status h' = closing \<and> (status h = stopped \<longrightarrow> utp h \<noteq> None) \<or>
         status h' = stopped \<and> status h = stopped \<and> utp h' = utp h \<and> unclosed as)))"

lemma rests_trans:
  assumes ab: "rests sv a b" and bc: "rests sv b c"
  shows "rests sv a c"
proof (cases "\<not> deleted a \<and> server a = sv \<and> status a \<in> {closing, stopped}")
  case True
  obtain as where 1: "\<not> deleted b" "server b = sv" "hlog b = hlog a @ as"
    "status b = closing \<and> (status a = stopped \<longrightarrow> utp a \<noteq> None) \<or>
     status b = stopped \<and> status a = stopped \<and> utp b = utp a \<and> unclosed as"
    using ab True unfolding rests_def by blast
  then have "status b \<in> {closing, stopped}" by blast
  then obtain bs where 2: "\<not> deleted c" "server c = sv" "hlog c = hlog b @ bs"
    "status c = closing \<and> (status b = stopped \<longrightarrow> utp b \<noteq> None) \<or>
     status c = stopped \<and> status b = stopped \<and> utp c = utp b \<and> unclosed bs"
    using bc 1(1,2) unfolding rests_def by blast
  have "hlog c = hlog a @ (as @ bs)" using 1(3) 2(3) by simp
  moreover have "status c = closing \<and> (status a = stopped \<longrightarrow> utp a \<noteq> None) \<or>
     status c = stopped \<and> status a = stopped \<and> utp c = utp a \<and> unclosed (as @ bs)"
    using 1(4) 2(4) by (elim disjE conjE; simp)
  ultimately show ?thesis using 2(1,2) unfolding rests_def by blast
qed (auto simp: rests_def)

lemma rests_idle: "idle h h' \<Longrightarrow> rests sv h h'"
  unfolding rests_def idle_def by auto

lemma rests_then_idle: "rests sv a b \<Longrightarrow> idle b c \<Longrightarrow> rests sv a c"
  by (rule rests_trans [OF _ rests_idle])

definition rest_answers :: "bool \<Rightarrow> 'q answers \<Rightarrow> bool" where
  "rest_answers sv ans \<longleftrightarrow> (\<forall>a \<in> set ans. \<forall>h. rests sv h (snd (a h)))"

lemma rests_take_answer:
  "rest_answers sv ans \<Longrightarrow> take_answer ans h = (r, ans', h') \<Longrightarrow> rests sv h h' \<and> rest_answers sv ans'"
  by (cases ans) (auto simp: take_answer_def rest_answers_def rests_idle split: prod.splits, metis snd_conv)

lemma rests_call_utp:
  assumes "rest_answers sv ans" "call_utp c ans h = (r, ans', h')" "\<And>u v. c u \<noteq> UTP_Close v"
  shows "rests sv h h' \<and> rest_answers sv ans'"
proof (cases "utp h")
  case None
  then show ?thesis using assms by (auto simp: call_utp_def rests_idle)
next
  case (Some u)
  have "rests sv h (emit (UtpCall (c u)) h)" by (rule rests_idle [OF idle_emit]) (simp add: assms(3))
  then show ?thesis
    using assms(2) Some rests_take_answer [OF assms(1)] by (auto simp: call_utp_def intro: rests_trans)
qed

text \<open>Closing the socket turns a stopped connection into one that is closing.\<close>

lemma rests_close_utp:
  assumes ans: "rest_answers sv ans" and c: "close_utp ans h = (ans', h')"
  shows "rests sv h h' \<and> rest_answers sv ans'"
proof (cases "utp h \<noteq> None \<and> status h \<noteq> destroying \<and> wsz (write_q h) = 0")
  case False
  then show ?thesis using assms by (auto simp: close_utp_def rests_idle split: if_splits)
next
  case True
  then obtain u where u: "utp h = Some u" by blast
  let ?h = "emit (UtpCall (UTP_Close u)) (h\<lparr>status := closing\<rparr>)"
  obtain r g where t: "take_answer ans ?h = (r, ans', g)" "h' = (touch g)\<lparr>utp := None\<rparr>"
    using True u c by (auto simp: close_utp_def call_utp_def split: prod.splits)
  have "rests sv ?h g" "rest_answers sv ans'" using rests_take_answer [OF ans t(1)] by simp_all
  moreover have "hlog ?h = hlog h @ [UtpCall (UTP_Close u)]" by simp
  ultimately show ?thesis using u unfolding rests_def t(2) touch_def by auto
qed

lemmas rests_close = rests_close_utp [OF _ prod.collapse [symmetric], THEN conjunct1]

section \<open>Each callback\<close>

lemma rests_error:
  assumes "status h \<in> {closing, stopped}"
  shows "idle h (do_error P ans e h)"
  using assms by (auto simp: do_error_def Let_def)

lemma rests_send_to: "rests sv h (do_send_to P ans len os h)"
proof (cases "status h \<in> {closing, stopped}")
  case True
  obtain r h' where e: "send_loop len 0 os h = (r, h')" by fastforce
  then have 1: "idle h h'" using idle_send_loop [of h len 0 os] by simp
  then have "idle h' (do_error P ans x h')" for x
    using True by (intro rests_error) (simp add: idle_def)
  then have "idle h (do_send_to P ans len os h)"
    using e 1 idle_trans [OF 1]
    by (simp add: do_send_to_def Server_do_send_to_def UtpHandler_do_send_to_def split: option.splits)
  then show ?thesis by (rule rests_idle)
qed (simp add: rests_def)

lemma idle_waiting: "idle h (snd (deliver_waiting P h))"
proof -
  obtain ref h1 where c: "with_env (binary_copy (caller_ref h)) h = (ref, h1)" by fastforce
  obtain sent q h2 where e: "emit_read_buffer (api P) (recv_len h1) (ToCaller (caller h1) ref) 1 h1 = (sent, q, h2)"
    by (metis prod_cases3)
  have "only_binaries w (snd (binary_copy (caller_ref h) w))" for w
    by (auto simp: binary_copy_def only_binaries_def inc_refc_def env_log_def split: option.splits)
  then have 1: "idle h h1" using idle_with_env [of "binary_copy (caller_ref h)" h] c by simp
  have 2: "idle h h2" using idle_trans [OF 1] idle_read_buffer [of h1] e by (metis snd_conv)
  have "idle x (on_env (binary_destroy b) x)" for b and x :: "'a utp_handler"
    using idle_binaries [of x] by (simp add: on_env_def binary_destroy_def only_binaries_reset)
  then have 3: "idle x (drop_binary b x)" for b and x :: "'a utp_handler" by (simp add: drop_binary_def)
  have "idle x (x\<lparr>henv := snd (binary_reset None (caller_ref x) (henv x))\<rparr>)" for x :: "'a utp_handler"
    by (rule idle_binaries [OF only_binaries_reset])
  then have 4: "idle x (reset_waiting_recv x)" for x :: "'a utp_handler"
    by (simp add: reset_waiting_recv_def with_env_def split_beta idle_def)
  have "idle h (drop_binary ref (if sent then reset_waiting_recv h2 else h2))"
    using idle_trans [OF 2 idle_trans [OF 4 3]] idle_trans [OF 2 3] by simp
  then show ?thesis by (simp add: deliver_waiting_def c e del: One_nat_def)
qed

lemma rests_read:
  assumes ans: "rest_answers sv ans"
  shows "rests sv h (do_read P ans bytes (emit (DataIn bytes) h))"
proof (cases "bytes = []")
  case True
  then show ?thesis by (simp add: do_read_def rests_idle idle_emit)
next
  case False
  define h1 where "h1 = (emit (DataIn bytes) h)\<lparr>ioq := drv_enq (api P) (ioq h) bytes,
      read_count := read_count h @ [length bytes]\<rparr>"
  have 1: "idle h h1" by (simp add: h1_def idle_emit)
  obtain q h2 where r: "read_deliver P bytes (emit (DataIn bytes) h) = (q, h2)" by fastforce
  moreover have "read_deliver P bytes (emit (DataIn bytes) h) =
      (if active (sockopts h1) = ACTIVE_FALSE then (if receiver_waiting h1 then deliver_waiting P h1 else (1, h1))
       else snd (emit_read_buffer (api P) 0 ToConnected 1 h1))"
    by (simp add: read_deliver_def deliver_waiting_def Let_def h1_def [symmetric] del: One_nat_def
        split: prod.splits)
  ultimately have 2: "idle h h2"
    using idle_trans [OF 1 idle_waiting, of P] idle_trans [OF 1 idle_read_buffer, of "api P" 0 ToConnected 1] 1
    by (auto split: if_splits)
  obtain r2 ans2 h3 where c: "call_utp UTP_RBDrained ans h2 = (r2, ans2, h3)" by (metis prod_cases3)
  then have "rests sv h2 h3" using rests_call_utp [OF ans c] by simp
  then show ?thesis
    using False r c rests_idle [OF 2] rests_trans [OF rests_idle [OF 2]] by (simp add: do_read_def)
qed

lemma idle_write: "idle h (snd (do_write n h))"
proof -
  obtain as where "hlog (snd (do_write n h)) = hlog h @ as" "\<forall>a \<in> set as. \<exists>i. a = FreeBinary i"
    using do_write_frees by blast
  then show ?thesis by (auto simp: idle_def unclosed_iff do_write_def split: cpp.splits)
qed

lemma rests_eof:
  assumes "rest_answers sv ans"
  shows "rests sv h (on_eof ans h)"
proof -
  define h1 where "h1 = h\<lparr>write_q := wq_clear (write_q h)\<rparr>"
  define h2 where "h2 = (if status h1 \<noteq> stopped then snd (close_utp ans h1) else h1)"
  have "rests sv h h1" by (simp add: h1_def rests_idle)
  moreover have "rests sv h1 h2" by (simp add: h2_def rests_close [OF assms] rests_idle)
  moreover have "idle h2 ((touch h2)\<lparr>writable := False, eof_seen := True\<rparr>)" by (simp add: idle_touch)
  ultimately have "rests sv h ((touch h2)\<lparr>writable := False, eof_seen := True\<rparr>)"
    by (blast intro: rests_trans rests_then_idle)
  then show ?thesis by (simp only: on_eof_def Let_def h1_def h2_def)
qed

lemma rests_writable:
  assumes ans: "rest_answers sv ans"
  shows "rests sv h (on_writable ans h)"
proof -
  define h1 where "h1 = h\<lparr>writable := True\<rparr>"
  have 1: "rests sv h h1" by (simp add: h1_def rests_idle)
  obtain ans2 h2 where st: "(if wsz (write_q h1) \<noteq> 0 then
               (case call_utp (\<lambda>u. UTP_Write u (wsz (write_q h1))) ans h1 of
                  (r, ans', h') \<Rightarrow> (ans', (touch h')\<lparr>writable := r \<noteq> 0\<rparr>))
             else (ans, h1)) = (ans2, h2)" by fastforce
  have 2: "rests sv h h2 \<and> rest_answers sv ans2"
  proof (cases "wsz (write_q h1) \<noteq> 0")
    case True
    obtain r ans' h' where c: "call_utp (\<lambda>u. UTP_Write u (wsz (write_q h1))) ans h1 = (r, ans', h')"
      by (metis prod_cases3)
    have "rests sv h h'" "rest_answers sv ans'" using rests_call_utp [OF ans c] rests_trans [OF 1] by auto
    moreover have "idle h' ((touch h')\<lparr>writable := r \<noteq> 0\<rparr>)" by (simp only: idle_fields idle_touch)
    ultimately show ?thesis using True c st rests_then_idle [of sv h h'] by auto
  qed (use st 1 ans in auto)
  define h3 where "h3 = (if writable h2 \<and> sender_waiting h2
      then (emit (SendTerm (port h2) (caller h2) (retry_term (port h2))) h2)\<lparr>sender_waiting := False\<rparr> else h2)"
  have "idle h2 h3" by (simp add: h3_def idle_emit)
  then have 3: "rests sv h h3" using 2 rests_then_idle by blast
  have "on_writable ans h = (if close_pending h3 then snd (close_utp ans2 h3) else h3)"
    by (simp only: on_writable_def Let_def h1_def [symmetric] st prod.case h3_def)
  then show ?thesis using 2 3 rests_trans [OF 3 rests_close] by simp
qed

lemma rests_incoming: "rests False h (do_incoming u h)"
  by (cases "server h") (simp add: rests_def, simp add: do_incoming_def Client_do_incoming_def rests_idle)

lemma rests_callback:
  assumes ans: "rest_answers sv ans" and cb: "settled_cb sv cb"
  shows "rests sv h (do_callback P ans cb h)"
proof (cases "deleted h \<or> status h \<notin> {closing, stopped}")
  case True
  then show ?thesis
  proof (cases "deleted h")
    case False
    then show ?thesis using True by (simp add: rests_def)
  qed (simp add: do_callback_def rests_idle)
next
  case False
  have s: "rests sv h (on_eof ans (h\<lparr>state := s\<rparr>))" "rests sv h (on_writable ans (h\<lparr>state := s\<rparr>))" for s
    using rests_trans [OF rests_idle rests_eof [OF ans]] rests_trans [OF rests_idle rests_writable [OF ans]]
    by simp_all
  show ?thesis
    using False cb s rests_idle [OF rests_error [of h P ans]] rests_send_to rests_read [OF ans] rests_idle [OF idle_write] rests_incoming
    by (cases cb) (auto simp: do_callback_def do_state_change_def Let_def do_overhead_def rests_idle)
qed

lemma rests_run_aux:
  "settled_run sv r \<Longrightarrow> rests sv h (snd (run_utp P r h))"
  "settled sv cbs \<Longrightarrow> rests sv h (run_cbs P cbs h)"
proof (induction P r h and P cbs h rule: run_utp_run_cbs.induct)
  case (3 P cb rs cbs h)
  have ok: "rest_answers sv (map (run_utp P) rs)"
    using 3(1,3) by (auto simp: rest_answers_def list_all_iff)
  show ?case
    using rests_trans [OF rests_callback [OF ok, of cb h]] 3 by auto
qed (simp_all add: rests_idle)

lemmas rests_run = rests_run_aux(2)

text \<open>The last callback: a connection that is closing is left for \<open>stop\<close>, a stopped one is deleted.\<close>

lemma destroying_closing:
  assumes "\<not> deleted h" "status h = closing"
  shows "\<not> deleted (do_callback P ans (CbState UTP_STATE_DESTROYING) h)"
    and "status (do_callback P ans (CbState UTP_STATE_DESTROYING) h) = destroying"
  using assms
  by (auto simp: do_callback_def do_state_change_def utp_state_defs on_destroying_def
      emit_closed_message_def Let_def)

lemma destroying_stopped:
  assumes "\<not> deleted h" "status h = stopped"
  shows "deleted (do_callback P ans (CbState UTP_STATE_DESTROYING) h)"
  using assms
  by (simp add: do_callback_def do_state_change_def utp_state_defs on_destroying_def
      delete_utp_handler_def delete_this_def UtpHandler_destroy_def SocketHandler_destroy_def Handler_destroy_def Let_def)

lemma run_destroying: "run_cbs P (cbs @ [(CbState UTP_STATE_DESTROYING, rs)]) h =
    do_callback P (map (run_utp P) rs) (CbState UTP_STATE_DESTROYING) (run_cbs P cbs h)"
  by (simp add: run_cbs_append)

section \<open>Stopping a connection\<close>

text \<open>\<open>stop\<close> when nothing is left to write: libutp is asked to close the socket, and makes callbacks.\<close>

lemma stop_closes:
  assumes "wsz (write_q h) = 0" "utp h = Some u" "status h \<noteq> destroying"
    and g: "g = run_cbs P cbs (emit (UtpCall (UTP_Close u)) ((emit (Lock UtpMutex) h)\<lparr>status := closing\<rparr>))"
    and d: "\<not> deleted g"
  shows "\<exists>q. stop P [run_utp P (UtpRun n cbs)] h =
    (let h3 = (emit (Unlock UtpMutex) (g\<lparr>utp := None\<rparr>))\<lparr>ioq := q\<rparr>
     in if status g = destroying then delete_utp_handler h3 else h3\<lparr>status := stopped\<rparr>)"
proof -
  have c: "close_utp [run_utp P (UtpRun n cbs)] (emit (Lock UtpMutex) h) = ([], g\<lparr>utp := None\<rparr>)"
    using assms by (simp add: close_utp_def call_utp_def take_answer_def touch_def)
  define x where "x = emit (Unlock UtpMutex) (g\<lparr>utp := None\<rparr>)"
  define q where "q = (if drv_sizeq (api P) (ioq x) \<noteq> 0
    then drv_deq (api P) (ioq x) (drv_sizeq (api P) (ioq x)) else ioq x)"
  have "touch x = x" "status x = status g" using d by (simp_all add: x_def touch_def)
  then have "stop P [run_utp P (UtpRun n cbs)] h =
      (if status g = destroying then delete_utp_handler (x\<lparr>ioq := q\<rparr>) else x\<lparr>ioq := q, status := stopped\<rparr>)"
    using assms(2) unfolding stop_def c
    by (simp only: Let_def snd_conv x_def [symmetric] if_True not_None_eq) (simp add: q_def)
  then show ?thesis by (intro exI [of _ q]) (simp only: Let_def x_def)
qed

text \<open>C7: a connection whose port is closed when nothing is left to write is released. \<open>stop\<close> asks
  libutp to close the socket. Whatever libutp then calls for the socket, during that and later, at
  any depth of nesting, short of reporting that it connects or that another one comes in for the
  server, the object is alive as long as the socket, and is deleted when libutp destroys it: in the
  callback, or by \<open>stop\<close> itself when that callback came during \<open>UTP_Close\<close>.\<close>

theorem stop_releases_connection:
  "wsz (write_q h) = 0 \<Longrightarrow> utp h = Some u \<Longrightarrow> status h \<noteq> destroying \<Longrightarrow> \<not> deleted h \<Longrightarrow>
   settled (server h) cbs \<Longrightarrow> settled (server h) cbs' \<Longrightarrow> h1 = stop P [run_utp P (UtpRun n cbs)] h \<Longrightarrow>
   UtpCall (UTP_Close u) \<in> set (drop (length (hlog h)) (hlog h1)) \<and> status h1 = stopped \<and> utp h1 = None \<and>
   \<not> deleted (run_cbs P cbs' h1) \<and>
   deleted (run_cbs P (cbs' @ [(CbState UTP_STATE_DESTROYING, rs)]) h1) \<and>
   deleted (stop P [run_utp P (UtpRun n (cbs @ [(CbState UTP_STATE_DESTROYING, rs)]))] h)"
proof -
  assume a: "wsz (write_q h) = 0" "utp h = Some u" "status h \<noteq> destroying" "\<not> deleted h"
    and s: "settled (server h) cbs" "settled (server h) cbs'" and h1: "h1 = stop P [run_utp P (UtpRun n cbs)] h"
  define h0 where "h0 = emit (UtpCall (UTP_Close u)) ((emit (Lock UtpMutex) h)\<lparr>status := closing\<rparr>)"
  define g where "g = run_cbs P cbs h0"
  have h0: "server h0 = server h" and "\<not> deleted h0" "status h0 = closing" "hlog h0 = hlog h @ [Lock UtpMutex, UtpCall (UTP_Close u)]"
    using a by (simp_all add: h0_def)
  then obtain as where g: "\<not> deleted g" "status g = closing" "server g = server h"
    "hlog g = hlog h @ [Lock UtpMutex, UtpCall (UTP_Close u)] @ as"
    using rests_run [where P = P and h = h0, OF s(1)] by (auto simp: rests_def g_def)
  obtain q where "stop P [run_utp P (UtpRun n cbs)] h =
      (emit (Unlock UtpMutex) (g\<lparr>utp := None\<rparr>))\<lparr>ioq := q, status := stopped\<rparr>"
    using stop_closes [OF a(1-3) g_def [unfolded h0_def] g(1), of n] g(2) by auto
  then have 1: "status h1 = stopped" "utp h1 = None" "\<not> deleted h1" "server h1 = server h"
    "UtpCall (UTP_Close u) \<in> set (drop (length (hlog h)) (hlog h1))"
    using g by (simp_all add: h1)
  then have 2: "\<not> deleted (run_cbs P cbs' h1)" "status (run_cbs P cbs' h1) = stopped"
    using rests_run [where P = P and h = h1, OF s(2)] by (auto simp: rests_def)
  let ?g = "do_callback P (map (run_utp P) rs) (CbState UTP_STATE_DESTROYING) g"
  have d: "\<not> deleted ?g" "status ?g = destroying" using destroying_closing [OF g(1,2)] by simp_all
  have "\<exists>q. stop P [run_utp P (UtpRun n (cbs @ [(CbState UTP_STATE_DESTROYING, rs)]))] h =
      delete_utp_handler ((emit (Unlock UtpMutex) (?g\<lparr>utp := None\<rparr>))\<lparr>ioq := q\<rparr>)"
    using stop_closes [where P = P and cbs = "cbs @ [(CbState UTP_STATE_DESTROYING, rs)]" and n = n,
        OF a(1-3) _ d(1)] d(2)
    by (simp add: run_cbs_append g_def h0_def)
  moreover have "deleted (delete_utp_handler x)" for x :: "'a utp_handler"
    by (simp add: delete_utp_handler_def delete_this_def)
  ultimately have "deleted (stop P [run_utp P (UtpRun n (cbs @ [(CbState UTP_STATE_DESTROYING, rs)]))] h)" by metis
  then show ?thesis using 1 2 destroying_stopped [OF 2] by (simp add: run_destroying)
qed

text \<open>C37: a connection whose port is closed while bytes are left to write is never released.
  \<open>stop\<close> does not ask libutp to close the socket, and whatever libutp calls later, either the driver
  still has not asked, or the object outlives the destruction of the socket: when a \<open>close\<close> was
  pending, writing the last bytes turns its status from stopped to closing.\<close>

theorem stop_unsent_leaks:
  "wsz (write_q h) \<noteq> 0 \<Longrightarrow> utp h = Some u \<Longrightarrow> status h \<noteq> destroying \<Longrightarrow> \<not> deleted h \<Longrightarrow> settled (server h) cbs \<Longrightarrow>
   h' = run_cbs P cbs (stop P ans h) \<Longrightarrow>
   \<not> deleted h' \<and>
   (unclosed (drop (length (hlog h)) (hlog h')) \<or>
    \<not> deleted (run_cbs P [(CbState UTP_STATE_DESTROYING, rs)] h'))"
proof -
  assume a: "wsz (write_q h) \<noteq> 0" "utp h = Some u" "status h \<noteq> destroying" "\<not> deleted h"
    and s: "settled (server h) cbs" and h': "h' = run_cbs P cbs (stop P ans h)"
  have c: "close_utp ans (emit (Lock UtpMutex) h) = (ans, emit (Lock UtpMutex) h)"
    using a by (simp add: close_utp_def)
  have 1: "\<not> deleted (stop P ans h)" "server (stop P ans h) = server h" "status (stop P ans h) = stopped"
    "hlog (stop P ans h) = hlog h @ [Lock UtpMutex, Unlock UtpMutex]"
    using a unfolding stop_def c by (simp_all add: touch_def Let_def)
  then obtain as where 2: "\<not> deleted h'" "hlog h' = hlog (stop P ans h) @ as" "status h' = closing \<or> unclosed as"
    using rests_run [where P = P and h = "stop P ans h", OF s] by (auto simp: rests_def h')
  show ?thesis using 2 1(4) destroying_closing [OF 2(1)] by auto
qed

text \<open>
  Why the callback that reports a socket coming in is left out for servers: a server that has given
  up its socket takes the new one and counts as connected again. A process that waits for its close
  is not answered, and a stopped handler not deleted, when libutp destroys the old socket.
\<close>

lemma incoming_revives:
  assumes "server h" "\<not> deleted h" "utp h = None" and g: "g = do_callback P ans (CbIncoming u) h"
  shows "status g = connected" "utp g = Some u"
    and "close_replies (hlog (do_callback P ans' (CbState UTP_STATE_DESTROYING) g)) = close_replies (hlog h)"
    and "\<not> deleted (do_callback P ans' (CbState UTP_STATE_DESTROYING) g)"
  using assms
  by (simp_all add: do_callback_def do_incoming_def Server_do_incoming_def set_utp_callbacks_def set_sockopt_def
      do_state_change_def utp_state_defs on_destroying_def Let_def)

section \<open>Samples\<close>

definition unsent_conn :: "byte list list utp_handler" where
  "unsent_conn = busy_conn\<lparr>write_q := wq_push_back \<lparr>bin_id = 7, orig_bytes = [1, 2]\<rparr> wq_new,
     status := closing, close_pending := True\<rparr>"

theorem stop_releases_connection_witness:
  "deleted (run_cbs sample_platform [(CbState UTP_STATE_WRITABLE, []), (CbState UTP_STATE_DESTROYING, [])]
       (stop sample_platform [run_utp sample_platform (UtpRun 0 [(CbSendTo 3 [(3, 0)], [])])] busy_conn)) \<and>
   \<not> deleted (run_cbs sample_platform [(CbState UTP_STATE_WRITABLE, [])]
       (stop sample_platform [run_utp sample_platform (UtpRun 0 [(CbSendTo 3 [(3, 0)], [])])] busy_conn))"
  using stop_releases_connection [of busy_conn 1 "[(CbSendTo 3 [(3, 0)], [])]" "[(CbState UTP_STATE_WRITABLE, [])]"
      _ sample_platform 0 "[]", OF _ _ _ _ _ _ refl]
  by (simp add: utp_state_defs wq_new_def)

lemma unsent_closes:
  "\<not> unclosed (drop (length (hlog unsent_conn))
     (hlog (run_cbs sample_platform [(CbWrite 2, []), (CbState UTP_STATE_WRITABLE, [])] (stop sample_platform [] unsent_conn))))"
  by code_simp

theorem stop_unsent_leaks_witness:
  "\<not> deleted (run_cbs sample_platform [(CbState UTP_STATE_DESTROYING, [])]
     (run_cbs sample_platform [(CbWrite 2, []), (CbState UTP_STATE_WRITABLE, [])] (stop sample_platform [] unsent_conn)))"
  using stop_unsent_leaks [of unsent_conn 1 "[(CbWrite 2, []), (CbState UTP_STATE_WRITABLE, [])]" _ sample_platform "[]"
      "[]", OF _ _ _ _ _ refl] unsent_closes
  by (simp add: utp_state_defs unsent_conn_def wq_push_back_def wq_new_def)

end
