(* ===== verification/Spec2Isabelle.thy ===== *)
theory Spec2Isabelle
  imports Driver_References Monitors Starting Stopping
begin

text \<open>
  gen_utp is a port driver: it lets Erlang processes use the uTP protocol, which the library libutp
  implements over UDP. This development models its C++ code (\<open>src/c_src\<close>) and proves what makes
  it correct, or, in some places, that it is not.

  The program. The Erlang runtime calls the callbacks of \<open>utpdrv.cc\<close>. Behind every port is a
  \<open>MainHandler\<close>; the first one started is a singleton that owns the timer and two kinds of tables,
  from sockets and from monitored processes to handlers. A port becomes a connection
  (\<open>Client\<close>, \<open>Server\<close>, both a \<open>UtpHandler\<close>) or a \<open>Listener\<close>, to which its \<open>MainHandler\<close> delegates
  from then on. Both are \<open>SocketHandler\<close>s: a UDP socket, options, and the delivery of what was
  received. libutp calls back into the handlers while it is being called. A listener keeps the
  processes that wait in \<open>accept\<close>, makes a \<open>Server\<close> of the next datagram from a new peer, and hands
  it to the first of them.

  How it is modelled. A C++ object is a record, a subclass a record extension; a method is a
  function from the object to its result and the new object. All objects share an environment
  (\<open>env\<close>): the log of every call that leaves the driver, in order, counters that make new
  identities, the calling process, and the fields of the singleton that static functions reach.
  A C++ expression gives a value, an exception, or undefined behaviour (\<open>cpp\<close>); a method whose
  undefined behaviour does not end it notes it in the \<open>faults\<close> of the object and goes on, so that
  each theorem says whether it needs the absence of faults. A mutex that is held for a scope is a
  \<open>Lock\<close> entry of the log and an \<open>Unlock\<close> entry. Deleting an object sets \<open>deleted\<close>; a later use is a
  fault. Natural numbers stand for \<open>size_t\<close>, with subtraction that wraps (\<open>size_sub\<close>); packet
  lengths are 32 bit words, bytes 8 bit words, and conversions between widths are written out.

  The parameters. The runtime's I/O queue and allocator (\<open>drv_api\<close>), Erlang's ei library (\<open>ei_lib\<close>)
  and name resolution (\<open>net\<close>) are records of functions, bundled as a \<open>platform\<close>; what the proofs need
  of them are named hypotheses (\<open>ioq_laws\<close>, \<open>allocs_ok\<close>, \<open>errno_law\<close>, \<open>net_fits\<close>, \<open>mon_fresh\<close>), which
  sample instances satisfy. What
  the operating system answers are arguments. libutp is a list of answers, one for each call:
  what the call returns, and the callbacks that libutp makes meanwhile, which in turn are answered,
  to any depth (\<open>utp_run\<close>). No bound or fuel is needed for that: a run is a finite tree. The two
  loops around \<open>sendto\<close> and \<open>connect\<close> recurse over the list of the system's answers; a loop that has
  not ended when they are used up is a fault, or \<open>None\<close>, and \<open>send_loop_complete\<close> proves that
  \<open>sendto\<close> is called to the end of the packet.

  The theories.
  \<open>Utp_Prelude\<close> bytes, outcomes and shared lemmas; \<open>Std_Map\<close> \<open>std::map\<close>; \<open>Erl_Driver\<close> the runtime's
  interface, term specifications and the sample queue; \<open>Driver_Env\<close> the shared state and binaries.
  \<open>Drv_Types\<close> \<open>drv_types.cc\<close>: \<open>Binary\<close>; its references are counted correctly along every program.
  \<open>Coder\<close> \<open>coder.cc\<close>: all encoder and decoder operations, \<open>copy_to_binary\<close> and its extra byte.
  \<open>Utils\<close> \<open>utils.cc\<close>: replies. \<open>Write_Queue\<close> \<open>write_queue.cc\<close>: a byte stream, by refinement to lists.
  \<open>Sock_Addr\<close> and \<open>Sock_Opts\<close>, parts of \<open>socket_handler.cc\<close>: addresses and their order; options,
  that decoding inverts the encoder of \<open>gen_utp.erl\<close>, what \<open>setopts\<close> takes over and refuses on any
  binary, and when decoding stays within it.
  \<open>Handler\<close> \<open>handler.cc\<close>. \<open>Main_Maps\<close> the singleton's tables in \<open>main_handler.cc\<close>, with the invariant
  that the two monitor tables and the log of demonitored processes agree; \<open>Monitors\<close> the equivalence of its nested loops over
  both tables with removing processes one at a time. \<open>Socket_Handler\<close> the rest of \<open>socket_handler.cc\<close>;
  \<open>Delivery\<close> its correctness: which bytes \<open>emit_read_buffer\<close> sends in which mode, as which terms.
  \<open>Utp_Handler\<close> \<open>utp_handler.cc\<close>, \<open>client.cc\<close>, \<open>server.cc\<close>, with the runs of libutp.
  \<open>Logs\<close> what is read off a log. \<open>Callbacks\<close> the locales over the callbacks of libutp: a relation
  that is transitive and contains a few named steps contains every run of libutp
  (\<open>callback_base\<close> and \<open>callback_steps\<close>; \<open>callback_relation\<close> if it contains every quiet step,
  \<open>handler_relation\<close> if libutp may also destroy the socket); \<open>Connection\<close> the locale
  \<open>port_relation\<close>, the same for every operation of the runtime. They are interpreted for
  the received stream, the mutexes, the answers to acceptors, the write queue and the socket,
  (\<open>Table_Owners\<close>) the entries in the singleton's tables, and (\<open>References\<close>) reference counts.
  \<open>Operations\<close> what writing, sending and connecting do on their branches; \<open>Closing\<close> when a
  process that closes is answered, under all nested callbacks, and when not; \<open>Stopping\<close> what becomes of a connection when its port is closed, and when it is deleted.
  \<open>Listener\<close> \<open>listener.cc\<close>; \<open>Accepting\<close> its refinement of an abstract queue of processes.
  \<open>Main_Handler\<close> the rest of \<open>main_handler.cc\<close>; \<open>Driver\<close> \<open>utpdrv.cc\<close>, where the components meet in
  one state with any number of ports; \<open>Driver_Locks\<close> the discipline of mutexes for all of it.
  \<open>Table_Owners\<close>, \<open>Listener_Tables\<close>, \<open>Driver_Tables\<close>: no operation leaves a table entry whose handler
  is gone, so what the singleton finds there and calls is alive. This needs that new objects
  have identities of their own (addresses of live objects differ), that a failing system call
  sets \<open>errno\<close>, and that libutp does not destroy a socket within the call that creates it.
  What \<open>connect_start\<close> and \<open>listen\<close> keep is derived in the locale \<open>port_start\<close> (in \<open>Main_Handler\<close>)
  and interpreted for mutexes, table entries, references and the outcome. \<open>Starting\<close>: a port
  becomes a pending connection or an empty listener completely or stays as it was, along every
  early return and exception.
  \<open>References\<close> and \<open>Driver_References\<close>: the account of the references of every handler (locales
  \<open>holder\<close> and \<open>owner\<close>, for connections, listeners and port objects) along each operation and
  each call of the runtime: a binary that a handler still points to is not freed.
  \<open>Samples\<close> arguments for the witnesses.

  Not modelled: libutp and the ei library (parameters); the memory of objects beyond whether they
  have been deleted (\<open>operator new\<close> and \<open>delete\<close> of \<open>Handler\<close>, \<open>ei_x_free\<close>); that callbacks of
  different ports run on different threads (the mutexes are logged, but steps are atomic);
  tracing; the table \<open>drv_entry\<close>; the Erlang module, apart from its encoder of options.
\<close>

end
